(* ===== verification/Prelude.thy ===== *)
theory Prelude
  imports Complex_Main "HOL-Library.Multiset"
begin

text \<open>
  What every component of the platform model shares: instants and durations, the result
  of an operation that may raise, database tables as lists of rows with a key, and the widths
  of text columns.
\<close>

section \<open>Automation collections\<close>

named_theorems table_simps \<open>rewrites for keyed tables\<close>
named_theorems db_simps \<open>effects of primitive database writes on the other columns and tables\<close>

section \<open>Time\<close>

text \<open>
  A \<open>datetime\<close> has microsecond resolution: an instant is its number of microseconds. A
  duration given as a Python float number of seconds is a rational; \<open>timedelta(seconds=x)\<close>
  rounds it to microseconds, ties to even.
\<close>

type_synonym time = int
type_synonym seconds = rat

definition round_half_even :: "rat \<Rightarrow> int" where
  "round_half_even x =
     (let f = \<lfloor>x\<rfloor>; d = x - of_int f in
      if d < 1 / 2 then f
      else if 1 / 2 < d then f + 1
      else if even f then f else f + 1)"

definition timedelta_seconds :: "seconds \<Rightarrow> time" where
  "timedelta_seconds x = round_half_even (x * 1000000)"

definition timedelta_minutes :: "int \<Rightarrow> time" where
  "timedelta_minutes n = n * 60000000"

definition timedelta_days :: "int \<Rightarrow> time" where
  "timedelta_days n = n * 86400000000"

lemma round_half_even_near: "\<bar>of_int (round_half_even x) - x\<bar> \<le> 1 / 2"
proof -
  have "of_int \<lfloor>x\<rfloor> \<le> x" and "x < of_int \<lfloor>x\<rfloor> + 1" by linarith+
  then show ?thesis by (simp add: round_half_even_def Let_def abs_le_iff)
qed

lemma round_half_even_mono:
  assumes "x \<le> y"
  shows "round_half_even x \<le> round_half_even y"
proof (cases "\<lfloor>x\<rfloor> = \<lfloor>y\<rfloor>")
  case True
  with assms show ?thesis by (auto simp: round_half_even_def Let_def)
next
  case False
  then have "\<lfloor>x\<rfloor> + 1 \<le> \<lfloor>y\<rfloor>" using floor_mono [OF assms] by linarith
  moreover have "round_half_even x \<le> \<lfloor>x\<rfloor> + 1" and "\<lfloor>y\<rfloor> \<le> round_half_even y"
    by (simp_all add: round_half_even_def Let_def)
  ultimately show ?thesis by linarith
qed

lemma round_half_even_of_int [simp]: "round_half_even (of_int n) = n"
  by (simp add: round_half_even_def)

lemma timedelta_seconds_mono: "x \<le> y \<Longrightarrow> timedelta_seconds x \<le> timedelta_seconds y"
  by (simp add: timedelta_seconds_def round_half_even_mono)

lemma timedelta_seconds_0 [simp]: "timedelta_seconds 0 = 0"
  using round_half_even_of_int [of 0] by (simp add: timedelta_seconds_def)

lemma timedelta_seconds_nonneg: "0 \<le> x \<Longrightarrow> 0 \<le> timedelta_seconds x"
  using timedelta_seconds_mono [of 0 x] by simp

section \<open>Operations that may raise\<close>

text \<open>
  An operation returns a value and the new state, or raises with the state its session is
  left in: the writes made before the exception stay pending until a rollback.
\<close>

datatype ('e, 'a, 's) outcome = Ok 'a 's | Raise 'e 's

fun bind_o :: "('e, 'a, 's) outcome \<Rightarrow> ('a \<Rightarrow> 's \<Rightarrow> ('e, 'b, 's) outcome) \<Rightarrow> ('e, 'b, 's) outcome" where
  "bind_o (Ok x s) f = f x s"
| "bind_o (Raise e s) f = Raise e s"

fun final_state :: "('e, 'a, 's) outcome \<Rightarrow> 's" where
  "final_state (Ok x s) = s"
| "final_state (Raise e s) = s"

fun raised :: "('e, 'a, 's) outcome \<Rightarrow> 'e option" where
  "raised (Ok x s) = None"
| "raised (Raise e s) = Some e"

lemma bind_o_Ok_iff: "bind_o m f = Ok y t \<longleftrightarrow> (\<exists>x s. m = Ok x s \<and> f x s = Ok y t)"
  by (cases m) auto

lemma bind_o_Raise_iff:
  "bind_o m f = Raise e t \<longleftrightarrow> m = Raise e t \<or> (\<exists>x s. m = Ok x s \<and> f x s = Raise e t)"
  by (cases m) auto

lemma final_state_bindI:
  assumes "P (final_state m)" and "\<And>x s. m = Ok x s \<Longrightarrow> P s \<Longrightarrow> P (final_state (f x s))"
  shows "P (final_state (bind_o m f))"
  using assms by (cases m) auto

lemma outcome_Ok_iff: "(\<exists>x s. m = Ok x s) \<longleftrightarrow> raised m = None"
  by (cases m) auto

section \<open>Tables: lists of rows with a key\<close>

definition find_row :: "('r \<Rightarrow> int) \<Rightarrow> int \<Rightarrow> 'r list \<Rightarrow> 'r option" where
  "find_row key k rows = List.find (\<lambda>r. key r = k) rows"

definition update_row :: "('r \<Rightarrow> int) \<Rightarrow> int \<Rightarrow> ('r \<Rightarrow> 'r) \<Rightarrow> 'r list \<Rightarrow> 'r list" where
  "update_row key k f rows = map (\<lambda>r. if key r = k then f r else r) rows"

definition order_limit :: "('r \<Rightarrow> int) \<Rightarrow> nat \<Rightarrow> 'r list \<Rightarrow> 'r list" where
  \<comment> \<open>\<open>ORDER BY key ASC LIMIT n\<close>\<close>
  "order_limit key n rows = take n (sort_key key rows)"

lemma find_row_Nil [table_simps]: "find_row key k [] = None"
  by (simp add: find_row_def)

lemma find_row_Cons [table_simps]:
  "find_row key k (r # rows) = (if key r = k then Some r else find_row key k rows)"
  by (simp add: find_row_def)

lemma find_row_append:
  "find_row key k (xs @ ys) = (case find_row key k xs of None \<Rightarrow> find_row key k ys | Some r \<Rightarrow> Some r)"
  by (induction xs) (simp_all add: table_simps)

lemma find_row_SomeD: "find_row key k rows = Some r \<Longrightarrow> r \<in> set rows \<and> key r = k"
  by (induction rows) (auto simp: table_simps split: if_splits)

lemma find_row_None_iff: "find_row key k rows = None \<longleftrightarrow> k \<notin> key ` set rows"
  by (induction rows) (auto simp: table_simps)

lemma find_row_distinct:
  "distinct (map key rows) \<Longrightarrow> r \<in> set rows \<Longrightarrow> find_row key (key r) rows = Some r"
  by (induction rows) (auto simp: table_simps rev_image_eqI)

lemma find_row_update_row [table_simps]:
  assumes "\<And>r. key (f r) = key r"
  shows "find_row key j (update_row key k f rows) =
     (if j = k then map_option f (find_row key k rows) else find_row key j rows)"
  using assms by (induction rows) (auto simp: table_simps update_row_def)

lemma update_row_update_row:
  assumes "\<And>r. key (g r) = key r"
  shows "update_row key k f (update_row key k g rows) = update_row key k (\<lambda>r. f (g r)) rows"
  using assms by (simp add: update_row_def)

lemma map_key_update_row [table_simps]:
  assumes "\<And>r. key (f r) = key r"
  shows "map key (update_row key k f rows) = map key rows"
  using assms by (simp add: update_row_def)

lemma length_update_row [table_simps]: "length (update_row key k f rows) = length rows"
  by (simp add: update_row_def)

lemma set_update_row:
  "set (update_row key k f rows) = (\<lambda>r. if key r = k then f r else r) ` set rows"
  by (simp add: update_row_def)

lemma in_update_rowE:
  assumes "x \<in> set (update_row key k f rows)"
  obtains (hit) r where "r \<in> set rows" "key r = k" "x = f r"
    | (miss) "x \<in> set rows" "key x \<noteq> k"
  using assms by (auto simp: set_update_row split: if_splits)

lemma set_order_limit: "set (order_limit key n rows) \<subseteq> set rows"
  unfolding order_limit_def using set_take_subset [of n "sort_key key rows"] by simp

lemma distinct_order_limit: "distinct (map key' rows) \<Longrightarrow> distinct (map key' (order_limit key n rows))"
proof -
  assume "distinct (map key' rows)"
  moreover have "mset (map key' (sort_key key rows)) = mset (map key' rows)" by simp
  ultimately have "distinct (map key' (sort_key key rows))"
    by (metis mset_eq_imp_distinct_iff)
  then show ?thesis by (simp add: order_limit_def flip: take_map)
qed

lemma length_filter_update_row_le:
  assumes "\<And>r. r \<in> set rows \<Longrightarrow> key r = k \<Longrightarrow> P (f r) \<Longrightarrow> P r"
  shows "length (filter P (update_row key k f rows)) \<le> length (filter P rows)"
  using assms by (induction rows) (auto simp: update_row_def)

lemma length_filter_update_row_less:
  assumes "\<And>r. \<not> P (f r)" and "r \<in> set rows" and "key r = k" and "P r"
  shows "length (filter P (update_row key k f rows)) < length (filter P rows)"
  using assms(2-)
proof (induction rows)
  case (Cons x rows)
  have "length (filter P (update_row key k f rows)) \<le> length (filter P rows)"
    by (rule length_filter_update_row_le) (simp add: assms(1))
  then show ?case using Cons assms(1) by (auto simp: update_row_def)
qed simp

text \<open>A loop that updates rows of the table one by one changes each of them once.\<close>

lemma fold_update_row:
  assumes "\<And>d r. key (f d r) = key r"
  shows "distinct (map key rows) \<Longrightarrow> distinct (map key ds) \<Longrightarrow> set ds \<subseteq> set rows \<Longrightarrow>
     fold (\<lambda>d. update_row key (key d) (f d)) ds rows = map (\<lambda>r. if r \<in> set ds then f r r else r) rows"
proof (induction ds rule: rev_induct)
  case (snoc d ds)
  have inj: "inj_on key (set rows)" using snoc.prems(1) by (simp add: distinct_map)
  have "fold (\<lambda>d. update_row key (key d) (f d)) (ds @ [d]) rows =
      update_row key (key d) (f d) (map (\<lambda>r. if r \<in> set ds then f r r else r) rows)"
    using snoc by simp
  also have "\<dots> = map (\<lambda>r. if r \<in> set (ds @ [d]) then f r r else r) rows"
    unfolding update_row_def list.map_comp
  proof (rule map_cong [OF refl])
    fix r assume r: "r \<in> set rows"
    show "((\<lambda>r. if key r = key d then f d r else r) \<circ> (\<lambda>r. if r \<in> set ds then f r r else r)) r =
        (if r \<in> set (ds @ [d]) then f r r else r)"
    proof (cases "r = d")
      case True
      then have "r \<notin> set ds" using snoc.prems(2) by auto
      then show ?thesis using True by simp
    next
      case False
      then have "key r \<noteq> key d" using inj r snoc.prems(3) by (auto dest: inj_onD)
      then show ?thesis using False assms by simp
    qed
  qed
  finally show ?case .
qed (simp add: map_idI)

section \<open>Bounded text\<close>

definition fits_width :: "nat \<Rightarrow> string option \<Rightarrow> bool" where
  \<comment> \<open>the text fits a column of \<open>n\<close> characters\<close>
  "fits_width n w \<longleftrightarrow> (case w of None \<Rightarrow> True | Some v \<Rightarrow> length v \<le> n)"

lemma fits_width_simps [simp]:
  "fits_width n None" "fits_width n (Some (take n v))" "fits_width n (Some v) \<longleftrightarrow> length v \<le> n"
  by (simp_all add: fits_width_def)

end
