(* ===== verification/Platform_Data.thy ===== *)
theory Platform_Data
  imports Prelude
begin

text \<open>
  The data of the platform: JSON values, the enumerations and rows of \<open>app/models/\<close>, the
  settings of \<open>app/core/config.py\<close> that the logic reads, and the database with its sequences
  and clocks. Text columns are strings whose characters stand for Python's code points.
\<close>

section \<open>JSON values\<close>

text \<open>
  \<open>JIso t\<close> is the string \<open>datetime.isoformat\<close> gives for the instant \<open>t\<close>.
\<close>

datatype json =
  JNull | JBool bool | JInt int | JNum rat | JStr string | JIso time
  | JArr "json list" | JObj "(string \<times> json) list"

text \<open>The claims of a JWT.\<close>

type_synonym claims = "(string \<times> json) list"

fun json_get :: "json \<Rightarrow> string \<Rightarrow> json option" where
  "json_get (JObj kvs) k = map_of kvs k"
| "json_get _ k = None"

fun json_of_option :: "('a \<Rightarrow> json) \<Rightarrow> 'a option \<Rightarrow> json" where
  "json_of_option f None = JNull"
| "json_of_option f (Some x) = f x"

section \<open>Enumerations\<close>

datatype task_status =
  Created | Queued | Running | RetryScheduled | Scheduled
  | Success | Failed | Cancelled | DeadLetter | Timeout

definition TASK_STATUSES :: "task_status list" where
  "TASK_STATUSES =
     [Created, Queued, Running, RetryScheduled, Scheduled, Success, Failed, Cancelled, DeadLetter, Timeout]"

fun status_name :: "task_status \<Rightarrow> string" where
  "status_name Created = ''created''"
| "status_name Queued = ''queued''"
| "status_name Running = ''running''"
| "status_name RetryScheduled = ''retry_scheduled''"
| "status_name Scheduled = ''scheduled''"
| "status_name Success = ''success''"
| "status_name Failed = ''failed''"
| "status_name Cancelled = ''cancelled''"
| "status_name DeadLetter = ''dead_letter''"
| "status_name Timeout = ''timeout''"

datatype task_priority = Critical | High | Normal | Low

definition TASK_PRIORITIES :: "task_priority list" where
  "TASK_PRIORITIES = [Critical, High, Normal, Low]"

fun priority_name :: "task_priority \<Rightarrow> string" where
  "priority_name Critical = ''critical''"
| "priority_name High = ''high''"
| "priority_name Normal = ''normal''"
| "priority_name Low = ''low''"

datatype attempt_status = ARunning | ASuccess | AFailed

definition ATTEMPT_STATUSES :: "attempt_status list" where
  "ATTEMPT_STATUSES = [ARunning, ASuccess, AFailed]"

datatype outbox_status = OUTBOX_PENDING | OUTBOX_SENT

datatype delivery_status = DELIVERY_PENDING | DELIVERY_SENT | DELIVERY_FAILED

datatype worker_status = WORKER_ALIVE | WORKER_DEAD

definition WORKER_STATUSES :: "worker_status list" where
  "WORKER_STATUSES = [WORKER_ALIVE, WORKER_DEAD]"

definition TASK_EVENT_TYPES :: "string list" where
  "TASK_EVENT_TYPES =
     [''task.created'', ''task.queued'', ''task.scheduled'', ''task.invalidated'', ''task.running'',
      ''task.attempt_started'', ''task.attempt_failed'', ''task.succeeded'', ''task.failed'',
      ''task.cancelled'', ''task.retried'', ''task.retry_scheduled'', ''task.requeued'',
      ''task.dead_lettered'', ''task.dlq_requeued'', ''task.blocked'', ''task.unblocked'']"

lemma status_in_TASK_STATUSES [simp]: "st \<in> set TASK_STATUSES"
  by (cases st) (simp_all add: TASK_STATUSES_def)

lemma UNIV_task_status: "UNIV = set TASK_STATUSES"
  by auto

instantiation task_status :: enum
begin

definition enum_task_status :: "task_status list" where
  "enum_task_status = TASK_STATUSES"

definition enum_all_task_status :: "(task_status \<Rightarrow> bool) \<Rightarrow> bool" where
  "enum_all_task_status P \<longleftrightarrow> list_all P TASK_STATUSES"

definition enum_ex_task_status :: "(task_status \<Rightarrow> bool) \<Rightarrow> bool" where
  "enum_ex_task_status P \<longleftrightarrow> list_ex P TASK_STATUSES"

instance
  by standard
    (auto simp: enum_task_status_def enum_all_task_status_def enum_ex_task_status_def
      list_all_iff list_ex_iff TASK_STATUSES_def UNIV_task_status)

end

section \<open>Rows\<close>

record task =
  t_id :: int
  t_task_type :: string
  t_payload :: json
  t_status :: task_status
  t_priority :: task_priority
  t_max_attempts :: int
  t_attempts :: int
  t_idempotency_key :: "string option"
  t_scheduled_at :: "time option"
  t_started_at :: "time option"
  t_finished_at :: "time option"
  t_lease_owner :: "string option"
  t_lease_expires_at :: "time option"
  t_result :: "json option"
  t_last_error :: "string option"
  t_created_by :: "int option"
  t_batch_id :: "int option"
  t_dlq_requeue_count :: int
  t_dlq_retry_at :: "time option"
  t_created_at :: time
  t_updated_at :: time

record attempt =
  a_id :: int
  a_task_id :: int
  a_attempt_number :: int
  a_worker_id :: "string option"
  a_status :: attempt_status
  a_error_message :: "string option"
  a_result :: "json option"
  a_started_at :: "time option"
  a_finished_at :: "time option"

record event =
  e_id :: int
  e_task_id :: int
  e_event_type :: string
  e_old_status :: "task_status option"
  e_new_status :: task_status
  e_details :: "json option"
  e_created_at :: time

record outbox_event =
  o_id :: int
  o_routing_key :: string
  o_payload :: json
  o_status :: outbox_status
  o_attempts :: int
  o_processed_at :: "time option"
  o_last_error :: "string option"

record dependency =
  d_parent :: int
  d_child :: int

record subscription =
  s_id :: int
  s_name :: string
  s_url :: string
  s_secret :: "string option"
  s_events :: "string list"
  s_is_active :: bool

record delivery =
  w_id :: int
  w_subscription_id :: int
  w_event_type :: string
  w_task_id :: "int option"
  w_payload :: json
  w_status :: delivery_status
  w_attempts :: int
  w_next_retry_at :: time
  w_last_error :: "string option"

record batch =
  b_id :: int
  b_name :: string
  b_created_by :: "int option"

record worker =
  k_id :: int
  k_worker_id :: string
  k_hostname :: string
  k_pid :: int
  k_status :: worker_status
  k_started_at :: time
  k_last_heartbeat_at :: time

record audit_log =
  g_id :: int
  g_actor_id :: "int option"
  g_actor_username :: "string option"
  g_action :: string
  g_resource_type :: string
  g_resource_id :: "string option"
  g_details :: "json option"
  g_ip_address :: "string option"
  g_created_at :: time

record user =
  u_id :: int
  u_username :: string
  u_password_hash :: string
  u_role :: string
  u_active :: bool
  u_last_login_at :: "time option"

record refresh_token =
  r_id :: int
  r_user_id :: int
  r_jti :: string
  r_expires_at :: time
  r_revoked_at :: "time option"

record api_token =
  p_id :: int
  p_name :: string
  p_user_id :: int
  p_token_hash :: string
  p_last_used_at :: "time option"
  p_expires_at :: "time option"
  p_revoked_at :: "time option"
  p_is_active :: bool

end
