(* ===== verification/Database.thy ===== *)
theory Database
  imports Platform_Data
begin

text \<open>
  The settings the logic reads (\<open>app/core/config.py\<close>), the database of the platform with one
  list of rows per table, and the primitive reads and writes a session makes. Sequences hand
  out the primary keys. Every call of \<open>datetime.now(UTC)\<close> takes the next reading of \<open>clock\<close>,
  an arbitrary function, so that no two readings of an operation are assumed equal or ordered;
  \<open>db_now\<close> is the server's \<open>now()\<close>, constant within a transaction.
\<close>

section \<open>Settings\<close>

record settings =
  queued_reconcile_seconds :: seconds
  task_max_attempts :: int
  task_execution_timeout_seconds :: int
  retry_base_seconds :: seconds
  retry_backoff_factor :: rat
  retry_max_delay_seconds :: seconds
  dlq_retry_enabled :: bool
  dlq_retry_interval_seconds :: seconds
  dlq_retry_max_cycles :: int
  worker_heartbeat_timeout_seconds :: seconds
  task_lease_seconds :: seconds
  routing_key_task_created :: string
  batch_max_tasks :: nat
  webhook_max_attempts :: int
  webhook_retry_backoff_seconds :: seconds
  retention_cleanup_batch_size :: nat
  retention_done_tasks_days :: int
  retention_dlq_tasks_days :: int
  retention_outbox_sent_days :: int
  retention_audit_days :: int
  access_token_expire_minutes :: int
  refresh_token_expire_days :: int
  admin_username :: string
  admin_password :: string
  api_token_prefix :: string
  api_token_expire_days :: int
  auth_rate_limit_minutes :: rat
  auth_rate_limit_max :: int

definition default_settings :: settings where
  "default_settings =
     \<lparr>queued_reconcile_seconds = 60, task_max_attempts = 3, task_execution_timeout_seconds = 60,
      retry_base_seconds = 1, retry_backoff_factor = 2, retry_max_delay_seconds = 300,
      dlq_retry_enabled = True, dlq_retry_interval_seconds = 300, dlq_retry_max_cycles = 3,
      worker_heartbeat_timeout_seconds = 60, task_lease_seconds = 60,
      routing_key_task_created = ''task_created'', batch_max_tasks = 1000,
      webhook_max_attempts = 5, webhook_retry_backoff_seconds = 60,
      retention_cleanup_batch_size = 200, retention_done_tasks_days = 30,
      retention_dlq_tasks_days = 30, retention_outbox_sent_days = 7, retention_audit_days = 365,
      access_token_expire_minutes = 60, refresh_token_expire_days = 7, admin_username = ''admin'',
      admin_password = ''admin'', api_token_prefix = ''tp_'', api_token_expire_days = 90,
      auth_rate_limit_minutes = 1, auth_rate_limit_max = 10\<rparr>"

section \<open>The database\<close>

record db =
  tasks :: "task list"
  attempts :: "attempt list"
  events :: "event list"
  outbox :: "outbox_event list"
  dependencies :: "dependency list"
  subscriptions :: "subscription list"
  deliveries :: "delivery list"
  batches :: "batch list"
  workers :: "worker list"
  audit_logs :: "audit_log list"
  users :: "user list"
  refresh_tokens :: "refresh_token list"
  api_tokens :: "api_token list"
  seq_task :: int
  seq_attempt :: int
  seq_event :: int
  seq_outbox :: int
  seq_delivery :: int
  seq_subscription :: int
  seq_batch :: int
  seq_worker :: int
  seq_audit :: int
  seq_user :: int
  seq_refresh :: int
  seq_token :: int
  db_now :: time
  clock :: "nat \<Rightarrow> time"
  ticks :: nat

definition empty_db :: "time \<Rightarrow> (nat \<Rightarrow> time) \<Rightarrow> db" where
  "empty_db t c =
     \<lparr>tasks = [], attempts = [], events = [], outbox = [], dependencies = [], subscriptions = [],
      deliveries = [], batches = [], workers = [], audit_logs = [],
      users = [], refresh_tokens = [], api_tokens = [], seq_task = 1, seq_attempt = 1, seq_event = 1,
      seq_outbox = 1, seq_delivery = 1, seq_subscription = 1, seq_batch = 1, seq_worker = 1, seq_audit = 1, seq_user = 1,
      seq_refresh = 1, seq_token = 1,
      db_now = t, clock = c, ticks = 0\<rparr>"

text \<open>
  A rollback restores the tables; the sequences, the clocks and the readings taken stay.
\<close>

definition rollback_to :: "db \<Rightarrow> db \<Rightarrow> db" where
  "rollback_to s0 s =
     s0\<lparr>seq_task := seq_task s, seq_attempt := seq_attempt s, seq_event := seq_event s,
        seq_outbox := seq_outbox s, seq_delivery := seq_delivery s, seq_subscription := seq_subscription s, seq_batch := seq_batch s,
        seq_worker := seq_worker s, seq_audit := seq_audit s, seq_user := seq_user s,
        seq_refresh := seq_refresh s, seq_token := seq_token s, ticks := ticks s\<rparr>"

section \<open>Errors\<close>

datatype conflict =
  SelfDependency | MissingParents "int list" | CycleDetected
  | NotRetryable task_status | NotCancelable task_status | BatchNotFound

datatype error =
  InvalidTransitionError task_status task_status int
  | TaskConflictError conflict
  | IntegrityError
  | StaleDataError
  | PythonError string
  | BatchLimitError nat nat
  | OutOfFuel

type_synonym 'a result = "(error, 'a, db) outcome"

text \<open>What a route answers: a body, or an \<open>HTTPException\<close> with its status code.\<close>

datatype 'a response = Reply 'a | Status int

section \<open>Primitive reads and writes\<close>

definition now_utc :: "db \<Rightarrow> time \<times> db" where
  "now_utc s = (clock s (ticks s), s\<lparr>ticks := Suc (ticks s)\<rparr>)"

definition get_task_row :: "int \<Rightarrow> db \<Rightarrow> task option" where
  "get_task_row tid s = find_row t_id tid (tasks s)"

text \<open>
  An attribute assignment on a session's object and its row: \<open>obj\<close> is the object the session
  holds, which may be older than the row. \<open>updated_at\<close> follows the server's clock
  (\<open>onupdate=func.now()\<close>).
\<close>

definition assign :: "(task \<Rightarrow> task) \<Rightarrow> task \<times> db \<Rightarrow> task \<times> db" where
  "assign f os =
     (case os of (obj, s) \<Rightarrow>
        let g = (\<lambda>t. (f t)\<lparr>t_updated_at := db_now s\<rparr>) in
        (g obj, s\<lparr>tasks := update_row t_id (t_id obj) g (tasks s)\<rparr>))"

definition record_event :: "task \<Rightarrow> string \<Rightarrow> task_status \<Rightarrow> json option \<Rightarrow> db \<Rightarrow> db" where
  "record_event obj event_type new_status metadata s =
     s\<lparr>events := events s @
          [\<lparr>e_id = seq_event s, e_task_id = t_id obj, e_event_type = event_type,
            e_old_status = Some (t_status obj), e_new_status = new_status,
            e_details = metadata, e_created_at = db_now s\<rparr>],
        seq_event := seq_event s + 1\<rparr>"

definition add_outbox :: "string \<Rightarrow> json \<Rightarrow> db \<Rightarrow> db" where
  "add_outbox key payload s =
     s\<lparr>outbox := outbox s @
          [\<lparr>o_id = seq_outbox s, o_routing_key = key, o_payload = payload,
            o_status = OUTBOX_PENDING, o_attempts = 0, o_processed_at = None, o_last_error = None\<rparr>],
        seq_outbox := seq_outbox s + 1\<rparr>"

text \<open>The message body of a task, and the one of a repeated publication.\<close>

definition task_message :: "task \<Rightarrow> json" where
  "task_message t =
     JObj [(''task_id'', JInt (t_id t)), (''task_type'', JStr (t_task_type t)),
           (''payload'', t_payload t), (''priority'', JStr (priority_name (t_priority t)))]"

definition reattempt_message :: "task \<Rightarrow> json" where
  "reattempt_message t =
     JObj [(''task_id'', JInt (t_id t)), (''task_type'', JStr (t_task_type t)),
           (''payload'', t_payload t), (''priority'', JStr (priority_name (t_priority t))),
           (''reattempt'', JBool True)]"

definition message_for :: "int \<Rightarrow> outbox_event \<Rightarrow> bool" where
  "message_for tid oe \<longleftrightarrow> json_get (o_payload oe) ''task_id'' = Some (JInt tid)"

text \<open>
  The messages an operation leaves in the outbox, in order: pending, and routed to the workers'
  queue.
\<close>

definition publishes :: "settings \<Rightarrow> db \<Rightarrow> db \<Rightarrow> json list \<Rightarrow> bool" where
  "publishes cfg s s' ms \<longleftrightarrow>
     (\<exists>new. outbox s' = outbox s @ new \<and> map o_payload new = ms \<and>
        (\<forall>oe\<in>set new. o_status oe = OUTBOX_PENDING \<and> o_routing_key oe = routing_key_task_created cfg))"

subsection \<open>Effects of the primitives\<close>

lemma now_utc_simps [db_simps]:
  "fst (now_utc s) = clock s (ticks s)"
  "snd (now_utc s) = s\<lparr>ticks := Suc (ticks s)\<rparr>"
  by (simp_all add: now_utc_def)

lemma task_message_id [simp]: "json_get (task_message t) ''task_id'' = Some (JInt (t_id t))"
  by (simp add: task_message_def)

lemma reattempt_message_id [simp]:
  "json_get (reattempt_message t) ''task_id'' = Some (JInt (t_id t))"
  by (simp add: reattempt_message_def)

lemma record_event_simps [db_simps]:
  "tasks (record_event obj ev n m s) = tasks s"
  "attempts (record_event obj ev n m s) = attempts s"
  "outbox (record_event obj ev n m s) = outbox s"
  "dependencies (record_event obj ev n m s) = dependencies s"
  "subscriptions (record_event obj ev n m s) = subscriptions s"
  "deliveries (record_event obj ev n m s) = deliveries s"
  "batches (record_event obj ev n m s) = batches s"
  "workers (record_event obj ev n m s) = workers s"
  "users (record_event obj ev n m s) = users s"
  "seq_user (record_event obj ev n m s) = seq_user s"
  "seq_refresh (record_event obj ev n m s) = seq_refresh s"
  "seq_token (record_event obj ev n m s) = seq_token s"
  "refresh_tokens (record_event obj ev n m s) = refresh_tokens s"
  "api_tokens (record_event obj ev n m s) = api_tokens s"
  "seq_task (record_event obj ev n m s) = seq_task s"
  "seq_attempt (record_event obj ev n m s) = seq_attempt s"
  "seq_outbox (record_event obj ev n m s) = seq_outbox s"
  "seq_delivery (record_event obj ev n m s) = seq_delivery s"
  "clock (record_event obj ev n m s) = clock s"
  "ticks (record_event obj ev n m s) = ticks s"
  "db_now (record_event obj ev n m s) = db_now s"
  by (simp_all add: record_event_def)

lemma add_outbox_simps [db_simps]:
  "tasks (add_outbox k p s) = tasks s"
  "attempts (add_outbox k p s) = attempts s"
  "events (add_outbox k p s) = events s"
  "dependencies (add_outbox k p s) = dependencies s"
  "subscriptions (add_outbox k p s) = subscriptions s"
  "deliveries (add_outbox k p s) = deliveries s"
  "batches (add_outbox k p s) = batches s"
  "workers (add_outbox k p s) = workers s"
  "users (add_outbox k p s) = users s"
  "seq_user (add_outbox k p s) = seq_user s"
  "seq_refresh (add_outbox k p s) = seq_refresh s"
  "seq_token (add_outbox k p s) = seq_token s"
  "refresh_tokens (add_outbox k p s) = refresh_tokens s"
  "api_tokens (add_outbox k p s) = api_tokens s"
  "seq_task (add_outbox k p s) = seq_task s"
  "seq_attempt (add_outbox k p s) = seq_attempt s"
  "seq_event (add_outbox k p s) = seq_event s"
  "seq_delivery (add_outbox k p s) = seq_delivery s"
  "clock (add_outbox k p s) = clock s"
  "ticks (add_outbox k p s) = ticks s"
  "db_now (add_outbox k p s) = db_now s"
  by (simp_all add: add_outbox_def)

lemma outbox_add_outbox:
  "outbox (add_outbox k p s) = outbox s @
     [\<lparr>o_id = seq_outbox s, o_routing_key = k, o_payload = p, o_status = OUTBOX_PENDING,
       o_attempts = 0, o_processed_at = None, o_last_error = None\<rparr>]"
  by (simp add: add_outbox_def)

lemma events_record_event:
  "events (record_event obj ev n m s) = events s @
     [\<lparr>e_id = seq_event s, e_task_id = t_id obj, e_event_type = ev,
       e_old_status = Some (t_status obj), e_new_status = n, e_details = m, e_created_at = db_now s\<rparr>]"
  by (simp add: record_event_def)

lemma get_task_row_SomeD: "get_task_row tid s = Some t \<Longrightarrow> t \<in> set (tasks s) \<and> t_id t = tid"
  by (simp add: get_task_row_def find_row_SomeD)

lemma publishes_Nil: "outbox s' = outbox s \<Longrightarrow> publishes cfg s s' []"
  by (simp add: publishes_def)

lemma publishes_outbox:
  "outbox s' = outbox s \<Longrightarrow> publishes cfg s (add_outbox (routing_key_task_created cfg) m s') [m]"
  by (auto simp: publishes_def add_outbox_def)

lemma publishes_trans:
  "publishes cfg s s1 ms \<Longrightarrow> publishes cfg s1 s2 ms' \<Longrightarrow> publishes cfg s s2 (ms @ ms')"
  by (fastforce simp: publishes_def)

lemma publishes_cong:
  "publishes cfg s s' ms \<Longrightarrow> outbox s1 = outbox s \<Longrightarrow> publishes cfg s1 s' ms"
  by (simp add: publishes_def)

end
