(* ===== verification/Task_Machine.thy ===== *)
theory Task_Machine
  imports Database
begin

text \<open>
  The task state machine of \<open>app/services/tasks.py\<close>: the transition table, the classes of
  states the handlers test, and the retry backoff.
\<close>

section \<open>Transitions\<close>

fun VALID_TRANSITIONS :: "task_status \<Rightarrow> task_status list option" where
  "VALID_TRANSITIONS Created = Some [Queued, Scheduled, Cancelled]"
| "VALID_TRANSITIONS Queued = Some [Running, Cancelled]"
| "VALID_TRANSITIONS Running = Some [Success, Failed, RetryScheduled, Cancelled, DeadLetter, Queued]"
| "VALID_TRANSITIONS RetryScheduled = Some [Queued, Cancelled]"
| "VALID_TRANSITIONS Scheduled = Some [Queued, Cancelled]"
| "VALID_TRANSITIONS Failed = Some [Queued]"
| "VALID_TRANSITIONS Cancelled = Some [Queued]"
| "VALID_TRANSITIONS DeadLetter = Some [Queued]"
| "VALID_TRANSITIONS Success = None"
| "VALID_TRANSITIONS Timeout = None"

definition TERMINAL :: "task_status list" where
  "TERMINAL = [Success, Failed, Cancelled, DeadLetter]"

definition CANCELABLE :: "task_status list" where
  "CANCELABLE = [Created, Queued, Running, RetryScheduled, Scheduled]"

definition RETRYABLE :: "task_status list" where
  "RETRYABLE = [Failed, Cancelled, DeadLetter]"

definition can_transition :: "task_status \<Rightarrow> task_status \<Rightarrow> bool" where
  "can_transition old new =
     (case VALID_TRANSITIONS old of None \<Rightarrow> False | Some l \<Rightarrow> new \<in> set l)"

section \<open>Backoff\<close>

text \<open>\<open>factor ** (attempts - 1)\<close> has an integer exponent, negative for zero attempts.\<close>

definition compute_retry_delay_seconds :: "settings \<Rightarrow> int \<Rightarrow> seconds" where
  "compute_retry_delay_seconds cfg n =
     (let delay = retry_base_seconds cfg * (retry_backoff_factor cfg powi (n - 1)) in
      min delay (retry_max_delay_seconds cfg))"

section \<open>Shared facts\<close>

lemmas status_classes = TERMINAL_def CANCELABLE_def RETRYABLE_def

lemma can_transition_distinct: "can_transition a b \<Longrightarrow> a \<noteq> b"
  by (cases a; cases b) (auto simp: can_transition_def)

lemma can_transition_not_Created: "can_transition a b \<Longrightarrow> b \<noteq> Created"
  by (cases a) (auto simp: can_transition_def)

lemma can_transition_not_Timeout: "can_transition a b \<Longrightarrow> a \<noteq> Timeout \<and> b \<noteq> Timeout"
  by (cases a; cases b) (auto simp: can_transition_def)

lemma can_transition_from_terminal:
  "a \<in> set TERMINAL \<Longrightarrow> can_transition a b \<Longrightarrow> b = Queued"
  by (cases a; cases b) (auto simp: can_transition_def status_classes)

lemma can_transition_Running: "can_transition a Running \<longleftrightarrow> a = Queued"
  by (cases a) (auto simp: can_transition_def)

lemma can_transition_Created:
  "can_transition Created b \<longleftrightarrow> b = Queued \<or> b = Scheduled \<or> b = Cancelled"
  by (cases b) (auto simp: can_transition_def)

lemma terminal_simps [simp]:
  "Success \<in> set TERMINAL" "Failed \<in> set TERMINAL" "Cancelled \<in> set TERMINAL"
  "DeadLetter \<in> set TERMINAL" "Queued \<notin> set TERMINAL" "Running \<notin> set TERMINAL"
  "Created \<notin> set TERMINAL" "Scheduled \<notin> set TERMINAL" "RetryScheduled \<notin> set TERMINAL"
  "Timeout \<notin> set TERMINAL"
  by (simp_all add: TERMINAL_def)

lemma cancelable_can_cancel: "a \<in> set CANCELABLE \<longleftrightarrow> can_transition a Cancelled"
  by (cases a) (auto simp: can_transition_def status_classes)

lemma retryable_can_queue: "a \<in> set RETRYABLE \<longleftrightarrow> a \<in> set TERMINAL \<and> can_transition a Queued"
  by (cases a) (auto simp: can_transition_def status_classes)

lemma backoff_le_max: "compute_retry_delay_seconds cfg n \<le> retry_max_delay_seconds cfg"
  by (simp add: compute_retry_delay_seconds_def Let_def)

lemma backoff_mono:
  assumes "0 \<le> retry_base_seconds cfg" and "1 \<le> retry_backoff_factor cfg" and "m \<le> n"
  shows "compute_retry_delay_seconds cfg m \<le> compute_retry_delay_seconds cfg n"
proof -
  have "retry_backoff_factor cfg powi (m - 1) \<le> retry_backoff_factor cfg powi (n - 1)"
    using assms(2,3) by (intro power_int_increasing) auto
  then show ?thesis
    using assms(1) by (auto simp: compute_retry_delay_seconds_def Let_def min_def
        intro: mult_left_mono dest: mult_left_mono order_trans)
qed

end
