(* ===== verification/Task_State.thy ===== *)
theory Task_State
  imports Task_Machine
begin

text \<open>
  The single point of status change: \<open>set_status\<close> and \<open>_after_status_change\<close> of
  \<open>app/services/tasks.py\<close> with the two parts they call, the webhook enqueueing of
  \<open>app/services/webhooks.py\<close> and the advancement of dependent tasks of
  \<open>app/services/dependencies.py\<close>. The Python functions are mutually recursive (a parent's
  terminal status cancels its blocked children, whose terminal status cancels theirs); here
  the recursive call is an argument of the bodies and the knot is tied with fuel, which
  \<open>set_status_unfold\<close> shows to be enough always.
\<close>

section \<open>Webhook deliveries for an event\<close>

definition matches :: "subscription \<Rightarrow> string \<Rightarrow> bool" where
  "matches sub event_type =
     (if s_events sub = [] then False
      else ''*'' \<in> set (s_events sub) \<or> event_type \<in> set (s_events sub))"

definition task_payload :: "task \<Rightarrow> json" where
  "task_payload t =
     JObj [(''id'', JInt (t_id t)), (''task_type'', JStr (t_task_type t)),
           (''status'', JStr (status_name (t_status t))),
           (''priority'', JStr (priority_name (t_priority t))),
           (''attempts'', JInt (t_attempts t)), (''task_id'', JInt (t_id t))]"

definition enqueue_delivery :: "string \<Rightarrow> task \<Rightarrow> time \<Rightarrow> subscription \<Rightarrow> db \<Rightarrow> db" where
  "enqueue_delivery event_type obj now sub s =
     s\<lparr>deliveries := deliveries s @
          [\<lparr>w_id = seq_delivery s, w_subscription_id = s_id sub, w_event_type = event_type,
            w_task_id = Some (t_id obj),
            w_payload = JObj [(''event'', JStr event_type), (''subscription_id'', JInt (s_id sub)),
                              (''delivery_id'', JInt (seq_delivery s)), (''timestamp'', JIso now),
                              (''task'', task_payload obj)],
            w_status = DELIVERY_PENDING, w_attempts = 0, w_next_retry_at = now, w_last_error = None\<rparr>],
        seq_delivery := seq_delivery s + 1\<rparr>"

fun enqueue_all :: "string \<Rightarrow> task \<Rightarrow> time \<Rightarrow> subscription list \<Rightarrow> db \<Rightarrow> db" where
  "enqueue_all event_type obj now [] s = s"
| "enqueue_all event_type obj now (sub # subs) s =
     (if \<not> matches sub event_type then enqueue_all event_type obj now subs s
      else enqueue_all event_type obj now subs (enqueue_delivery event_type obj now sub s))"

definition enqueue_for :: "string \<Rightarrow> task \<Rightarrow> db \<Rightarrow> db" where
  "enqueue_for event_type obj s =
     (let subs = filter s_is_active (subscriptions s) in
      if subs = [] then s
      else (case now_utc s of (now, s1) \<Rightarrow> enqueue_all event_type obj now subs s1))"

section \<open>Reading the dependency graph\<close>

definition children_of :: "int \<Rightarrow> db \<Rightarrow> int list" where
  "children_of tid s = map d_child (filter (\<lambda>d. d_parent d = tid) (dependencies s))"

definition parents_of :: "int \<Rightarrow> db \<Rightarrow> int list" where
  "parents_of tid s = map d_parent (filter (\<lambda>d. d_child d = tid) (dependencies s))"

definition all_parents_succeeded :: "int \<Rightarrow> db \<Rightarrow> bool" where
  "all_parents_succeeded child_id s =
     (let parent_ids = parents_of child_id s in
      if parent_ids = [] then True
      else let statuses = t_status ` {t \<in> set (tasks s). t_id t \<in> set parent_ids} in
        card statuses = 1 \<and> Success \<in> statuses)"

section \<open>The status change\<close>

type_synonym status_setter =
  "task \<Rightarrow> task_status \<Rightarrow> string \<Rightarrow> json option \<Rightarrow> db \<Rightarrow> task result"

text \<open>
  The attribute assignments of a transition, as a change of the session's object or its row:
  \<open>now\<close> is the reading of \<open>datetime.now\<close> and \<open>upd\<close> the server's time. Each guard reads the
  object, not the row.
\<close>

definition status_assignments :: "task \<Rightarrow> task_status \<Rightarrow> time \<Rightarrow> time \<Rightarrow> task \<Rightarrow> task" where
  "status_assignments obj new_status now upd t =
     t\<lparr>t_finished_at :=
         (if new_status = Queued then None
          else if new_status \<in> set TERMINAL \<and> t_finished_at obj = None then Some now
          else t_finished_at t),
       t_started_at :=
         (if new_status = Running \<and> t_started_at obj = None then Some now else t_started_at t),
       t_scheduled_at := (if new_status = Queued then None else t_scheduled_at t),
       t_lease_owner :=
         (if t_status obj = Running \<and> new_status \<noteq> Running then None else t_lease_owner t),
       t_lease_expires_at :=
         (if t_status obj = Running \<and> new_status \<noteq> Running then None else t_lease_expires_at t),
       t_status := new_status,
       t_updated_at := upd\<rparr>"

definition reads_clock :: "task \<Rightarrow> task_status \<Rightarrow> bool" where
  "reads_clock obj new_status \<longleftrightarrow>
     new_status \<in> set TERMINAL \<and> t_finished_at obj = None \<or>
     new_status = Running \<and> t_started_at obj = None"

definition local_transition ::
    "task \<Rightarrow> task_status \<Rightarrow> string \<Rightarrow> json option \<Rightarrow> db \<Rightarrow> task \<times> db" where
  "local_transition obj new_status event_type metadata s =
     (let (now, s1) = (if reads_clock obj new_status then now_utc s else (db_now s, s));
          change = status_assignments obj new_status now (db_now s);
          s2 = record_event obj event_type new_status metadata s1
      in (change obj, s2\<lparr>tasks := update_row t_id (t_id obj) change (tasks s2)\<rparr>))"

definition unblock ::
    "settings \<Rightarrow> status_setter \<Rightarrow> task \<Rightarrow> int \<Rightarrow> db \<Rightarrow> unit result" where
  "unblock cfg set_status child by_task_id s =
     bind_o (set_status child Queued ''task.unblocked''
               (Some (JObj [(''unblocked_by'', JInt by_task_id)])) s)
       (\<lambda>child s. Ok () (add_outbox (routing_key_task_created cfg) (task_message child) s))"

definition cancel_blocked ::
    "status_setter \<Rightarrow> task \<Rightarrow> int \<Rightarrow> task_status \<Rightarrow> db \<Rightarrow> unit result" where
  "cancel_blocked set_status child parent_id parent_status s =
     (case set_status child Cancelled ''task.cancelled''
             (Some (JObj [(''reason'', JStr ''parent_terminal_non_success''),
                          (''parent_task_id'', JInt parent_id),
                          (''parent_status'', JStr (status_name parent_status))])) s of
        Ok _ s' \<Rightarrow> Ok () s'
      | Raise (InvalidTransitionError _ _ _) s' \<Rightarrow> Ok () s'
      | Raise e s' \<Rightarrow> Raise e s')"

definition advance_child ::
    "settings \<Rightarrow> status_setter \<Rightarrow> task \<Rightarrow> int \<Rightarrow> db \<Rightarrow> unit result" where
  "advance_child cfg set_status obj child_id s =
     (case get_task_row child_id s of
        None \<Rightarrow> Ok () s
      | Some child \<Rightarrow>
          if t_status child \<noteq> Created then Ok () s
          else if t_status obj = Success
          then (if all_parents_succeeded (t_id child) s
                then unblock cfg set_status child (t_id obj) s
                else Ok () s)
          else cancel_blocked set_status child (t_id obj) (t_status obj) s)"

fun advance_loop ::
    "settings \<Rightarrow> status_setter \<Rightarrow> task \<Rightarrow> int list \<Rightarrow> db \<Rightarrow> unit result" where
  "advance_loop cfg set_status obj [] s = Ok () s"
| "advance_loop cfg set_status obj (child_id # child_ids) s =
     bind_o (advance_child cfg set_status obj child_id s)
       (\<lambda>_ s. advance_loop cfg set_status obj child_ids s)"

definition advance_children ::
    "settings \<Rightarrow> status_setter \<Rightarrow> task \<Rightarrow> db \<Rightarrow> unit result" where
  "advance_children cfg set_status obj s =
     advance_loop cfg set_status obj (children_of (t_id obj) s) s"

definition after_status_change ::
    "settings \<Rightarrow> status_setter \<Rightarrow> task \<Rightarrow> string \<Rightarrow> task_status \<Rightarrow> db \<Rightarrow> unit result" where
  "after_status_change cfg set_status obj event_type new_status s =
     (let s1 = enqueue_for event_type obj s in
      if new_status \<in> set TERMINAL then advance_children cfg set_status obj s1 else Ok () s1)"

definition set_status_body :: "settings \<Rightarrow> status_setter \<Rightarrow> status_setter" where
  "set_status_body cfg set_status obj new_status event_type metadata s =
     (if t_status obj = new_status then Ok obj s
      else if \<not> can_transition (t_status obj) new_status
      then Raise (InvalidTransitionError (t_status obj) new_status (t_id obj)) s
      else (case local_transition obj new_status event_type metadata s of (obj', s1) \<Rightarrow>
             bind_o (after_status_change cfg set_status obj' event_type new_status s1)
               (\<lambda>_ s2. Ok obj' s2)))"

primrec set_status_fuel :: "settings \<Rightarrow> nat \<Rightarrow> status_setter" where
  "set_status_fuel cfg 0 = (\<lambda>obj new_status event_type metadata s. Raise OutOfFuel s)"
| "set_status_fuel cfg (Suc n) = set_status_body cfg (set_status_fuel cfg n)"

definition created_count :: "db \<Rightarrow> nat" where
  "created_count s = length (filter (\<lambda>t. t_status t = Created) (tasks s))"

definition set_status :: "settings \<Rightarrow> status_setter" where
  "set_status cfg obj new_status event_type metadata s =
     set_status_fuel cfg (Suc (created_count s)) obj new_status event_type metadata s"

section \<open>The local part of a status change\<close>

lemma status_assignments_sel [simp]:
  "t_id (status_assignments obj new now upd t) = t_id t"
  "t_status (status_assignments obj new now upd t) = new"
  "t_task_type (status_assignments obj new now upd t) = t_task_type t"
  "t_payload (status_assignments obj new now upd t) = t_payload t"
  "t_priority (status_assignments obj new now upd t) = t_priority t"
  "t_max_attempts (status_assignments obj new now upd t) = t_max_attempts t"
  "t_attempts (status_assignments obj new now upd t) = t_attempts t"
  "t_idempotency_key (status_assignments obj new now upd t) = t_idempotency_key t"
  "t_result (status_assignments obj new now upd t) = t_result t"
  "t_last_error (status_assignments obj new now upd t) = t_last_error t"
  "t_batch_id (status_assignments obj new now upd t) = t_batch_id t"
  "t_dlq_requeue_count (status_assignments obj new now upd t) = t_dlq_requeue_count t"
  "t_dlq_retry_at (status_assignments obj new now upd t) = t_dlq_retry_at t"
  by (simp_all add: status_assignments_def)

definition transition_time :: "task \<Rightarrow> task_status \<Rightarrow> db \<Rightarrow> time" where
  "transition_time obj new s = (if reads_clock obj new then clock s (ticks s) else db_now s)"

lemma local_transition_simps [db_simps]:
  "fst (local_transition obj new ev m s) =
     status_assignments obj new (transition_time obj new s) (db_now s) obj"
  "tasks (snd (local_transition obj new ev m s)) =
     update_row t_id (t_id obj) (status_assignments obj new (transition_time obj new s) (db_now s)) (tasks s)"
  "events (snd (local_transition obj new ev m s)) = events s @
     [\<lparr>e_id = seq_event s, e_task_id = t_id obj, e_event_type = ev,
       e_old_status = Some (t_status obj), e_new_status = new, e_details = m, e_created_at = db_now s\<rparr>]"
  "attempts (snd (local_transition obj new ev m s)) = attempts s"
  "outbox (snd (local_transition obj new ev m s)) = outbox s"
  "dependencies (snd (local_transition obj new ev m s)) = dependencies s"
  "subscriptions (snd (local_transition obj new ev m s)) = subscriptions s"
  "deliveries (snd (local_transition obj new ev m s)) = deliveries s"
  "batches (snd (local_transition obj new ev m s)) = batches s"
  "workers (snd (local_transition obj new ev m s)) = workers s"
  "users (snd (local_transition obj new ev m s)) = users s"
  "seq_user (snd (local_transition obj new ev m s)) = seq_user s"
  "seq_refresh (snd (local_transition obj new ev m s)) = seq_refresh s"
  "seq_token (snd (local_transition obj new ev m s)) = seq_token s"
  "refresh_tokens (snd (local_transition obj new ev m s)) = refresh_tokens s"
  "api_tokens (snd (local_transition obj new ev m s)) = api_tokens s"
  "seq_task (snd (local_transition obj new ev m s)) = seq_task s"
  "seq_attempt (snd (local_transition obj new ev m s)) = seq_attempt s"
  "seq_outbox (snd (local_transition obj new ev m s)) = seq_outbox s"
  "seq_delivery (snd (local_transition obj new ev m s)) = seq_delivery s"
  "clock (snd (local_transition obj new ev m s)) = clock s"
  "db_now (snd (local_transition obj new ev m s)) = db_now s"
  by (simp_all add: local_transition_def transition_time_def now_utc_def record_event_def Let_def)

lemma get_task_row_local_transition [db_simps]:
  "get_task_row j (snd (local_transition obj new ev m s)) =
     (if j = t_id obj
      then map_option (status_assignments obj new (transition_time obj new s) (db_now s))
             (get_task_row (t_id obj) s)
      else get_task_row j s)"
  by (simp add: get_task_row_def db_simps table_simps)

section \<open>The frame of the webhook enqueueing\<close>

lemma enqueue_all_simps [db_simps]:
  "tasks (enqueue_all ev obj now subs s) = tasks s"
  "attempts (enqueue_all ev obj now subs s) = attempts s"
  "events (enqueue_all ev obj now subs s) = events s"
  "outbox (enqueue_all ev obj now subs s) = outbox s"
  "dependencies (enqueue_all ev obj now subs s) = dependencies s"
  "subscriptions (enqueue_all ev obj now subs s) = subscriptions s"
  "batches (enqueue_all ev obj now subs s) = batches s"
  "workers (enqueue_all ev obj now subs s) = workers s"
  "users (enqueue_all ev obj now subs s) = users s"
  "seq_user (enqueue_all ev obj now subs s) = seq_user s"
  "seq_refresh (enqueue_all ev obj now subs s) = seq_refresh s"
  "seq_token (enqueue_all ev obj now subs s) = seq_token s"
  "refresh_tokens (enqueue_all ev obj now subs s) = refresh_tokens s"
  "api_tokens (enqueue_all ev obj now subs s) = api_tokens s"
  "seq_task (enqueue_all ev obj now subs s) = seq_task s"
  "seq_attempt (enqueue_all ev obj now subs s) = seq_attempt s"
  "seq_event (enqueue_all ev obj now subs s) = seq_event s"
  "seq_outbox (enqueue_all ev obj now subs s) = seq_outbox s"
  "clock (enqueue_all ev obj now subs s) = clock s"
  "db_now (enqueue_all ev obj now subs s) = db_now s"
  by (induction subs arbitrary: s) (simp_all add: enqueue_delivery_def)

lemma enqueue_for_simps [db_simps]:
  "tasks (enqueue_for ev obj s) = tasks s"
  "attempts (enqueue_for ev obj s) = attempts s"
  "events (enqueue_for ev obj s) = events s"
  "outbox (enqueue_for ev obj s) = outbox s"
  "dependencies (enqueue_for ev obj s) = dependencies s"
  "subscriptions (enqueue_for ev obj s) = subscriptions s"
  "batches (enqueue_for ev obj s) = batches s"
  "workers (enqueue_for ev obj s) = workers s"
  "users (enqueue_for ev obj s) = users s"
  "seq_user (enqueue_for ev obj s) = seq_user s"
  "seq_refresh (enqueue_for ev obj s) = seq_refresh s"
  "seq_token (enqueue_for ev obj s) = seq_token s"
  "refresh_tokens (enqueue_for ev obj s) = refresh_tokens s"
  "api_tokens (enqueue_for ev obj s) = api_tokens s"
  "seq_task (enqueue_for ev obj s) = seq_task s"
  "seq_attempt (enqueue_for ev obj s) = seq_attempt s"
  "seq_event (enqueue_for ev obj s) = seq_event s"
  "seq_outbox (enqueue_for ev obj s) = seq_outbox s"
  "clock (enqueue_for ev obj s) = clock s"
  "db_now (enqueue_for ev obj s) = db_now s"
  by (simp_all add: enqueue_for_def Let_def now_utc_def db_simps)

lemma get_task_row_enqueue_for [db_simps]: "get_task_row j (enqueue_for ev obj s) = get_task_row j s"
  by (simp add: get_task_row_def db_simps)

lemma get_task_row_add_outbox [db_simps]: "get_task_row j (add_outbox k p s) = get_task_row j s"
  by (simp add: get_task_row_def db_simps)

end
