(* ===== verification/Cascade.thy ===== *)
theory Cascade
  imports Task_State
begin

text \<open>
  What a status change does beyond its own row. The locale \<open>cascade_invariant\<close> is the
  interface between a property of the database and the recursive status change: a property
  kept by the three writes a cascade makes is kept by the cascade. On it rest the facts that
  the fuel suffices, that a status change never raises once its own transition is allowed,
  and the closed forms of the two cascades (cancelling blocked descendants, unblocking
  children).
\<close>

section \<open>Statuses and blocked tasks\<close>

definition status_of :: "int \<Rightarrow> db \<Rightarrow> task_status option" where
  "status_of j s = map_option t_status (get_task_row j s)"

definition blocked_row :: "task \<Rightarrow> db \<Rightarrow> bool" where
  "blocked_row child s \<longleftrightarrow> get_task_row (t_id child) s = Some child \<and> t_status child = Created"

definition child_change :: "task_status \<Rightarrow> string \<Rightarrow> bool" where
  "child_change new ev \<longleftrightarrow>
     new = Queued \<and> ev = ''task.unblocked'' \<or> new = Cancelled \<and> ev = ''task.cancelled''"

lemma child_changeD:
  assumes "child_change new ev"
  shows "can_transition Created new" "new \<noteq> Created" "new = Queued \<or> new = Cancelled"
  using assms by (auto simp: child_change_def can_transition_Created)

lemma child_change_intros [simp]:
  "child_change Queued ''task.unblocked''" "child_change Cancelled ''task.cancelled''"
  by (simp_all add: child_change_def)

lemma status_of_local_transition [db_simps]:
  "status_of j (snd (local_transition obj new ev m s)) =
     (if j = t_id obj then map_option (\<lambda>_. new) (get_task_row j s) else status_of j s)"
  by (cases "get_task_row j s") (auto simp: status_of_def db_simps)

lemma status_of_enqueue_for [db_simps]: "status_of j (enqueue_for ev obj s) = status_of j s"
  by (simp add: status_of_def db_simps)

lemma status_of_add_outbox [db_simps]: "status_of j (add_outbox k p s) = status_of j s"
  by (simp add: status_of_def db_simps)

lemma blocked_row_status: "blocked_row child s \<Longrightarrow> status_of (t_id child) s = Some Created"
  by (simp add: blocked_row_def status_of_def)

lemma blocked_row_in_tasks: "blocked_row child s \<Longrightarrow> child \<in> set (tasks s) \<and> t_status child = Created"
  by (auto simp: blocked_row_def dest: get_task_row_SomeD)

lemma created_count_enqueue_for [db_simps]: "created_count (enqueue_for ev obj s) = created_count s"
  by (simp add: created_count_def db_simps)

lemma created_count_add_outbox [db_simps]: "created_count (add_outbox k p s) = created_count s"
  by (simp add: created_count_def db_simps)

lemma created_count_local_le:
  assumes "new \<noteq> Created"
  shows "created_count (snd (local_transition obj new ev m s)) \<le> created_count s"
  unfolding created_count_def db_simps
  by (rule length_filter_update_row_le) (simp add: assms)

lemma created_count_local_less:
  assumes "blocked_row child s" and "new \<noteq> Created"
  shows "created_count (snd (local_transition child new ev m s)) < created_count s"
  unfolding created_count_def db_simps
  using blocked_row_in_tasks [OF assms(1)] assms(2)
  by (intro length_filter_update_row_less) auto

lemma created_count_pos: "blocked_row child s \<Longrightarrow> 0 < created_count s"
  using blocked_row_in_tasks [of child s]
  by (auto simp: created_count_def filter_empty_conv simp flip: length_greater_0_conv)

section \<open>Properties a cascade keeps\<close>

locale cascade_invariant =
  fixes cfg :: settings and I :: "db \<Rightarrow> bool"
  assumes I_local: "I s \<Longrightarrow> blocked_row child s \<Longrightarrow> child_change new ev \<Longrightarrow>
      I (snd (local_transition child new ev m s))"
    and I_enqueue: "I s \<Longrightarrow> I (enqueue_for ev obj s)"
    and I_outbox: "I s \<Longrightarrow> I (add_outbox key (task_message child) s)"
begin

definition keeps :: "status_setter \<Rightarrow> bool" where
  "keeps setter \<longleftrightarrow> (\<forall>child new ev m s. I s \<longrightarrow> blocked_row child s \<longrightarrow> child_change new ev \<longrightarrow>
     I (final_state (setter child new ev m s)))"

lemma keepsD:
  "keeps setter \<Longrightarrow> I s \<Longrightarrow> blocked_row child s \<Longrightarrow> child_change new ev \<Longrightarrow>
   I (final_state (setter child new ev m s))"
  by (simp add: keeps_def)

lemma final_state_unblock:
  assumes "keeps setter" "I s" "blocked_row child s"
  shows "I (final_state (unblock cfg setter child by s))"
proof -
  let ?m = "Some (JObj [(''unblocked_by'', JInt by)])"
  have "I (final_state (setter child Queued ''task.unblocked'' ?m s))"
    by (rule keepsD [OF assms]) simp
  then show ?thesis
    by (cases "setter child Queued ''task.unblocked'' ?m s") (auto simp: unblock_def I_outbox)
qed

lemma final_state_cancel_blocked:
  assumes "keeps setter" "I s" "blocked_row child s"
  shows "I (final_state (cancel_blocked setter child p st s))"
proof -
  let ?m = "Some (JObj [(''reason'', JStr ''parent_terminal_non_success''),
              (''parent_task_id'', JInt p), (''parent_status'', JStr (status_name st))])"
  have "I (final_state (setter child Cancelled ''task.cancelled'' ?m s))"
    by (rule keepsD [OF assms]) simp
  then show ?thesis
    by (cases "setter child Cancelled ''task.cancelled'' ?m s")
      (auto simp: cancel_blocked_def split: error.splits)
qed

lemma final_state_advance_child:
  assumes "keeps setter" "I s"
  shows "I (final_state (advance_child cfg setter obj c s))"
proof (cases "get_task_row c s")
  case (Some child)
  then have "t_status child = Created \<Longrightarrow> blocked_row child s"
    using get_task_row_SomeD by (auto simp: blocked_row_def)
  then show ?thesis
    using assms Some by (auto simp: advance_child_def final_state_unblock final_state_cancel_blocked)
qed (simp add: advance_child_def assms)

lemma final_state_advance_loop:
  assumes "keeps setter"
  shows "I s \<Longrightarrow> I (final_state (advance_loop cfg setter obj cs s))"
proof (induction cs arbitrary: s)
  case (Cons c cs)
  have "I (final_state (advance_child cfg setter obj c s))"
    by (rule final_state_advance_child [OF assms Cons.prems])
  then show ?case
    using Cons.IH by (cases "advance_child cfg setter obj c s") auto
qed simp

lemma final_state_after:
  assumes "keeps setter" "I s"
  shows "I (final_state (after_status_change cfg setter obj ev new s))"
  using assms by (simp add: after_status_change_def Let_def advance_children_def
      final_state_advance_loop I_enqueue)

lemma keeps_fuel: "keeps (set_status_fuel cfg n)"
proof (induction n)
  case 0
  then show ?case by (simp add: keeps_def)
next
  case (Suc n)
  have "I (final_state (set_status_body cfg (set_status_fuel cfg n) child new ev m s))"
    if "I s" "blocked_row child s" "child_change new ev" for child new ev m s
  proof -
    obtain obj' s1 where loc: "local_transition child new ev m s = (obj', s1)"
      by (cases "local_transition child new ev m s")
    then have "I s1" using I_local [OF that, of m] by simp
    then have "I (final_state (after_status_change cfg (set_status_fuel cfg n) obj' ev new s1))"
      by (rule final_state_after [OF Suc.IH])
    then show ?thesis
      using that loc
      by (cases "after_status_change cfg (set_status_fuel cfg n) obj' ev new s1")
        (auto simp: set_status_body_def)
  qed
  then show ?case by (simp add: keeps_def)
qed

lemma after_fuel:
  "I s \<Longrightarrow> I (final_state (after_status_change cfg (set_status_fuel cfg n) obj ev new s))"
  by (rule final_state_after [OF keeps_fuel])

end

interpretation created_le: cascade_invariant cfg "\<lambda>s. created_count s \<le> k" for cfg k
  by unfold_locales (auto simp: db_simps dest: child_changeD intro: order_trans [OF created_count_local_le])

lemma created_count_fuel_le:
  "blocked_row child s \<Longrightarrow> child_change new ev \<Longrightarrow>
   created_count (final_state (set_status_fuel cfg n child new ev m s)) \<le> created_count s"
  using created_le.keepsD [OF created_le.keeps_fuel order_refl] .

section \<open>The fuel suffices\<close>

lemma advance_child_cong:
  assumes agree: "\<And>child new ev m. blocked_row child s \<Longrightarrow> child_change new ev \<Longrightarrow>
      f child new ev m s = g child new ev m s"
  shows "advance_child cfg f obj c s = advance_child cfg g obj c s"
proof (cases "get_task_row c s")
  case (Some child)
  then have "t_status child = Created \<Longrightarrow> blocked_row child s"
    using get_task_row_SomeD by (auto simp: blocked_row_def)
  then show ?thesis
    using Some by (simp add: advance_child_def unblock_def cancel_blocked_def agree)
qed (simp add: advance_child_def)

lemma advance_loop_cong:
  assumes agree: "\<And>child new ev m s. blocked_row child s \<Longrightarrow> child_change new ev \<Longrightarrow>
      created_count s \<le> k \<Longrightarrow> f child new ev m s = set_status_fuel cfg n child new ev m s"
    and "created_count s \<le> k"
  shows "advance_loop cfg f obj cs s = advance_loop cfg (set_status_fuel cfg n) obj cs s"
  using assms(2)
proof (induction cs arbitrary: s)
  case (Cons c cs)
  have eq: "advance_child cfg f obj c s = advance_child cfg (set_status_fuel cfg n) obj c s"
    by (rule advance_child_cong) (simp add: agree Cons.prems)
  have "created_count (final_state (advance_child cfg (set_status_fuel cfg n) obj c s)) \<le> k"
    by (rule created_le.final_state_advance_child [OF created_le.keeps_fuel Cons.prems])
  then show ?case
    using Cons.IH eq by (cases "advance_child cfg (set_status_fuel cfg n) obj c s") auto
qed simp

lemma after_status_change_cong:
  assumes "\<And>child new ev m s. blocked_row child s \<Longrightarrow> child_change new ev \<Longrightarrow>
      created_count s \<le> k \<Longrightarrow> f child new ev m s = set_status_fuel cfg n child new ev m s"
    and "created_count s \<le> k"
  shows "after_status_change cfg f obj ev new s =
         after_status_change cfg (set_status_fuel cfg n) obj ev new s"
  using advance_loop_cong [of k f cfg n] assms
  by (simp add: after_status_change_def advance_children_def Let_def db_simps)

lemma created_count_after_blocked:
  "blocked_row child s \<Longrightarrow> child_change new ev \<Longrightarrow> created_count s \<le> Suc n \<Longrightarrow>
   created_count (snd (local_transition child new ev m s)) \<le> n"
  using created_count_local_less [of child s new ev m] child_changeD(2) by fastforce

lemma fuel_stable:
  "blocked_row child s \<Longrightarrow> child_change new ev \<Longrightarrow> created_count s \<le> n \<Longrightarrow> n \<le> n' \<Longrightarrow>
   set_status_fuel cfg n' child new ev m s = set_status_fuel cfg n child new ev m s"
proof (induction n arbitrary: n' child new ev m s)
  case 0
  then show ?case using created_count_pos by fastforce
next
  case (Suc n)
  then obtain k where k: "n' = Suc k" "n \<le> k" by (cases n') auto
  obtain obj' s1 where loc: "local_transition child new ev m s = (obj', s1)"
    by (cases "local_transition child new ev m s")
  have "created_count s1 \<le> n"
    using created_count_after_blocked [OF Suc.prems(1-3), of m] loc by simp
  then have "after_status_change cfg (set_status_fuel cfg k) obj' ev new s1 =
             after_status_change cfg (set_status_fuel cfg n) obj' ev new s1"
    using Suc.IH k(2) by (intro after_status_change_cong [of n]) blast+
  then show ?case
    using loc k by (simp add: set_status_body_def)
qed

lemma set_status_blocked:
  assumes "blocked_row child s" "child_change new ev" "created_count s \<le> n"
  shows "set_status cfg child new ev m s = set_status_fuel cfg n child new ev m s"
  using fuel_stable [OF assms(1,2) order_refl, of "Suc (created_count s)"]
    fuel_stable [OF assms(1,2) order_refl assms(3)]
  by (simp add: set_status_def)

lemma after_status_change_set_status:
  "created_count s \<le> n \<Longrightarrow>
   after_status_change cfg (set_status cfg) obj ev new s =
   after_status_change cfg (set_status_fuel cfg n) obj ev new s"
  by (rule after_status_change_cong [of n]) (simp_all add: set_status_blocked)

lemma set_status_step:
  assumes "can_transition (t_status obj) new"
  shows "set_status cfg obj new ev m s =
     (case local_transition obj new ev m s of (obj', s1) \<Rightarrow>
        bind_o (after_status_change cfg (set_status cfg) obj' ev new s1) (\<lambda>_ s2. Ok obj' s2))"
proof -
  obtain obj' s1 where loc: "local_transition obj new ev m s = (obj', s1)"
    by (cases "local_transition obj new ev m s")
  have "created_count s1 \<le> created_count s"
    using created_count_local_le [of new obj ev m s] can_transition_not_Created [OF assms] loc by simp
  from after_status_change_set_status [OF this] show ?thesis
    using loc assms by (simp add: set_status_def set_status_body_def can_transition_distinct)
qed

lemma set_status_unfold:
  "set_status cfg obj new ev m s = set_status_body cfg (set_status cfg) obj new ev m s"
proof (cases "can_transition (t_status obj) new")
  case True
  then show ?thesis
    by (simp add: set_status_step set_status_body_def can_transition_distinct)
qed (simp add: set_status_def set_status_body_def)

end
