(* ===== verification/Cascade_Spec.thy ===== *)
theory Cascade_Spec
  imports Cascade
begin

text \<open>
  Closed forms of the two cascades. A terminal status other than success cancels exactly the
  blocked tasks reachable from the task through blocked tasks; success queues exactly the
  blocked children all of whose parents have succeeded, and publishes each of them once.
\<close>

section \<open>Reachability through blocked tasks\<close>

inductive blocked_below :: "db \<Rightarrow> int \<Rightarrow> int \<Rightarrow> bool" for s p where
  child: "c \<in> set (children_of p s) \<Longrightarrow> status_of c s = Some Created \<Longrightarrow> blocked_below s p c"
| further: "blocked_below s p b \<Longrightarrow> c \<in> set (children_of b s) \<Longrightarrow> status_of c s = Some Created \<Longrightarrow>
    blocked_below s p c"

inductive_cases blocked_belowE: "blocked_below s p c"

lemma blocked_below_Created: "blocked_below s p j \<Longrightarrow> status_of j s = Some Created"
  by (erule blocked_belowE) auto

lemma blocked_below_trans: "blocked_below s b j \<Longrightarrow> blocked_below s p b \<Longrightarrow> blocked_below s p j"
  by (induction rule: blocked_below.induct) (auto intro: blocked_below.further)

lemma blocked_below_via:
  "c \<in> set (children_of p s) \<Longrightarrow> status_of c s = Some Created \<Longrightarrow> blocked_below s c j \<Longrightarrow> blocked_below s p j"
  by (rule blocked_below_trans [OF _ blocked_below.child])

lemma blocked_below_mono:
  assumes "blocked_below s1 p j" and "dependencies s1 = dependencies s"
    and "\<And>k. status_of k s1 = Some Created \<Longrightarrow> status_of k s = Some Created"
  shows "blocked_below s p j"
  using assms by (induction rule: blocked_below.induct)
    (auto simp: children_of_def intro: blocked_below.intros)

section \<open>The cancelling cascade\<close>

definition swept :: "db \<Rightarrow> db \<Rightarrow> (int \<Rightarrow> bool) \<Rightarrow> bool" where
  "swept s s' R \<longleftrightarrow>
     dependencies s' = dependencies s \<and> outbox s' = outbox s \<and>
     (\<forall>j. status_of j s' = status_of j s \<or>
        status_of j s = Some Created \<and> status_of j s' = Some Cancelled \<and> R j) \<and>
     (\<forall>j k. status_of j s = Some Created \<longrightarrow> status_of j s' = Some Cancelled \<longrightarrow>
        k \<in> set (children_of j s) \<longrightarrow> status_of k s' \<noteq> Some Created)"

lemma sweptD:
  assumes "swept s s' R"
  shows "dependencies s' = dependencies s"
    and "status_of j s' = Some Created \<Longrightarrow> status_of j s = Some Created"
    and "status_of j s' \<noteq> status_of j s \<Longrightarrow>
         status_of j s = Some Created \<and> status_of j s' = Some Cancelled \<and> R j"
  using assms by (auto simp: swept_def) (metis option.inject task_status.distinct)+

lemma swept_outbox: "swept s s' R \<Longrightarrow> outbox s' = outbox s"
  by (simp add: swept_def)

lemma swept_refl: "swept s s R"
  by (simp add: swept_def)

lemma swept_trans:
  assumes "swept s s1 R1" and "swept s1 s2 R2"
  shows "swept s s2 (\<lambda>j. R1 j \<or> R2 j)"
proof -
  have "children_of j s1 = children_of j s" for j
    using sweptD(1) [OF assms(1)] by (simp add: children_of_def)
  moreover have "dependencies s2 = dependencies s"
    using sweptD(1) [OF assms(1)] sweptD(1) [OF assms(2)] by simp
  moreover have "outbox s2 = outbox s"
    using swept_outbox [OF assms(1)] swept_outbox [OF assms(2)] by simp
  moreover have "status_of j s2 = status_of j s \<or>
      status_of j s = Some Created \<and> status_of j s2 = Some Cancelled \<and> (R1 j \<or> R2 j)" for j
    using assms unfolding swept_def by (metis option.inject task_status.distinct)
  moreover have "status_of k s2 \<noteq> Some Created"
    if "status_of j s = Some Created" "status_of j s2 = Some Cancelled" "k \<in> set (children_of j s1)"
    for j k
  proof (cases "status_of j s1 = Some Created")
    case True
    then show ?thesis using assms(2) that unfolding swept_def by blast
  next
    case False
    then have "status_of j s1 = Some Cancelled" using assms(1) that unfolding swept_def by metis
    then have "status_of k s1 \<noteq> Some Created"
      using assms(1) that \<open>children_of j s1 = children_of j s\<close> unfolding swept_def by metis
    then show ?thesis using sweptD(2) [OF assms(2)] by blast
  qed
  ultimately show ?thesis unfolding swept_def by metis
qed

lemma swept_weaken: "swept s s' R \<Longrightarrow> (\<And>j. R j \<Longrightarrow> R' j) \<Longrightarrow> swept s s' R'"
  unfolding swept_def by blast

definition below_any :: "db \<Rightarrow> int list \<Rightarrow> int \<Rightarrow> bool" where
  "below_any s cs j \<longleftrightarrow>
     (\<exists>c\<in>set cs. status_of c s = Some Created \<and> (j = c \<or> blocked_below s c j))"

lemma status_blocked_row:
  assumes "status_of c s = Some Created"
  obtains child where "blocked_row child s" "t_id child = c" "get_task_row c s = Some child"
  using assms get_task_row_SomeD by (fastforce simp: status_of_def blocked_row_def)

text \<open>What a call on a blocked child achieves, as the loop over the children uses it.\<close>

definition cancels_below :: "settings \<Rightarrow> nat \<Rightarrow> bool" where
  "cancels_below cfg n \<longleftrightarrow>
     (\<forall>child m s. blocked_row child s \<longrightarrow> created_count s \<le> n \<longrightarrow>
        (\<exists>obj' s'. set_status_fuel cfg n child Cancelled ''task.cancelled'' m s = Ok obj' s' \<and>
           swept s s' (\<lambda>j. j = t_id child \<or> blocked_below s (t_id child) j) \<and>
           status_of (t_id child) s' = Some Cancelled))"

lemma advance_child_cancels:
  assumes "cancels_below cfg n" and "created_count s \<le> n" and "t_status obj \<noteq> Success"
  obtains s' where "advance_child cfg (set_status_fuel cfg n) obj c s = Ok () s'"
    and "swept s s' (below_any s [c])" and "status_of c s' \<noteq> Some Created"
proof (cases "status_of c s = Some Created")
  case True
  then obtain child where child: "blocked_row child s" "t_id child = c" "get_task_row c s = Some child"
    by (rule status_blocked_row)
  let ?m = "Some (JObj [(''reason'', JStr ''parent_terminal_non_success''),
       (''parent_task_id'', JInt (t_id obj)), (''parent_status'', JStr (status_name (t_status obj)))])"
  obtain obj' s' where call: "set_status_fuel cfg n child Cancelled ''task.cancelled'' ?m s = Ok obj' s'"
    and sw: "swept s s' (\<lambda>j. j = t_id child \<or> blocked_below s (t_id child) j)"
    and st: "status_of (t_id child) s' = Some Cancelled"
    using assms(1,2) child(1) unfolding cancels_below_def by meson
  have "swept s s' (below_any s [c])"
    by (rule swept_weaken [OF sw]) (use True child(2) in \<open>auto simp: below_any_def\<close>)
  moreover have "advance_child cfg (set_status_fuel cfg n) obj c s = Ok () s'"
    using child call assms(3) by (simp add: advance_child_def cancel_blocked_def blocked_row_def)
  ultimately show ?thesis using that st child(2) by auto
next
  case False
  then have "advance_child cfg (set_status_fuel cfg n) obj c s = Ok () s"
    by (auto simp: advance_child_def status_of_def split: option.splits)
  then show ?thesis using that False swept_refl by blast
qed

lemma advance_loop_cancels:
  assumes "cancels_below cfg n" and "t_status obj \<noteq> Success"
  shows "created_count s \<le> n \<Longrightarrow>
    \<exists>s'. advance_loop cfg (set_status_fuel cfg n) obj cs s = Ok () s' \<and>
      swept s s' (below_any s cs) \<and> (\<forall>c\<in>set cs. status_of c s' \<noteq> Some Created)"
proof (induction cs arbitrary: s)
  case Nil
  then show ?case by (simp add: swept_refl)
next
  case (Cons c cs)
  obtain s1 where one: "advance_child cfg (set_status_fuel cfg n) obj c s = Ok () s1"
    "swept s s1 (below_any s [c])" "status_of c s1 \<noteq> Some Created"
    using advance_child_cancels [OF assms(1) Cons.prems assms(2)] by blast
  have "created_count s1 \<le> n"
    using created_le.final_state_advance_child [OF created_le.keeps_fuel Cons.prems] one(1)
    by (metis final_state.simps(1))
  then obtain s' where rest: "advance_loop cfg (set_status_fuel cfg n) obj cs s1 = Ok () s'"
    "swept s1 s' (below_any s1 cs)" "\<forall>c\<in>set cs. status_of c s' \<noteq> Some Created"
    using Cons.IH by blast
  have older: "blocked_below s b j" if "blocked_below s1 b j" for b j
    using that sweptD(1,2) [OF one(2)] by (rule blocked_below_mono)
  have "swept s s' (below_any s (c # cs))"
    by (rule swept_weaken [OF swept_trans [OF one(2) rest(2)]])
      (use older sweptD(2) [OF one(2)] in \<open>auto simp: below_any_def\<close>)
  moreover have "status_of c s' \<noteq> Some Created"
    using one(3) sweptD(2) [OF rest(2)] by blast
  ultimately show ?case using one(1) rest by simp
qed

lemma after_status_change_cancels:
  assumes "cancels_below cfg n" and "created_count s \<le> n"
    and "t_status obj = new" and "new \<in> set TERMINAL" and "new \<noteq> Success"
  shows "\<exists>s'. after_status_change cfg (set_status_fuel cfg n) obj ev new s = Ok () s' \<and>
      swept s s' (below_any s (children_of (t_id obj) s)) \<and>
      (\<forall>c\<in>set (children_of (t_id obj) s). status_of c s' \<noteq> Some Created)"
proof -
  let ?s1 = "enqueue_for ev obj s"
  have "created_count ?s1 \<le> n" using assms(2) by (simp add: db_simps)
  then obtain s' where s': "advance_loop cfg (set_status_fuel cfg n) obj (children_of (t_id obj) s) ?s1 = Ok () s'"
    "swept ?s1 s' (below_any ?s1 (children_of (t_id obj) s))"
    "\<forall>c\<in>set (children_of (t_id obj) s). status_of c s' \<noteq> Some Created"
    using advance_loop_cancels [OF assms(1)] assms(3,5) by blast
  have below: "blocked_below ?s1 = blocked_below s"
    by (intro ext iffI; erule blocked_below_mono) (simp_all add: db_simps)
  have "swept s s' (below_any s (children_of (t_id obj) s))"
    using s'(2) by (simp add: swept_def below_any_def below children_of_def db_simps)
  moreover have "children_of (t_id obj) ?s1 = children_of (t_id obj) s"
    by (simp add: children_of_def db_simps)
  ultimately show ?thesis
    using s' assms(4) by (auto simp: after_status_change_def advance_children_def)
qed

lemma cancels_below_fuel: "cancels_below cfg n"
proof (induction n)
  case 0
  then show ?case using created_count_pos by (fastforce simp: cancels_below_def)
next
  case (Suc n)
  show ?case unfolding cancels_below_def
  proof (intro allI impI)
    fix child m s
    assume child: "blocked_row child s" and count: "created_count s \<le> Suc n"
    let ?c = "t_id child" and ?ev = "''task.cancelled''"
    obtain obj' s1 where loc: "local_transition child Cancelled ?ev m s = (obj', s1)"
      by (cases "local_transition child Cancelled ?ev m s")
    have obj': "t_id obj' = ?c" "t_status obj' = Cancelled"
      using local_transition_simps(1) [of child Cancelled ?ev m s] loc by simp_all
    have "created_count s1 \<le> n"
      using created_count_after_blocked [OF child _ count, of Cancelled ?ev m] loc by simp
    then obtain s' where s': "after_status_change cfg (set_status_fuel cfg n) obj' ?ev Cancelled s1 = Ok () s'"
      "swept s1 s' (below_any s1 (children_of ?c s1))"
      "\<forall>c\<in>set (children_of ?c s1). status_of c s' \<noteq> Some Created"
      using after_status_change_cancels [OF Suc.IH, of s1 obj' Cancelled] obj' by auto
    have st1: "status_of j s1 = (if j = ?c then Some Cancelled else status_of j s)" for j
      using status_of_local_transition [of j child Cancelled ?ev m s] loc child
      by (auto simp: blocked_row_def)
    have dep1: "dependencies s1 = dependencies s"
      using local_transition_simps [of child Cancelled ?ev m s] loc by simp
    have ch1: "children_of j s1 = children_of j s" for j
      by (simp add: children_of_def dep1)
    have older: "status_of k s1 = Some Created \<Longrightarrow> status_of k s = Some Created \<and> k \<noteq> ?c" for k
      by (simp add: st1 split: if_splits)
    have below: "below_any s1 (children_of ?c s1) j \<Longrightarrow> blocked_below s ?c j" for j
      using older blocked_below_mono [OF _ dep1] ch1
      by (auto simp: below_any_def intro: blocked_below.child blocked_below_via)
    have fin: "status_of ?c s' = Some Cancelled"
      using sweptD(3) [OF s'(2), of ?c] st1 by auto
    have "swept s s' (\<lambda>j. j = ?c \<or> blocked_below s ?c j)"
      unfolding swept_def
    proof (intro conjI allI impI)
      show "dependencies s' = dependencies s" using sweptD(1) [OF s'(2)] dep1 by simp
      show "outbox s' = outbox s"
        using swept_outbox [OF s'(2)] local_transition_simps [of child Cancelled ?ev m s] loc by simp
      show "status_of j s' = status_of j s \<or>
          status_of j s = Some Created \<and> status_of j s' = Some Cancelled \<and> (j = ?c \<or> blocked_below s ?c j)" for j
        using sweptD(3) [OF s'(2), of j] st1 [of j] fin below blocked_row_status [OF child]
        by (cases "j = ?c") auto
      show "status_of k s' \<noteq> Some Created"
        if "status_of j s = Some Created" "status_of j s' = Some Cancelled" "k \<in> set (children_of j s)" for j k
        using that s'(2,3) st1 [of j] ch1 unfolding swept_def by (metis (full_types))
    qed
    then show "\<exists>obj' s'. set_status_fuel cfg (Suc n) child Cancelled ?ev m s = Ok obj' s' \<and>
        swept s s' (\<lambda>j. j = ?c \<or> blocked_below s ?c j) \<and> status_of ?c s' = Some Cancelled"
      using fin loc s'(1) child
      by (simp add: set_status_body_def blocked_row_def can_transition_Created)
  qed
qed

definition cancel_spec :: "db \<Rightarrow> int \<Rightarrow> task_status \<Rightarrow> int \<Rightarrow> task_status option" where
  \<comment> \<open>the status each task has after task \<open>p\<close> got the terminal status \<open>new\<close>\<close>
  "cancel_spec s p new j =
     (if j = p then map_option (\<lambda>_. new) (status_of p s)
      else if blocked_below s p j then Some Cancelled else status_of j s)"

lemma blocked_below_local:
  assumes "dependencies s1 = dependencies s"
    and "\<And>k. k \<noteq> p \<Longrightarrow> status_of k s1 = status_of k s" and "status_of p s1 \<noteq> Some Created"
    and "j \<noteq> p"
  shows "blocked_below s1 p j \<longleftrightarrow> blocked_below s p j"
proof
  assume "blocked_below s1 p j"
  then show "blocked_below s p j"
    by (rule blocked_below_mono) (use assms(1-3) in \<open>metis+\<close>)
next
  have "j = p \<or> blocked_below s1 p j" if "blocked_below s p j"
    using that by (induction rule: blocked_below.induct)
      (use assms in \<open>auto simp: children_of_def intro: blocked_below.intros\<close>)
  then show "blocked_below s p j \<Longrightarrow> blocked_below s1 p j" using assms(4) by simp
qed

lemma swept_closed:
  assumes sw: "swept s1 s' (below_any s1 (children_of p s1))"
    and "\<forall>c\<in>set (children_of p s1). status_of c s' \<noteq> Some Created"
  shows "status_of j s' = (if blocked_below s1 p j then Some Cancelled else status_of j s1)"
proof (cases "blocked_below s1 p j")
  case True
  then have "status_of j s' \<noteq> Some Created"
  proof (induction rule: blocked_below.induct)
    case (child c)
    then show ?case using assms(2) by blast
  next
    case (further b c)
    then have "status_of b s1 = Some Created" "status_of b s' \<noteq> Some Created"
      using blocked_below_Created assms(2) by blast+
    then show ?case using sw further.hyps(2) unfolding swept_def by metis
  qed
  then show ?thesis using True blocked_below_Created [OF True] sweptD(3) [OF sw, of j] by auto
next
  case False
  then have "\<not> below_any s1 (children_of p s1) j"
    by (auto simp: below_any_def intro: blocked_below.child blocked_below_via)
  then show ?thesis using False sweptD(3) [OF sw, of j] by auto
qed

lemma set_status_cancels:
  assumes "can_transition (t_status obj) new" "new \<in> set TERMINAL" "new \<noteq> Success"
  obtains obj' s' where "set_status cfg obj new ev m s = Ok obj' s'"
    and "\<And>j. status_of j s' = cancel_spec s (t_id obj) new j" and "outbox s' = outbox s"
proof -
  let ?p = "t_id obj"
  obtain obj' s1 where loc: "local_transition obj new ev m s = (obj', s1)"
    by (cases "local_transition obj new ev m s")
  have obj': "t_id obj' = ?p" "t_status obj' = new"
    using local_transition_simps(1) [of obj new ev m s] loc by simp_all
  have st1: "status_of j s1 = (if j = ?p then map_option (\<lambda>_. new) (status_of ?p s) else status_of j s)" for j
    using status_of_local_transition [of j obj new ev m s] loc by (simp add: status_of_def option.map_comp comp_def)
  have dep1: "dependencies s1 = dependencies s"
    using local_transition_simps [of obj new ev m s] loc by simp
  have new: "new \<noteq> Created" using can_transition_not_Created [OF assms(1)] .
  obtain s' where s': "after_status_change cfg (set_status_fuel cfg (created_count s1)) obj' ev new s1 = Ok () s'"
    "swept s1 s' (below_any s1 (children_of ?p s1))"
    "\<forall>c\<in>set (children_of ?p s1). status_of c s' \<noteq> Some Created"
    using after_status_change_cancels [OF cancels_below_fuel order_refl obj'(2) assms(2,3)] obj' by metis
  have "status_of j s' = cancel_spec s ?p new j" for j
  proof (cases "j = ?p")
    case True
    then show ?thesis using sweptD(3) [OF s'(2), of j] st1 [of j] new by (auto simp: cancel_spec_def)
  next
    case False
    have "status_of ?p s1 \<noteq> Some Created" using st1 new by auto
    then have "blocked_below s1 ?p j \<longleftrightarrow> blocked_below s ?p j"
      using blocked_below_local [OF dep1, of ?p j] st1 False by auto
    then show ?thesis using swept_closed [OF s'(2,3), of j] st1 False by (simp add: cancel_spec_def)
  qed
  moreover have "set_status cfg obj new ev m s = Ok obj' s'"
    using s'(1) loc by (simp add: set_status_step [OF assms(1)] after_status_change_set_status [OF order_refl])
  moreover have "outbox s' = outbox s"
    using swept_outbox [OF s'(2)] local_transition_simps [of obj new ev m s] loc by simp
  ultimately show ?thesis using that by blast
qed

section \<open>The unblocking of children\<close>

definition ready :: "int \<Rightarrow> db \<Rightarrow> bool" where
  "ready c s \<longleftrightarrow> status_of c s = Some Created \<and> all_parents_succeeded c s"

lemma all_parents_succeeded_iff:
  "all_parents_succeeded c s \<longleftrightarrow> parents_of c s = [] \<or>
     (\<exists>t\<in>set (tasks s). t_id t \<in> set (parents_of c s)) \<and>
     (\<forall>t\<in>set (tasks s). t_id t \<in> set (parents_of c s) \<longrightarrow> t_status t = Success)"
proof -
  let ?P = "{t \<in> set (tasks s). t_id t \<in> set (parents_of c s)}"
  have "card X = 1 \<and> Success \<in> X \<longleftrightarrow> X = {Success}" for X :: "task_status set"
    by (auto simp: card_1_singleton_iff)
  moreover have "t_status ` ?P = {Success} \<longleftrightarrow> ?P \<noteq> {} \<and> (\<forall>t\<in>?P. t_status t = Success)"
    by auto
  ultimately show ?thesis
    unfolding all_parents_succeeded_def Let_def by simp blast
qed

lemma all_parents_succeeded_cong:
  assumes "dependencies s1 = dependencies s"
    and "tasks s1 = update_row t_id c f (tasks s)" and "\<And>t. t_id (f t) = t_id t"
    and "\<And>t. t_status (f t) = Queued"
    and "distinct (map t_id (tasks s))" and "status_of c s = Some Created"
  shows "all_parents_succeeded j s1 = all_parents_succeeded j s"
proof -
  have par: "parents_of j s1 = parents_of j s" using assms(1) by (simp add: parents_of_def)
  have created: "t_status t = Created" if "t \<in> set (tasks s)" "t_id t = c" for t
    using find_row_distinct [OF assms(5) that(1)] that(2) assms(6)
    by (simp add: status_of_def get_task_row_def)
  let ?F = "\<lambda>r. if t_id r = c then f r else r"
  have F: "t_id (?F t) = t_id t" "t_status (?F t) = Success \<longleftrightarrow> t_status t = Success"
    if "t \<in> set (tasks s)" for t
    using created [OF that] by (auto simp: assms(3,4))
  show ?thesis
    unfolding all_parents_succeeded_iff par assms(2) set_update_row ball_simps bex_simps
    using F by metis
qed

definition queued_by :: "settings \<Rightarrow> db \<Rightarrow> db \<Rightarrow> int list \<Rightarrow> bool" where
  "queued_by cfg s s' cs \<longleftrightarrow>
     (\<forall>j. status_of j s' = (if j \<in> set cs \<and> ready j s then Some Queued else status_of j s)) \<and>
     publishes cfg s s'
       (map (\<lambda>c. task_message (the (get_task_row c s))) (filter (\<lambda>c. ready c s) cs))"

definition same_messages :: "db \<Rightarrow> db \<Rightarrow> int \<Rightarrow> bool" where
  "same_messages s s1 c \<longleftrightarrow>
     distinct (map t_id (tasks s1)) \<and>
     (\<forall>j. j \<noteq> c \<longrightarrow> get_task_row j s1 = get_task_row j s \<and> ready j s1 = ready j s)"

lemma task_message_assignments [simp]:
  "task_message (status_assignments obj new now upd t) = task_message t"
  by (simp add: task_message_def)

lemma advance_child_queues:
  assumes "t_status obj = Success" and "0 < n" and "distinct (map t_id (tasks s))"
  obtains s1 where "advance_child cfg (set_status_fuel cfg n) obj c s = Ok () s1"
    and "queued_by cfg s s1 [c]" and "same_messages s s1 c"
proof (cases "ready c s")
  case True
  then obtain child where child: "blocked_row child s" "t_id child = c" "get_task_row c s = Some child"
    unfolding ready_def by (metis status_blocked_row)
  obtain k where n: "n = Suc k" using assms(2) gr0_implies_Suc by blast
  let ?m = "Some (JObj [(''unblocked_by'', JInt (t_id obj))])" and ?ev = "''task.unblocked''"
  obtain obj' s1 where loc: "local_transition child Queued ?ev ?m s = (obj', s1)"
    by (cases "local_transition child Queued ?ev ?m s")
  let ?s' = "add_outbox (routing_key_task_created cfg) (task_message obj') (enqueue_for ?ev obj' s1)"
  have msg: "task_message obj' = task_message child"
    using local_transition_simps(1) [of child Queued ?ev ?m s] loc by simp
  have st: "status_of j ?s' = (if j = c then Some Queued else status_of j s)" for j
    using status_of_local_transition [of j child Queued ?ev ?m s] loc child by (simp add: db_simps)
  have rows: "get_task_row j ?s' = get_task_row j s" if "j \<noteq> c" for j
    using get_task_row_local_transition [of j child Queued ?ev ?m s] loc child that by (simp add: db_simps)
  have parents: "all_parents_succeeded j ?s' = all_parents_succeeded j s" for j
    by (rule all_parents_succeeded_cong
        [where c = c and f = "status_assignments child Queued (transition_time child Queued s) (db_now s)"])
      (use local_transition_simps [of child Queued ?ev ?m s] loc child assms(3) blocked_row_status
        in \<open>auto simp: db_simps\<close>)
  have "outbox s1 = outbox s" using local_transition_simps [of child Queued ?ev ?m s] loc by simp
  then have "queued_by cfg s ?s' [c]"
    using True child st by (auto simp: queued_by_def publishes_outbox db_simps msg)
  moreover have "same_messages s ?s' c"
    using assms(3) local_transition_simps [of child Queued ?ev ?m s] loc rows st parents
    by (auto simp: same_messages_def ready_def table_simps db_simps)
  moreover have "advance_child cfg (set_status_fuel cfg n) obj c s = Ok () ?s'"
    using child True assms(1) loc n
    by (simp add: advance_child_def ready_def blocked_row_def unblock_def set_status_body_def
        can_transition_Created after_status_change_def)
  ultimately show ?thesis using that by blast
next
  case False
  then have "advance_child cfg (set_status_fuel cfg n) obj c s = Ok () s"
    using assms(1) get_task_row_SomeD
    by (auto simp: advance_child_def ready_def status_of_def split: option.splits)
  moreover have "queued_by cfg s s [c]" "same_messages s s c"
    using False assms(3) by (auto simp: queued_by_def same_messages_def publishes_Nil)
  ultimately show ?thesis using that by blast
qed

lemma advance_loop_queues:
  assumes "t_status obj = Success" and "0 < n"
  shows "distinct cs \<Longrightarrow> distinct (map t_id (tasks s)) \<Longrightarrow>
    \<exists>s'. advance_loop cfg (set_status_fuel cfg n) obj cs s = Ok () s' \<and> queued_by cfg s s' cs"
proof (induction cs arbitrary: s)
  case Nil
  then show ?case by (simp add: queued_by_def publishes_Nil)
next
  case (Cons c cs)
  obtain s1 where one: "advance_child cfg (set_status_fuel cfg n) obj c s = Ok () s1"
    "queued_by cfg s s1 [c]" "same_messages s s1 c"
    using advance_child_queues [OF assms Cons.prems(2)] by blast
  then obtain s' where rest: "advance_loop cfg (set_status_fuel cfg n) obj cs s1 = Ok () s'" "queued_by cfg s1 s' cs"
    using Cons.IH [of s1] Cons.prems(1) by (auto simp: same_messages_def)
  have same: "get_task_row j s1 = get_task_row j s" "ready j s1 = ready j s" if "j \<in> set cs" for j
    using one(3) that Cons.prems(1) by (auto simp: same_messages_def)
  have "filter (\<lambda>c. ready c s1) cs = filter (\<lambda>c. ready c s) cs"
    using same(2) by (intro filter_cong) auto
  moreover have "map (\<lambda>c. task_message (the (get_task_row c s1))) (filter (\<lambda>c. ready c s) cs) =
      map (\<lambda>c. task_message (the (get_task_row c s))) (filter (\<lambda>c. ready c s) cs)"
    using same(1) by (intro map_cong) auto
  ultimately have *: "map (\<lambda>c. task_message (the (get_task_row c s1))) (filter (\<lambda>c. ready c s1) cs) =
      map (\<lambda>c. task_message (the (get_task_row c s))) (filter (\<lambda>c. ready c s) cs)"
    by simp
  have "queued_by cfg s s' (c # cs)"
  proof -
    have "status_of j s' = (if j \<in> set (c # cs) \<and> ready j s then Some Queued else status_of j s)" for j
      using one(2) rest(2) same(2) [of j] Cons.prems(1) by (auto simp: queued_by_def)
    moreover have "publishes cfg s s'
        (map (\<lambda>c. task_message (the (get_task_row c s))) (filter (\<lambda>c. ready c s) [c]) @
         map (\<lambda>c. task_message (the (get_task_row c s1))) (filter (\<lambda>c. ready c s1) cs))"
      using one(2) rest(2) unfolding queued_by_def by (blast intro: publishes_trans)
    ultimately show ?thesis
      using * by (cases "ready c s") (simp_all add: queued_by_def)
  qed
  then show ?case using one(1) rest(1) by simp
qed

text \<open>
  The status change to success: the task's own row, then each ready child once, in the order
  of the dependency rows.
\<close>

lemma set_status_success:
  assumes "t_status obj = Running" and "distinct (map t_id (tasks s))"
    and "distinct (children_of (t_id obj) s)"
  obtains obj' s' where "set_status cfg obj Success ev m s = Ok obj' s'"
    and "queued_by cfg (snd (local_transition obj Success ev m s)) s' (children_of (t_id obj) s)"
proof -
  obtain obj' s1 where loc: "local_transition obj Success ev m s = (obj', s1)"
    by (cases "local_transition obj Success ev m s")
  have obj': "t_id obj' = t_id obj" "t_status obj' = Success"
    using local_transition_simps(1) [of obj Success ev m s] loc by simp_all
  have s1: "children_of (t_id obj) (enqueue_for ev obj' s1) = children_of (t_id obj) s"
    "distinct (map t_id (tasks (enqueue_for ev obj' s1)))"
    using local_transition_simps [of obj Success ev m s] loc assms(2)
    by (simp_all add: children_of_def db_simps table_simps)
  have can: "can_transition (t_status obj) Success"
    using assms(1) by (simp add: can_transition_def)
  obtain s' where s': "advance_loop cfg (set_status_fuel cfg (Suc (created_count s1))) obj'
        (children_of (t_id obj) s) (enqueue_for ev obj' s1) = Ok () s'"
    "queued_by cfg (enqueue_for ev obj' s1) s' (children_of (t_id obj) s)"
    using advance_loop_queues [OF obj'(2) _ assms(3) s1(2)] by blast
  have "after_status_change cfg (set_status_fuel cfg (Suc (created_count s1))) obj' ev Success s1 = Ok () s'"
    using s'(1) s1(1) obj' by (simp add: after_status_change_def advance_children_def)
  then have "set_status cfg obj Success ev m s = Ok obj' s'"
    using loc by (simp add: set_status_step [OF can]
        after_status_change_set_status [of s1 "Suc (created_count s1)"])
  moreover have "ready j (enqueue_for ev obj' s1) = ready j s1" for j
    by (simp add: ready_def all_parents_succeeded_def parents_of_def db_simps)
  then have "queued_by cfg s1 s' (children_of (t_id obj) s)"
    using s'(2) by (simp add: queued_by_def publishes_def db_simps)
  ultimately show ?thesis using that loc by simp
qed

section \<open>The closed form of the unblocking, over the state before\<close>

definition unblocked_by :: "db \<Rightarrow> int \<Rightarrow> int \<Rightarrow> bool" where
  \<comment> \<open>the blocked children of \<open>p\<close> that wait for nothing else\<close>
  "unblocked_by s p j \<longleftrightarrow>
     j \<in> set (children_of p s) \<and> status_of j s = Some Created \<and>
     (\<forall>q\<in>set (parents_of j s). q = p \<or> status_of q s = Some Success \<or> status_of q s = None)"

lemma children_parents: "c \<in> set (children_of p s) \<longleftrightarrow> p \<in> set (parents_of c s)"
  by (auto simp: children_of_def parents_of_def)

lemma all_parents_succeeded_status:
  assumes "distinct (map t_id (tasks s))" "p \<in> set (parents_of c s)" "status_of p s = Some Success"
  shows "all_parents_succeeded c s \<longleftrightarrow>
    (\<forall>q\<in>set (parents_of c s). status_of q s = Some Success \<or> status_of q s = None)"
proof -
  have row: "status_of (t_id t) s = Some (t_status t)" if "t \<in> set (tasks s)" for t
    using find_row_distinct [OF assms(1) that] by (simp add: status_of_def get_task_row_def)
  obtain t where t: "t \<in> set (tasks s)" "t_id t = p"
    using assms(3) get_task_row_SomeD by (fastforce simp: status_of_def)
  have some: "\<exists>t\<in>set (tasks s). t_id t = q \<and> t_status t = st" if "status_of q s = Some st" for q and st :: task_status
    using that get_task_row_SomeD by (fastforce simp: status_of_def)
  show ?thesis
    unfolding all_parents_succeeded_iff
  proof (intro iffI)
    assume L: "parents_of c s = [] \<or> (\<exists>t\<in>set (tasks s). t_id t \<in> set (parents_of c s)) \<and>
      (\<forall>t\<in>set (tasks s). t_id t \<in> set (parents_of c s) \<longrightarrow> t_status t = Success)"
    show "\<forall>q\<in>set (parents_of c s). status_of q s = Some Success \<or> status_of q s = None"
    proof
      fix q assume "q \<in> set (parents_of c s)"
      then show "status_of q s = Some Success \<or> status_of q s = None"
        using L some [of q] by (cases "status_of q s") auto
    qed
  next
    assume R: "\<forall>q\<in>set (parents_of c s). status_of q s = Some Success \<or> status_of q s = None"
    then have "t_status t = Success" if "t \<in> set (tasks s)" "t_id t \<in> set (parents_of c s)" for t
      using row [OF that(1)] that(2) by fastforce
    then show "parents_of c s = [] \<or> (\<exists>t\<in>set (tasks s). t_id t \<in> set (parents_of c s)) \<and>
      (\<forall>t\<in>set (tasks s). t_id t \<in> set (parents_of c s) \<longrightarrow> t_status t = Success)"
      using t assms(2) by blast
  qed
qed

lemma set_status_success_spec:
  assumes "t_status obj = Running" "distinct (map t_id (tasks s))" "distinct (children_of (t_id obj) s)"
    and "status_of (t_id obj) s = Some Running"
  obtains obj' s' where "set_status cfg obj Success ev m s = Ok obj' s'"
    and "\<And>j. status_of j s' = (if j = t_id obj then Some Success
        else if unblocked_by s (t_id obj) j then Some Queued else status_of j s)"
    and "publishes cfg s s' (map (\<lambda>c. task_message (the (get_task_row c s)))
        (filter (unblocked_by s (t_id obj)) (children_of (t_id obj) s)))"
proof -
  let ?p = "t_id obj" and ?s1 = "snd (local_transition obj Success ev m s)"
  let ?cs = "children_of ?p s"
  obtain obj' s' where set: "set_status cfg obj Success ev m s = Ok obj' s'"
    and q: "queued_by cfg ?s1 s' ?cs"
    using set_status_success [OF assms(1-3)] by metis
  have st1: "status_of j ?s1 = (if j = ?p then Some Success else status_of j s)" for j
    using assms(4) by (auto simp: status_of_def db_simps)
  have par: "parents_of j ?s1 = parents_of j s" for j by (simp add: parents_of_def db_simps)
  have d1: "distinct (map t_id (tasks ?s1))" using assms(2) by (simp add: db_simps table_simps)
  have ready: "ready j ?s1 \<longleftrightarrow> unblocked_by s ?p j" if "j \<in> set ?cs" for j
  proof -
    have "all_parents_succeeded j ?s1 \<longleftrightarrow>
        (\<forall>q\<in>set (parents_of j s). q = ?p \<or> status_of q s = Some Success \<or> status_of q s = None)"
      using all_parents_succeeded_status [OF d1, of ?p j] that st1 by (auto simp: par children_parents)
    then show ?thesis using that st1 assms(4) by (auto simp: ready_def unblocked_by_def)
  qed
  have rows: "get_task_row j ?s1 = get_task_row j s" if "unblocked_by s ?p j" for j
    using that assms(4) by (auto simp: db_simps unblocked_by_def)
  have "status_of j s' = (if j = ?p then Some Success else if unblocked_by s ?p j then Some Queued
      else status_of j s)" for j
  proof -
    have "status_of j s' = (if j \<in> set ?cs \<and> ready j ?s1 then Some Queued else status_of j ?s1)"
      using q unfolding queued_by_def by blast
    moreover have "j \<in> set ?cs \<and> ready j ?s1 \<longleftrightarrow> unblocked_by s ?p j"
    proof (cases "j \<in> set ?cs")
      case True
      then show ?thesis by (simp add: ready [OF True])
    qed (simp add: unblocked_by_def)
    moreover have "unblocked_by s ?p j \<Longrightarrow> j \<noteq> ?p"
      using assms(4) by (auto simp: unblocked_by_def)
    ultimately show ?thesis using st1 [of j] by auto
  qed
  moreover have "publishes cfg s s' (map (\<lambda>c. task_message (the (get_task_row c s))) (filter (unblocked_by s ?p) ?cs))"
  proof -
    have "filter (\<lambda>c. ready c ?s1) ?cs = filter (unblocked_by s ?p) ?cs"
      using ready by (intro filter_cong) auto
    moreover have "map (\<lambda>c. task_message (the (get_task_row c ?s1))) (filter (unblocked_by s ?p) ?cs) =
        map (\<lambda>c. task_message (the (get_task_row c s))) (filter (unblocked_by s ?p) ?cs)"
      using rows by (intro map_cong) auto
    moreover have "publishes cfg ?s1 s' (map (\<lambda>c. task_message (the (get_task_row c ?s1))) (filter (\<lambda>c. ready c ?s1) ?cs))"
      using q unfolding queued_by_def by blast
    ultimately have "publishes cfg ?s1 s' (map (\<lambda>c. task_message (the (get_task_row c s))) (filter (unblocked_by s ?p) ?cs))"
      by (simp only:)
    then show ?thesis by (rule publishes_cong) (simp add: db_simps)
  qed
  ultimately show ?thesis using that set by blast
qed

section \<open>A status change raises only when its own transition is forbidden\<close>

lemma after_status_change_nonterminal:
  "new \<notin> set TERMINAL \<Longrightarrow>
   after_status_change cfg setter obj ev new s = Ok () (enqueue_for ev obj s)"
  by (simp add: after_status_change_def Let_def)

lemma set_status_nonterminal:
  assumes "can_transition (t_status obj) new" and "new \<notin> set TERMINAL"
  shows "set_status cfg obj new ev m s =
     (let (obj', s1) = local_transition obj new ev m s in Ok obj' (enqueue_for ev obj' s1))"
  by (simp add: set_status_step [OF assms(1)] after_status_change_nonterminal [OF assms(2)] split: prod.split)

end
