(* ===== verification/Integrity.thy ===== *)
theory Integrity
  imports Cascade_Spec
begin

text \<open>
  The integrity of the database between transactions: keys come from their sequences,
  \<open>finished_at\<close> and the lease agree with the status, the event log of every task is a path of
  the state machine that ends in the task's status, the attempt rows of a task are numbered
  1 to its attempt counter, and error texts fit their columns. Every status change keeps it.
\<close>

section \<open>The invariant\<close>

definition task_ok :: "task \<Rightarrow> bool" where
  "task_ok t \<longleftrightarrow>
     (t_finished_at t \<noteq> None \<longleftrightarrow> t_status t \<in> set TERMINAL) \<and>
     (t_lease_owner t \<noteq> None \<longleftrightarrow> t_status t = Running) \<and>
     (t_lease_expires_at t \<noteq> None \<longleftrightarrow> t_status t = Running) \<and>
     t_status t \<noteq> Timeout"

fun chain :: "task_status \<Rightarrow> event list \<Rightarrow> task_status option" where
  \<comment> \<open>the status a log leads to, if each of its rows starts where the one before ended\<close>
  "chain st [] = Some st"
| "chain st (e # es) =
     (if e_old_status e = Some st \<and> (e_new_status e = st \<or> can_transition st (e_new_status e))
      then chain (e_new_status e) es else None)"

definition history :: "int \<Rightarrow> db \<Rightarrow> event list" where
  "history tid s = filter (\<lambda>e. e_task_id e = tid) (events s)"

definition attempt_numbers :: "int \<Rightarrow> db \<Rightarrow> int list" where
  "attempt_numbers tid s =
     map a_attempt_number (filter (\<lambda>a. a_task_id a = tid) (attempts s))"

definition keys_ok :: "db \<Rightarrow> bool" where
  "keys_ok s \<longleftrightarrow>
     distinct (map t_id (tasks s)) \<and> (\<forall>t\<in>set (tasks s). t_id t < seq_task s) \<and>
     (\<forall>e\<in>set (events s). e_task_id e < seq_task s) \<and>
     (\<forall>a\<in>set (attempts s). a_task_id a < seq_task s) \<and>
     distinct (map a_id (attempts s)) \<and> (\<forall>a\<in>set (attempts s). a_id a < seq_attempt s) \<and>
     distinct (dependencies s) \<and>
     (\<forall>d\<in>set (dependencies s). d_parent d < d_child d \<and> d_child d < seq_task s)"

definition history_ok :: "db \<Rightarrow> bool" where
  "history_ok s \<longleftrightarrow>
     (\<forall>t\<in>set (tasks s). chain Created (history (t_id t) s) = Some (t_status t)) \<and>
     (\<forall>e\<in>set (events s). e_event_type e \<in> set TASK_EVENT_TYPES)"

definition attempts_ok :: "db \<Rightarrow> bool" where
  "attempts_ok s \<longleftrightarrow>
     (\<forall>t\<in>set (tasks s). 0 \<le> t_attempts t \<and> attempt_numbers (t_id t) s = [1..t_attempts t])"

definition texts_ok :: "db \<Rightarrow> bool" where
  \<comment> \<open>the error texts fit their columns\<close>
  "texts_ok s \<longleftrightarrow>
     (\<forall>t\<in>set (tasks s). fits_width 2000 (t_last_error t)) \<and>
     (\<forall>a\<in>set (attempts s). fits_width 2000 (a_error_message a))"

definition integrity_but :: "int set \<Rightarrow> db \<Rightarrow> bool" where
  "integrity_but S s \<longleftrightarrow>
     keys_ok s \<and> history_ok s \<and> attempts_ok s \<and> texts_ok s \<and> (\<forall>t\<in>set (tasks s). t_id t \<in> S \<or> task_ok t)"

abbreviation integrity :: "db \<Rightarrow> bool" where
  "integrity \<equiv> integrity_but {}"

lemmas integrity_defs = integrity_but_def keys_ok_def history_ok_def attempts_ok_def texts_ok_def

section \<open>Consequences\<close>

lemma integrity_weaken: "integrity s \<Longrightarrow> integrity_but S s"
  by (simp add: integrity_but_def)

lemma integrity_distinct: "integrity_but S s \<Longrightarrow> distinct (map t_id (tasks s))"
  by (simp add: integrity_defs)

lemma integrity_get_task:
  assumes "integrity_but S s" and "t \<in> set (tasks s)"
  shows "get_task_row (t_id t) s = Some t"
  using assms find_row_distinct by (auto simp: get_task_row_def integrity_defs)

lemma integrity_task_ok:
  "integrity_but S s \<Longrightarrow> get_task_row tid s = Some t \<Longrightarrow> tid \<notin> S \<Longrightarrow> task_ok t"
  by (auto simp: integrity_but_def dest: get_task_row_SomeD)

lemma chain_append:
  "chain st (es @ es') = (case chain st es of None \<Rightarrow> None | Some st' \<Rightarrow> chain st' es')"
  by (induction es arbitrary: st) auto

lemma integrity_distinct_children:
  assumes "integrity_but S s"
  shows "distinct (children_of p s)"
proof -
  have "inj_on d_child {d \<in> set (dependencies s). d_parent d = p}"
    by (auto simp: inj_on_def intro: dependency.equality)
  then show ?thesis
    using assms by (simp add: children_of_def distinct_map integrity_defs)
qed

section \<open>Status changes keep the invariant\<close>

text \<open>
  What the object and its row must agree on for a transition to \<open>new\<close>: with an object older
  than its row this is all that is left to require.
\<close>

definition fits :: "task \<Rightarrow> task \<Rightarrow> task_status \<Rightarrow> bool" where
  "fits obj row new \<longleftrightarrow>
     t_status row = t_status obj \<and> t_finished_at row = t_finished_at obj \<and>
     (new \<notin> set TERMINAL \<longrightarrow> new = Queued \<or> t_finished_at row = None) \<and>
     (if new = Running then t_lease_owner row \<noteq> None \<and> t_lease_expires_at row \<noteq> None
      else t_status obj = Running \<or> t_lease_owner row = None \<and> t_lease_expires_at row = None)"

lemma fits_task_ok: "fits obj row new \<Longrightarrow> new \<noteq> Timeout \<Longrightarrow>
    task_ok (status_assignments obj new now upd row)"
  by (auto simp: fits_def task_ok_def status_assignments_def)

lemma task_ok_fits:
  assumes "task_ok row" "t_status obj = t_status row" "t_finished_at obj = t_finished_at row"
    and "can_transition (t_status row) new" "new \<noteq> Running"
  shows "fits obj row new"
  using assms can_transition_from_terminal [OF _ assms(4)]
  by (auto simp: fits_def task_ok_def)

lemma history_ok_local:
  assumes "history_ok s" "distinct (map t_id (tasks s))"
    and row: "get_task_row (t_id obj) s = Some row" "t_status row = t_status obj"
    and "can_transition (t_status obj) new" "ev \<in> set TASK_EVENT_TYPES"
  shows "history_ok (snd (local_transition obj new ev m s))"
proof -
  let ?s1 = "snd (local_transition obj new ev m s)"
  let ?e = "\<lparr>e_id = seq_event s, e_task_id = t_id obj, e_event_type = ev,
     e_old_status = Some (t_status obj), e_new_status = new, e_details = m, e_created_at = db_now s\<rparr>"
  have hist: "history j ?s1 = history j s @ (if j = t_id obj then [?e] else [])" for j
    by (simp add: history_def db_simps)
  have before: "chain Created (history (t_id obj) s) = Some (t_status obj)"
    using assms(1) get_task_row_SomeD [OF row(1)] row(2) unfolding history_ok_def by metis
  have "chain Created (history (t_id t) ?s1) = Some (t_status t)" if "t \<in> set (tasks ?s1)" for t
    using that unfolding local_transition_simps
  proof (cases rule: in_update_rowE)
    case (hit r)
    then have "r = row"
      using row(1) find_row_distinct [OF assms(2) hit(1)] by (simp add: get_task_row_def)
    then show ?thesis
      using hit assms(5) by (simp add: hist chain_append before)
  next
    case miss
    then show ?thesis using assms(1) by (simp add: hist history_ok_def)
  qed
  then show ?thesis using assms(1,6) by (auto simp: history_ok_def db_simps)
qed

lemma integrity_local:
  assumes "integrity_but S s" and row: "get_task_row (t_id obj) s = Some row"
    and "fits obj row new" "can_transition (t_status obj) new" "ev \<in> set TASK_EVENT_TYPES"
  shows "integrity_but (S - {t_id obj}) (snd (local_transition obj new ev m s))"
proof -
  let ?s1 = "snd (local_transition obj new ev m s)"
  have new: "new \<noteq> Timeout" using can_transition_not_Timeout [OF assms(4)] by blast
  have "row \<in> set (tasks s)" "t_id row = t_id obj"
    using get_task_row_SomeD [OF row] by simp_all
  then have "t_id obj < seq_task s" using assms(1) by (auto simp: integrity_defs)
  moreover have rows: "t_id t \<in> S - {t_id obj} \<or> task_ok t" if "t \<in> set (tasks ?s1)" for t
    using that unfolding local_transition_simps
  proof (cases rule: in_update_rowE)
    case (hit r)
    then have "r = row"
      using row integrity_get_task [OF assms(1) hit(1)] by simp
    then show ?thesis using hit fits_task_ok [OF assms(3) new] by simp
  next
    case miss
    then show ?thesis using assms(1) by (auto simp: integrity_but_def)
  qed
  moreover have "history_ok ?s1"
    by (rule history_ok_local [OF _ _ row _ assms(4,5)])
      (use assms(1,3) in \<open>auto simp: integrity_defs fits_def\<close>)
  moreover have "attempts_ok ?s1"
    using assms(1) by (auto simp: integrity_defs attempt_numbers_def db_simps elim!: in_update_rowE)
  moreover have "texts_ok ?s1"
    using assms(1) by (auto simp: integrity_defs db_simps status_assignments_def elim!: in_update_rowE)
  ultimately show ?thesis
    using assms(1) by (auto simp: integrity_but_def keys_ok_def db_simps table_simps elim!: in_update_rowE)
qed

lemma integrity_frame:
  assumes "integrity_but S s"
    and "tasks s' = tasks s" "events s' = events s" "attempts s' = attempts s"
    and "dependencies s' = dependencies s" "seq_task s' = seq_task s" "seq_attempt s' = seq_attempt s"
  shows "integrity_but S s'"
  using assms by (simp add: integrity_defs history_def attempt_numbers_def)

lemma integrity_enqueue_for: "integrity_but S s \<Longrightarrow> integrity_but S (enqueue_for ev obj s)"
  by (erule integrity_frame) (simp_all add: db_simps)

lemma integrity_add_outbox: "integrity_but S s \<Longrightarrow> integrity_but S (add_outbox k p s)"
  by (erule integrity_frame) (simp_all add: db_simps)

lemma integrity_now_utc: "integrity_but S s \<Longrightarrow> integrity_but S (snd (now_utc s))"
  by (erule integrity_frame) (simp_all add: db_simps)

lemma child_change_event: "child_change new ev \<Longrightarrow> ev \<in> set TASK_EVENT_TYPES"
  by (auto simp: child_change_def TASK_EVENT_TYPES_def)

interpretation integrity_cascade: cascade_invariant cfg integrity for cfg
proof unfold_locales
  fix s child new ev m
  assume "integrity s" "blocked_row child s" "child_change new ev"
  then have "integrity_but ({} - {t_id child}) (snd (local_transition child new ev m s))"
    by (intro integrity_local [where row = child] task_ok_fits)
      (auto simp: blocked_row_def dest: integrity_task_ok child_changeD child_change_event)
  then show "integrity (snd (local_transition child new ev m s))" by simp
qed (simp_all add: integrity_enqueue_for integrity_add_outbox)

lemma integrity_set_status:
  assumes "integrity_but {t_id obj} s" "get_task_row (t_id obj) s = Some row"
    and "fits obj row new" "ev \<in> set TASK_EVENT_TYPES" "can_transition (t_status obj) new"
  shows "integrity (final_state (set_status cfg obj new ev m s))"
proof -
  obtain obj' s1 where loc: "local_transition obj new ev m s = (obj', s1)"
    by (cases "local_transition obj new ev m s")
  have "integrity s1"
    using integrity_local [OF assms(1,2,3,5,4), of m] loc by simp
  then have "integrity (final_state (after_status_change cfg (set_status_fuel cfg (created_count s1)) obj' ev new s1))"
    by (rule integrity_cascade.after_fuel)
  then show ?thesis
    using loc
    by (cases "after_status_change cfg (set_status_fuel cfg (created_count s1)) obj' ev new s1")
      (simp_all add: set_status_step [OF assms(5)] after_status_change_set_status [OF order_refl])
qed

lemma set_status_not_allowed:
  "\<not> can_transition (t_status obj) new \<Longrightarrow> final_state (set_status cfg obj new ev m s) = s"
  by (simp add: set_status_def set_status_body_def)

text \<open>The status change of an object just loaded, so equal to its row.\<close>

lemma integrity_set_status_row:
  assumes "integrity s" "get_task_row tid s = Some obj" "ev \<in> set TASK_EVENT_TYPES" "new \<noteq> Running"
  shows "integrity (final_state (set_status cfg obj new ev m s))"
proof (cases "can_transition (t_status obj) new")
  case True
  have "t_id obj = tid" using get_task_row_SomeD [OF assms(2)] by simp
  then show ?thesis
    using assms True
    by (intro integrity_set_status [where row = obj] task_ok_fits)
      (auto intro: integrity_weaken dest: integrity_task_ok)
qed (simp add: set_status_not_allowed assms(1))

section \<open>Other writes that keep the invariant\<close>

definition keeps_task :: "(task \<Rightarrow> task) \<Rightarrow> bool" where
  \<comment> \<open>a row change the invariant does not see\<close>
  "keeps_task g \<longleftrightarrow> (\<forall>t. t_id (g t) = t_id t \<and> t_status (g t) = t_status t \<and>
     t_finished_at (g t) = t_finished_at t \<and> t_lease_owner (g t) = t_lease_owner t \<and>
     t_lease_expires_at (g t) = t_lease_expires_at t \<and> t_attempts (g t) = t_attempts t \<and>
     (fits_width 2000 (t_last_error t) \<longrightarrow> fits_width 2000 (t_last_error (g t))))"

lemma integrity_update_row:
  assumes "integrity_but S s" and "keeps_task g"
  shows "integrity_but S (s\<lparr>tasks := update_row t_id k g (tasks s)\<rparr>)"
  using assms unfolding integrity_defs keeps_task_def task_ok_def history_def attempt_numbers_def
  by (auto simp: table_simps set_update_row split: if_splits)

lemma assign_simps [db_simps]:
  "fst (assign f (obj, s)) = (f obj)\<lparr>t_updated_at := db_now s\<rparr>"
  "snd (assign f (obj, s)) =
     s\<lparr>tasks := update_row t_id (t_id obj) (\<lambda>t. (f t)\<lparr>t_updated_at := db_now s\<rparr>) (tasks s)\<rparr>"
  by (simp_all add: assign_def Let_def)

lemma integrity_assign:
  assumes "integrity_but S s" and "keeps_task f"
  shows "integrity_but S (snd (assign f (obj, s)))"
  unfolding db_simps
  by (rule integrity_update_row [OF assms(1)]) (use assms(2) in \<open>simp add: keeps_task_def\<close>)

lemma integrity_record_event:
  assumes "integrity_but S s" and row: "get_task_row (t_id obj) s = Some row" "t_status row = t_status obj"
    and "ev \<in> set TASK_EVENT_TYPES"
  shows "integrity_but S (record_event obj ev (t_status obj) m s)"
proof -
  have id: "row \<in> set (tasks s)" "t_id row = t_id obj" using get_task_row_SomeD [OF row(1)] by simp_all
  then have "t_id obj < seq_task s" using assms(1) by (auto simp: integrity_defs)
  moreover have "t_status t = t_status obj" if "t \<in> set (tasks s)" "t_id t = t_id obj" for t
    using integrity_get_task [OF assms(1) that(1)] that(2) row by simp
  ultimately show ?thesis
    using assms(1,4) by (auto simp: integrity_defs history_def attempt_numbers_def chain_append record_event_def)
qed

text \<open>
  A status change that is allowed returns, whatever the dependency graph is; the object it
  returns is the one its own assignments give.
\<close>

lemma set_status_Ok_obj:
  "can_transition (t_status obj) new \<Longrightarrow> set_status cfg obj new ev m s = Ok obj' s' \<Longrightarrow>
   obj' = fst (local_transition obj new ev m s)"
  by (auto simp: set_status_step bind_o_Ok_iff split: prod.splits)

lemma set_status_returns:
  assumes "distinct (map t_id (tasks s))" "\<And>p. distinct (children_of p s)"
    and "can_transition (t_status obj) new"
  obtains s' where "set_status cfg obj new ev m s = Ok (fst (local_transition obj new ev m s)) s'"
proof -
  have "\<exists>obj' s'. set_status cfg obj new ev m s = Ok obj' s'"
  proof (cases "new \<in> set TERMINAL")
    case False
    then show ?thesis by (simp add: set_status_nonterminal assms(3) Let_def split: prod.split)
  next
    case True
    show ?thesis
    proof (cases "new = Success")
      case True
      then have "t_status obj = Running"
        using assms(3) by (cases "t_status obj") (auto simp: can_transition_def)
      then show ?thesis
        using set_status_success [OF _ assms(1,2)] True by metis
    next
      case False
      then show ?thesis using set_status_cancels [OF assms(3) True] by metis
    qed
  qed
  then show ?thesis using set_status_Ok_obj [OF assms(3)] that by metis
qed

section \<open>What a status change never touches\<close>

interpretation frame_cascade: cascade_invariant cfg
  "\<lambda>s. attempts s = A \<and> dependencies s = D \<and> subscriptions s = S \<and> batches s = B \<and>
       workers s = W \<and> seq_task s = n \<and> seq_attempt s = n' \<and> clock s = c \<and> db_now s = now"
  for cfg A D S B W n n' c now
  by unfold_locales (simp_all add: db_simps)

interpretation outbox_grows: cascade_invariant cfg "\<lambda>s. \<exists>more. outbox s = O' @ more" for cfg O'
  by unfold_locales (auto simp: db_simps outbox_add_outbox)

interpretation events_grow: cascade_invariant cfg "\<lambda>s. \<exists>more. events s = E @ more" for cfg E
  by unfold_locales (auto simp: db_simps)

interpretation not_created_stable: cascade_invariant cfg
  "\<lambda>s. get_task_row j s = Some row \<and> t_status row \<noteq> Created" for cfg j row
  by unfold_locales (auto simp: db_simps blocked_row_def)

lemma set_status_final:
  assumes "can_transition (t_status obj) new"
    and "P (final_state (after_status_change cfg (set_status_fuel cfg
            (created_count (snd (local_transition obj new ev m s))))
          (fst (local_transition obj new ev m s)) ev new (snd (local_transition obj new ev m s))))"
  shows "P (final_state (set_status cfg obj new ev m s))"
  using assms(2)
  by (cases "after_status_change cfg (set_status_fuel cfg
            (created_count (snd (local_transition obj new ev m s))))
          (fst (local_transition obj new ev m s)) ev new (snd (local_transition obj new ev m s))")
    (simp_all add: set_status_step [OF assms(1)] after_status_change_set_status [OF order_refl] case_prod_beta)

lemma set_status_frame:
  defines "s' \<equiv> \<lambda>cfg obj new ev m s. final_state (set_status cfg obj new ev m s)"
  shows "attempts (s' cfg obj new ev m s) = attempts s"
    and "dependencies (s' cfg obj new ev m s) = dependencies s"
    and "subscriptions (s' cfg obj new ev m s) = subscriptions s"
    and "batches (s' cfg obj new ev m s) = batches s"
    and "workers (s' cfg obj new ev m s) = workers s"
    and "seq_task (s' cfg obj new ev m s) = seq_task s"
    and "seq_attempt (s' cfg obj new ev m s) = seq_attempt s"
    and "clock (s' cfg obj new ev m s) = clock s"
    and "db_now (s' cfg obj new ev m s) = db_now s"
proof -
  have "attempts (s' cfg obj new ev m s) = attempts s \<and> dependencies (s' cfg obj new ev m s) = dependencies s \<and>
    subscriptions (s' cfg obj new ev m s) = subscriptions s \<and> batches (s' cfg obj new ev m s) = batches s \<and>
    workers (s' cfg obj new ev m s) = workers s \<and> seq_task (s' cfg obj new ev m s) = seq_task s \<and>
    seq_attempt (s' cfg obj new ev m s) = seq_attempt s \<and> clock (s' cfg obj new ev m s) = clock s \<and>
    db_now (s' cfg obj new ev m s) = db_now s"
  proof (cases "can_transition (t_status obj) new")
    case True
    show ?thesis unfolding s'_def
      by (rule set_status_final [OF True], rule frame_cascade.after_fuel) (simp add: db_simps)
  next
    case False
    then show ?thesis by (simp add: s'_def set_status_not_allowed)
  qed
  then show "attempts (s' cfg obj new ev m s) = attempts s"
    and "dependencies (s' cfg obj new ev m s) = dependencies s"
    and "subscriptions (s' cfg obj new ev m s) = subscriptions s"
    and "batches (s' cfg obj new ev m s) = batches s"
    and "workers (s' cfg obj new ev m s) = workers s"
    and "seq_task (s' cfg obj new ev m s) = seq_task s"
    and "seq_attempt (s' cfg obj new ev m s) = seq_attempt s"
    and "clock (s' cfg obj new ev m s) = clock s"
    and "db_now (s' cfg obj new ev m s) = db_now s" by simp_all
qed

text \<open>The row of the task itself after the whole cascade is what its own assignments made it.\<close>

lemma set_status_own_row:
  assumes "can_transition (t_status obj) new" and "get_task_row (t_id obj) s = Some row"
  shows "get_task_row (t_id obj) (final_state (set_status cfg obj new ev m s)) =
     Some (status_assignments obj new (transition_time obj new s) (db_now s) row)"
proof -
  let ?row = "status_assignments obj new (transition_time obj new s) (db_now s) row"
  have "get_task_row (t_id obj) (final_state (set_status cfg obj new ev m s)) = Some ?row \<and> t_status ?row \<noteq> Created"
    by (rule set_status_final [OF assms(1)], rule not_created_stable.after_fuel)
      (use assms can_transition_not_Created [OF assms(1)] in \<open>simp add: db_simps\<close>)
  then show ?thesis by simp
qed

lemma set_status_outbox_grows:
  "\<exists>more. outbox (final_state (set_status cfg obj new ev m s)) = outbox s @ more"
proof (cases "can_transition (t_status obj) new")
  case True
  show ?thesis
    by (rule set_status_final [OF True], rule outbox_grows.after_fuel) (simp add: db_simps)
qed (simp add: set_status_not_allowed)

lemma set_status_raises:
  assumes "integrity s"
  shows "raised (set_status cfg obj new ev m s) =
    (if t_status obj = new \<or> can_transition (t_status obj) new then None
     else Some (InvalidTransitionError (t_status obj) new (t_id obj)))"
proof (cases "can_transition (t_status obj) new")
  case True
  obtain s' where "set_status cfg obj new ev m s = Ok (fst (local_transition obj new ev m s)) s'"
    using set_status_returns [OF integrity_distinct [OF assms] integrity_distinct_children [OF assms] True] by blast
  then show ?thesis using True by simp
qed (simp add: set_status_def set_status_body_def)

end
