(* ===== verification/Dependencies.thy ===== *)
theory Dependencies
  imports Integrity
begin

text \<open>
  The registration of dependencies (\<open>app/services/dependencies.py\<close>): the parents must exist
  and no ancestor of theirs may be the task itself, which a depth-first walk up the
  dependency rows checks. The advancement of children is in \<open>Task_State\<close>.
\<close>

section \<open>The walk up the dependency chain\<close>

definition parents_in :: "dependency list \<Rightarrow> int \<Rightarrow> int list" where
  "parents_in deps c = map d_parent (filter (\<lambda>d. d_child d = c) deps)"

text \<open>
  One call is one iteration of the loop: \<open>queue.pop()\<close> takes the last element; the result is
  whether the loop ends without raising.
\<close>

function no_cycle_loop :: "dependency list \<Rightarrow> int \<Rightarrow> int list \<Rightarrow> int list \<Rightarrow> bool" where
  "no_cycle_loop deps task_id seen queue =
     (if queue = [] then True
      else let current = last queue; queue = butlast queue in
        if current = task_id then False
        else if current \<in> set seen then no_cycle_loop deps task_id seen queue
        else let parents = parents_in deps current in
          if task_id \<in> set parents then False
          else no_cycle_loop deps task_id (current # seen) (queue @ parents))"
  by pat_completeness auto

lemma parents_in_empty: "c \<notin> d_child ` set deps \<Longrightarrow> parents_in deps c = []"
  by (auto simp: parents_in_def filter_empty_conv)

termination no_cycle_loop
proof (relation "measures [\<lambda>(deps, t, seen, q). card (d_child ` set deps - set seen), \<lambda>(deps, t, seen, q). length q]",
    goal_cases)
  case 1
  then show ?case by simp
next
  case (2 deps t seen q)
  then show ?case by simp
next
  case (3 deps t seen q current q' ps)
  show ?case
  proof (cases "current \<in> d_child ` set deps")
    case True
    then have "card (d_child ` set deps - insert current (set seen)) < card (d_child ` set deps - set seen)"
      using 3 by (intro psubset_card_mono) auto
    then show ?thesis using 3 by simp
  next
    case False
    then have "d_child ` set deps - insert current (set seen) = d_child ` set deps - set seen" by auto
    then show ?thesis using 3 False parents_in_empty [OF False] by simp
  qed
qed

declare no_cycle_loop.simps [simp del]

definition ensure_no_cycle :: "int \<Rightarrow> int list \<Rightarrow> db \<Rightarrow> unit result" where
  "ensure_no_cycle task_id parent_ids s =
     (if no_cycle_loop (dependencies s) task_id [] parent_ids then Ok () s
      else Raise (TaskConflictError CycleDetected) s)"

definition dedup :: "'a list \<Rightarrow> 'a list" where
  \<comment> \<open>\<open>list(dict.fromkeys(xs))\<close>: the first occurrence of each element, in order\<close>
  "dedup xs = rev (remdups (rev xs))"

definition register_dependencies :: "int \<Rightarrow> int list \<Rightarrow> db \<Rightarrow> unit result" where
  "register_dependencies task_id depends_on s =
     (let parent_ids = dedup depends_on in
      if task_id \<in> set parent_ids then Raise (TaskConflictError SelfDependency) s
      else
        let existing = map t_id (filter (\<lambda>t. t_id t \<in> set parent_ids) (tasks s));
            missing = filter (\<lambda>pid. pid \<notin> set existing) parent_ids in
        if missing \<noteq> [] then Raise (TaskConflictError (MissingParents missing)) s
        else bind_o (ensure_no_cycle task_id parent_ids s)
          (\<lambda>_ s. Ok () (s\<lparr>dependencies := dependencies s @
                          map (\<lambda>pid. \<lparr>d_parent = pid, d_child = task_id\<rparr>) parent_ids\<rparr>)))"

section \<open>Correctness of the walk\<close>

definition parent_rel :: "dependency list \<Rightarrow> (int \<times> int) set" where
  "parent_rel deps = {(c, p). \<exists>d\<in>set deps. d_child d = c \<and> d_parent d = p}"

definition ancestors :: "dependency list \<Rightarrow> int list \<Rightarrow> int set" where
  "ancestors deps queue = (parent_rel deps)\<^sup>* `` set queue"

lemma set_parents_in: "set (parents_in deps c) = parent_rel deps `` {c}"
  by (auto simp: parents_in_def parent_rel_def)

lemma ancestors_Nil [simp]: "ancestors deps [] = {}"
  by (simp add: ancestors_def)

lemma ancestors_append: "ancestors deps (xs @ ys) = ancestors deps xs \<union> ancestors deps ys"
  by (auto simp: ancestors_def)

lemma ancestors_single: "ancestors deps [c] = insert c (ancestors deps (parents_in deps c))"
  unfolding ancestors_def set_parents_in
  by (auto elim: converse_rtranclE intro: converse_rtrancl_into_rtrancl)

lemma ancestors_pop: "queue \<noteq> [] \<Longrightarrow>
    ancestors deps queue = ancestors deps (butlast queue) \<union> ancestors deps [last queue]"
  using ancestors_append [of deps "butlast queue" "[last queue]"] by simp

definition walk_inv :: "dependency list \<Rightarrow> int \<Rightarrow> int list \<Rightarrow> int list \<Rightarrow> bool" where
  "walk_inv deps task_id seen queue \<longleftrightarrow>
     task_id \<notin> set seen \<and>
     (\<forall>c\<in>set seen. set (parents_in deps c) \<subseteq> set seen \<union> set queue)"

lemma walk_inv_seen:
  assumes "walk_inv deps task_id seen queue" and "c \<in> set seen" and "(c, a) \<in> (parent_rel deps)\<^sup>*"
  shows "a \<in> set seen \<or> a \<in> ancestors deps queue"
  using assms(3,2)
proof (induction rule: converse_rtrancl_induct)
  case (step b c)
  then have "c \<in> set seen \<or> c \<in> set queue"
    using assms(1) by (auto simp: walk_inv_def set_parents_in)
  then show ?case using step by (auto simp: ancestors_def)
qed simp

lemma no_cycle_loop_correct:
  "walk_inv deps task_id seen queue \<Longrightarrow>
   no_cycle_loop deps task_id seen queue \<longleftrightarrow> task_id \<notin> ancestors deps queue"
proof (induction deps task_id seen queue rule: no_cycle_loop.induct)
  case (1 deps task_id seen queue)
  let ?c = "last queue" and ?q = "butlast queue"
  show ?case
  proof (cases "queue = []")
    case True
    then show ?thesis by (subst no_cycle_loop.simps) simp
  next
    case nonempty: False
    have queue: "set queue = insert ?c (set ?q)"
      using append_butlast_last_id [OF nonempty] by (metis insert_def list.set(2) rotate1.simps(2) set_rotate1)
    consider (self) "?c = task_id" | (again) "?c \<noteq> task_id" "?c \<in> set seen"
      | (fresh) "?c \<noteq> task_id" "?c \<notin> set seen" by blast
    then show ?thesis
    proof cases
      case self
      then show ?thesis
        using nonempty by (simp add: no_cycle_loop.simps [of deps task_id seen queue]
            ancestors_pop ancestors_single)
    next
      case again
      have inv: "walk_inv deps task_id seen ?q"
        using "1.prems" again queue by (auto simp: walk_inv_def)
      have "task_id \<in> ancestors deps [?c] \<Longrightarrow> task_id \<in> ancestors deps ?q"
        using walk_inv_seen [OF inv again(2), of task_id] inv
        by (auto simp: ancestors_def walk_inv_def)
      then have "task_id \<in> ancestors deps queue \<longleftrightarrow> task_id \<in> ancestors deps ?q"
        unfolding ancestors_pop [OF nonempty] by blast
      moreover have "no_cycle_loop deps task_id seen queue = no_cycle_loop deps task_id seen ?q"
        using nonempty again by (subst no_cycle_loop.simps) simp
      ultimately show ?thesis
        using "1.IH"(1) [OF nonempty refl refl again(1,2) inv] by simp
    next
      case fresh
      let ?ps = "parents_in deps ?c"
      show ?thesis
      proof (cases "task_id \<in> set ?ps")
        case True
        have "set ?ps \<subseteq> ancestors deps ?ps" by (auto simp: ancestors_def)
        then have "task_id \<in> ancestors deps queue"
          unfolding ancestors_pop [OF nonempty] ancestors_single [of _ ?c] using True by blast
        moreover have "\<not> no_cycle_loop deps task_id seen queue"
          using nonempty fresh True by (subst no_cycle_loop.simps) simp
        ultimately show ?thesis by simp
      next
        case False
        have inv: "walk_inv deps task_id (?c # seen) (?q @ ?ps)"
          using "1.prems" fresh queue by (auto simp: walk_inv_def)
        have "task_id \<in> ancestors deps queue \<longleftrightarrow> task_id \<in> ancestors deps (?q @ ?ps)"
          unfolding ancestors_pop [OF nonempty] ancestors_append ancestors_single [of _ ?c]
          using fresh(1) by blast
        moreover have "no_cycle_loop deps task_id seen queue =
            no_cycle_loop deps task_id (?c # seen) (?q @ ?ps)"
          using nonempty fresh False by (subst no_cycle_loop.simps) (simp add: Let_def)
        ultimately show ?thesis
          using "1.IH"(2) [OF nonempty refl refl fresh refl False inv] by simp
      qed
    qed
  qed
qed

lemma ensure_no_cycle_iff:
  "raised (ensure_no_cycle task_id parent_ids s) = None \<longleftrightarrow>
   task_id \<notin> ancestors (dependencies s) parent_ids"
  using no_cycle_loop_correct [of "dependencies s" task_id "[]" parent_ids]
  by (simp add: ensure_no_cycle_def walk_inv_def)

section \<open>Registration\<close>

lemma set_dedup [simp]: "set (dedup xs) = set xs"
  by (simp add: dedup_def)

lemma distinct_dedup [simp]: "distinct (dedup xs)"
  by (simp add: dedup_def)

lemma register_dependencies_cases:
  obtains (ok) "register_dependencies task_id depends_on s =
       Ok () (s\<lparr>dependencies := dependencies s @
                map (\<lambda>pid. \<lparr>d_parent = pid, d_child = task_id\<rparr>) (dedup depends_on)\<rparr>)"
      "set depends_on \<subseteq> t_id ` set (tasks s)" "task_id \<notin> set depends_on"
      "task_id \<notin> ancestors (dependencies s) (dedup depends_on)"
  | (conflict) c where "register_dependencies task_id depends_on s = Raise (TaskConflictError c) s"
proof (cases "register_dependencies task_id depends_on s")
  case (Raise e s')
  then show ?thesis
    using conflict by (auto simp: register_dependencies_def ensure_no_cycle_def Let_def split: if_splits)
next
  case (Ok x s')
  then have "task_id \<notin> set depends_on" "filter (\<lambda>pid. pid \<notin> t_id ` {t \<in> set (tasks s). t_id t \<in> set depends_on}) (dedup depends_on) = []"
    "no_cycle_loop (dependencies s) task_id [] (dedup depends_on)"
    by (auto simp: register_dependencies_def ensure_no_cycle_def Let_def split: if_splits)
  then show ?thesis
    using ok Ok no_cycle_loop_correct [of "dependencies s" task_id "[]" "dedup depends_on"]
    by (auto simp: register_dependencies_def ensure_no_cycle_def Let_def walk_inv_def filter_empty_conv
        split: if_splits)
qed

end
