(* ===== verification/Listing.thy ===== *)
theory Listing
  imports Prelude
begin

text \<open>
  Pages of a table (\<open>ORDER BY key DESC LIMIT l OFFSET o\<close>) and the contract every listing of the
  platform shares with its count: a locale that the components interpret on their own listings.
  Also the decimal text of numbers, as f-strings and \<open>str\<close> give it.
\<close>

section \<open>Pages\<close>

definition page :: "('r \<Rightarrow> int) \<Rightarrow> nat \<Rightarrow> nat \<Rightarrow> 'r list \<Rightarrow> 'r list" where
  "page key limit offset rows = take limit (drop offset (rev (sort_key key rows)))"

lemma length_page [simp]: "length (page key limit offset rows) = min limit (length rows - offset)"
  by (simp add: page_def)

lemma set_page: "set (page key limit offset rows) \<subseteq> set rows"
  unfolding page_def by (metis set_drop_subset set_take_subset set_rev set_sort subset_trans)

lemma page_append:
  "page key l1 offset rows @ page key l2 (offset + l1) rows = page key (l1 + l2) offset rows"
  by (simp add: page_def take_add add.commute)

lemma page_all: "length rows \<le> limit \<Longrightarrow> mset (page key limit 0 rows) = mset rows"
  by (simp add: page_def)

lemma sorted_page: "sorted_wrt (\<lambda>a b. key b \<le> key a) (page key limit offset rows)"
proof -
  have "sorted_wrt (\<lambda>a b. key a \<le> key b) (sort_key key rows)"
    using sorted_sort_key [of key rows] by (simp add: sorted_map)
  then have "sorted_wrt (\<lambda>a b. key b \<le> key a) (rev (sort_key key rows))"
    by (simp add: sorted_wrt_rev)
  then show ?thesis by (simp add: page_def sorted_wrt_take sorted_wrt_drop)
qed

text \<open>What a client reads that asks for \<open>n\<close> pages of \<open>limit\<close> rows, one after the other.\<close>

fun read_pages :: "(nat \<Rightarrow> nat \<Rightarrow> 's \<Rightarrow> 'r list) \<Rightarrow> nat \<Rightarrow> nat \<Rightarrow> 's \<Rightarrow> 'r list" where
  "read_pages listing limit 0 s = []"
| "read_pages listing limit (Suc n) s = read_pages listing limit n s @ listing limit (n * limit) s"

locale paged_listing =
  fixes listing :: "nat \<Rightarrow> nat \<Rightarrow> 's \<Rightarrow> 'r list" and total :: "'s \<Rightarrow> nat"
    and matching :: "'s \<Rightarrow> 'r list" and key :: "'r \<Rightarrow> int"
  assumes listing: "listing limit offset s = page key limit offset (matching s)"
    and total: "total s = length (matching s)"
begin

lemma read_pages_eq: "read_pages listing limit n s = page key (n * limit) 0 (matching s)"
proof (induction n)
  case 0
  then show ?case by (simp add: page_def)
next
  case (Suc n)
  then show ?case
    using page_append [of key "n * limit" 0 "matching s" limit] listing [of limit "n * limit" s]
    by (simp add: add.commute)
qed

lemma read_pages_complete: "total s \<le> n * limit \<Longrightarrow> mset (read_pages listing limit n s) = mset (matching s)"
  unfolding read_pages_eq total by (rule page_all)

lemma listing_bounds: "length (listing limit offset s) = min limit (total s - offset)"
  unfolding listing total by simp

lemma listing_sorted: "sorted_wrt (\<lambda>a b. key b \<le> key a) (listing limit offset s)"
  unfolding listing by (rule sorted_page)

lemma listing_matching: "r \<in> set (listing limit offset s) \<Longrightarrow> r \<in> set (matching s)"
  unfolding listing using set_page by fastforce

end

section \<open>Numbers as text\<close>

definition digit_char :: "nat \<Rightarrow> char" where
  "digit_char d = char_of (48 + d)"

fun show_nat :: "nat \<Rightarrow> string" where
  "show_nat n = (if n < 10 then [digit_char n] else show_nat (n div 10) @ [digit_char (n mod 10)])"

declare show_nat.simps [simp del]

definition show_int :: "int \<Rightarrow> string" where
  "show_int n = (if n < 0 then ''-'' @ show_nat (nat (- n)) else show_nat (nat n))"

fun read_nat :: "string \<Rightarrow> nat \<Rightarrow> nat option" where
  "read_nat [] acc = Some acc"
| "read_nat (c # cs) acc =
     (let d = (of_char c :: nat) in
      if 48 \<le> d \<and> d \<le> 57 then read_nat cs (acc * 10 + (d - 48)) else None)"

definition read_int :: "string \<Rightarrow> int option" where
  \<comment> \<open>\<open>int(text)\<close> on the texts \<open>str\<close> gives\<close>
  "read_int w =
     (case w of
        [] \<Rightarrow> None
      | c # cs \<Rightarrow>
          if c = CHR ''-'' then (if cs = [] then None else map_option (\<lambda>n. - int n) (read_nat cs 0))
          else map_option int (read_nat w 0))"

lemma read_nat_append:
  "read_nat (xs @ ys) acc = (case read_nat xs acc of None \<Rightarrow> None | Some a \<Rightarrow> read_nat ys a)"
  by (induction xs arbitrary: acc) (simp_all add: Let_def)

lemma of_char_digit: "d < 10 \<Longrightarrow> (of_char (digit_char d) :: nat) = 48 + d"
  by (simp add: digit_char_def)

lemma read_show_nat: "read_nat (show_nat n) 0 = Some n"
proof (induction n rule: show_nat.induct)
  case (1 n)
  then show ?case
    by (subst show_nat.simps) (auto simp: read_nat_append of_char_digit)
qed

lemma show_nat_nonempty: "show_nat n \<noteq> []"
  by (subst show_nat.simps) simp

lemma hd_show_nat: "hd (show_nat n) \<noteq> CHR ''-''"
proof (induction n rule: show_nat.induct)
  case (1 n)
  have "digit_char d \<noteq> CHR ''-''" if "d < 10" for d
  proof
    assume "digit_char d = CHR ''-''"
    then have "(of_char (digit_char d) :: nat) = of_char (CHR ''-'')" by simp
    then show False using that by (simp add: of_char_digit)
  qed
  then show ?case
    using 1 show_nat_nonempty [of "n div 10"] by (subst show_nat.simps) (auto simp: hd_append)
qed

lemma read_show_int: "read_int (show_int n) = Some n"
proof (cases "n < 0")
  case True
  then show ?thesis
    using show_nat_nonempty [of "nat (- n)"] by (simp add: read_int_def show_int_def read_show_nat)
next
  case False
  obtain c cs where w: "show_nat (nat n) = c # cs" using show_nat_nonempty by (metis list.exhaust)
  then have "c \<noteq> CHR ''-''" using hd_show_nat [of "nat n"] by simp
  then show ?thesis
    using False w read_show_nat [of "nat n"] by (simp add: read_int_def show_int_def)
qed

end
