(* ===== verification/Tasks.thy ===== *)
theory Tasks
  imports Dependencies Listing
begin

text \<open>
  The task operations of \<open>app/services/tasks.py\<close>: creation, lookups and listings, manual
  retry, cancellation and their bulk forms.
\<close>

section \<open>Creation\<close>

record task_spec =
  c_task_type :: string
  c_payload :: json
  c_priority :: task_priority
  c_max_attempts :: "int option"
  c_idempotency_key :: "string option"
  c_created_by :: "int option"
  c_schedule_at :: "time option"
  c_batch_id :: "int option"
  c_depends_on :: "int list option"

definition new_task :: "settings \<Rightarrow> task_spec \<Rightarrow> db \<Rightarrow> task" where
  "new_task cfg spec s =
     \<lparr>t_id = seq_task s, t_task_type = c_task_type spec, t_payload = c_payload spec,
      t_status = Created, t_priority = c_priority spec,
      t_max_attempts = (case c_max_attempts spec of Some n \<Rightarrow> n | None \<Rightarrow> task_max_attempts cfg),
      t_attempts = 0, t_idempotency_key = c_idempotency_key spec,
      t_scheduled_at = c_schedule_at spec, t_started_at = None, t_finished_at = None,
      t_lease_owner = None, t_lease_expires_at = None, t_result = None, t_last_error = None,
      t_created_by = c_created_by spec, t_batch_id = c_batch_id spec,
      t_dlq_requeue_count = 0, t_dlq_retry_at = None,
      t_created_at = db_now s, t_updated_at = db_now s\<rparr>"

text \<open>
  The insertion: the unique index on \<open>idempotency_key\<close> refuses a key a row already has
  (NULLs never clash) and the foreign key a batch that does not exist. The sequence has
  moved on in any case.
\<close>

definition insert_refused :: "task_spec \<Rightarrow> db \<Rightarrow> bool" where
  "insert_refused spec s \<longleftrightarrow>
     (case c_idempotency_key spec of None \<Rightarrow> False | Some k \<Rightarrow> Some k \<in> t_idempotency_key ` set (tasks s)) \<or>
     (case c_batch_id spec of None \<Rightarrow> False | Some b \<Rightarrow> b \<notin> b_id ` set (batches s))"

definition insert_task :: "settings \<Rightarrow> task_spec \<Rightarrow> db \<Rightarrow> task result" where
  "insert_task cfg spec s =
     (let t = new_task cfg spec s; s1 = s\<lparr>seq_task := seq_task s + 1\<rparr> in
      if insert_refused spec s then Raise IntegrityError s1
      else Ok t (s1\<lparr>tasks := tasks s @ [t]\<rparr>))"

definition enqueue_new :: "settings \<Rightarrow> task \<Rightarrow> db \<Rightarrow> task result" where
  "enqueue_new cfg t s =
     bind_o (set_status cfg t Queued ''task.queued'' None s)
       (\<lambda>t s. Ok t (add_outbox (routing_key_task_created cfg) (task_message t) s))"

text \<open>The creation after the row has its key and its first event.\<close>

definition create_rest :: "settings \<Rightarrow> task_spec \<Rightarrow> task \<Rightarrow> db \<Rightarrow> task result" where
  "create_rest cfg spec t s =
     (case c_depends_on spec of
        Some (p # ps) \<Rightarrow>
          bind_o (register_dependencies (t_id t) (p # ps) s) (\<lambda>_ s.
            Ok t (record_event t ''task.blocked'' Created
                    (Some (JObj [(''waiting_for'', JArr (map JInt (p # ps)))])) s))
      | _ \<Rightarrow>
        (case c_schedule_at spec of
           Some run_at \<Rightarrow>
             (case now_utc s of (now, s) \<Rightarrow>
                if run_at > now
                then (case assign (\<lambda>t. t\<lparr>t_scheduled_at := Some run_at\<rparr>) (t, s) of (t, s) \<Rightarrow>
                        set_status cfg t Scheduled ''task.scheduled'' None s)
                else enqueue_new cfg t s)
         | None \<Rightarrow> enqueue_new cfg t s))"

definition create_task :: "settings \<Rightarrow> task_spec \<Rightarrow> db \<Rightarrow> task result" where
  "create_task cfg spec s =
     bind_o (insert_task cfg spec s) (\<lambda>t s.
       create_rest cfg spec t (record_event t ''task.created'' Created None s))"

section \<open>Lookups and listings\<close>

definition get_task :: "db \<Rightarrow> int \<Rightarrow> task option" where
  "get_task s tid = get_task_row tid s"

definition get_by_idempotency_key :: "db \<Rightarrow> string \<Rightarrow> task option" where
  "get_by_idempotency_key s key = List.find (\<lambda>t. t_idempotency_key t = Some key) (tasks s)"

definition get_events :: "db \<Rightarrow> int \<Rightarrow> event list" where
  "get_events s tid = sort_key e_id (filter (\<lambda>e. e_task_id e = tid) (events s))"

record task_query =
  q_status :: "string option"
  q_task_type :: "string option"
  q_priority :: "string option"
  q_search :: "string option"
  q_created_from :: "time option"
  q_created_to :: "time option"
  q_batch_id :: "int option"
  q_created_by :: "int option"

text \<open>
  The conjunction of the filters. \<open>ilike pattern text\<close> is the server's operator; on a NULL
  column it is not true. An empty string is falsy and adds no filter.
\<close>

definition task_filters :: "(string \<Rightarrow> string \<Rightarrow> bool) \<Rightarrow> task_query \<Rightarrow> task \<Rightarrow> bool" where
  "task_filters ilike q t \<longleftrightarrow>
     (case q_status q of None \<Rightarrow> True | Some st \<Rightarrow> st = [] \<or> status_name (t_status t) = st) \<and>
     (case q_task_type q of None \<Rightarrow> True | Some ty \<Rightarrow> ty = [] \<or> t_task_type t = ty) \<and>
     (case q_priority q of None \<Rightarrow> True | Some p \<Rightarrow> p = [] \<or> priority_name (t_priority t) = p) \<and>
     (case q_search q of None \<Rightarrow> True | Some w \<Rightarrow> w = [] \<or>
        (let like = ''%'' @ w @ ''%'' in
         ilike like (t_task_type t) \<or>
         (case t_idempotency_key t of None \<Rightarrow> False | Some k \<Rightarrow> ilike like k) \<or>
         (case t_last_error t of None \<Rightarrow> False | Some e \<Rightarrow> ilike like e))) \<and>
     (case q_created_from q of None \<Rightarrow> True | Some a \<Rightarrow> a \<le> t_created_at t) \<and>
     (case q_created_to q of None \<Rightarrow> True | Some b \<Rightarrow> t_created_at t \<le> b) \<and>
     (case q_batch_id q of None \<Rightarrow> True | Some b \<Rightarrow> t_batch_id t = Some b) \<and>
     (case q_created_by q of None \<Rightarrow> True | Some u \<Rightarrow> t_created_by t = Some u)"

definition list_tasks ::
    "(string \<Rightarrow> string \<Rightarrow> bool) \<Rightarrow> task_query \<Rightarrow> nat \<Rightarrow> nat \<Rightarrow> db \<Rightarrow> task list" where
  "list_tasks ilike q limit offset s =
     page t_id limit offset (filter (task_filters ilike q) (tasks s))"

definition count_tasks :: "(string \<Rightarrow> string \<Rightarrow> bool) \<Rightarrow> task_query \<Rightarrow> db \<Rightarrow> nat" where
  "count_tasks ilike q s = length (filter (task_filters ilike q) (tasks s))"

interpretation task_listing: paged_listing "list_tasks ilike q" "count_tasks ilike q"
  "\<lambda>s. filter (task_filters ilike q) (tasks s)" t_id for ilike q
  by unfold_locales (simp_all add: list_tasks_def count_tasks_def)

section \<open>Manual retry and cancellation\<close>

definition manual_retry :: "settings \<Rightarrow> int \<Rightarrow> db \<Rightarrow> task option result" where
  "manual_retry cfg tid s =
     (case get_task s tid of
        None \<Rightarrow> Ok None s
      | Some task \<Rightarrow>
          if t_status task \<notin> set RETRYABLE
          then Raise (TaskConflictError (NotRetryable (t_status task))) s
          else bind_o (set_status cfg task Queued ''task.retried''
                  (Some (JObj [(''attempts_so_far'', JInt (t_attempts task))])) s)
                (\<lambda>task s. Ok (Some task)
                   (add_outbox (routing_key_task_created cfg) (reattempt_message task) s)))"

definition cancel_task :: "settings \<Rightarrow> int \<Rightarrow> db \<Rightarrow> task option result" where
  "cancel_task cfg tid s =
     (case get_task s tid of
        None \<Rightarrow> Ok None s
      | Some task \<Rightarrow>
          if t_status task \<notin> set CANCELABLE
          then Raise (TaskConflictError (NotCancelable (t_status task))) s
          else bind_o (set_status cfg task Cancelled ''task.cancelled'' None s)
                 (\<lambda>task s. Ok (Some task) s))"

section \<open>Bulk operations\<close>

text \<open>
  Each creation runs in a savepoint: an \<open>IntegrityError\<close> rolls it back and is recorded with
  its specification; any other exception rolls the savepoint back and propagates.
\<close>

fun bulk_create :: "settings \<Rightarrow> task_spec list \<Rightarrow> db \<Rightarrow> (task list \<times> task_spec list) result" where
  "bulk_create cfg [] s = Ok ([], []) s"
| "bulk_create cfg (spec # specs) s =
     (case create_task cfg spec s of
        Ok t s' \<Rightarrow>
          bind_o (bulk_create cfg specs s') (\<lambda>(created, conflicts) s. Ok (t # created, conflicts) s)
      | Raise IntegrityError s' \<Rightarrow>
          bind_o (bulk_create cfg specs (rollback_to s s'))
            (\<lambda>(created, conflicts) s. Ok (created, spec # conflicts) s)
      | Raise e s' \<Rightarrow> Raise e (rollback_to s s'))"

datatype bulk_reason = Conflict conflict | TaskNotFound

text \<open>
  The two loops over task ids differ in the operation only: a conflict is recorded and the
  loop goes on, a missing task is recorded too, any other exception propagates.
\<close>

fun bulk_loop ::
    "(int \<Rightarrow> db \<Rightarrow> task option result) \<Rightarrow> int list \<Rightarrow> db \<Rightarrow> (task list \<times> (int \<times> bulk_reason) list) result" where
  "bulk_loop operation [] s = Ok ([], []) s"
| "bulk_loop operation (task_id # task_ids) s =
     (case operation task_id s of
        Raise (TaskConflictError c) s' \<Rightarrow>
          bind_o (bulk_loop operation task_ids s')
            (\<lambda>(succeeded, conflicts) s. Ok (succeeded, (task_id, Conflict c) # conflicts) s)
      | Raise e s' \<Rightarrow> Raise e s'
      | Ok None s' \<Rightarrow>
          bind_o (bulk_loop operation task_ids s')
            (\<lambda>(succeeded, conflicts) s. Ok (succeeded, (task_id, TaskNotFound) # conflicts) s)
      | Ok (Some task) s' \<Rightarrow>
          bind_o (bulk_loop operation task_ids s')
            (\<lambda>(succeeded, conflicts) s. Ok (task # succeeded, conflicts) s))"

definition bulk_retry ::
    "settings \<Rightarrow> int list \<Rightarrow> db \<Rightarrow> (task list \<times> (int \<times> bulk_reason) list) result" where
  "bulk_retry cfg = bulk_loop (manual_retry cfg)"

definition bulk_cancel ::
    "settings \<Rightarrow> int list \<Rightarrow> db \<Rightarrow> (task list \<times> (int \<times> bulk_reason) list) result" where
  "bulk_cancel cfg = bulk_loop (cancel_task cfg)"

end
