(* ===== verification/Tasks_Correct.thy ===== *)
theory Tasks_Correct
  imports Tasks
begin

text \<open>
  The task operations keep the integrity of the database, whether they return or raise, and
  what each of them does on every branch.
\<close>

section \<open>Insertion and registration\<close>

lemma insert_task_cases:
  obtains (inserted) "\<not> insert_refused spec s" "insert_task cfg spec s = Ok (new_task cfg spec s)
       (s\<lparr>seq_task := seq_task s + 1, tasks := tasks s @ [new_task cfg spec s]\<rparr>)"
  | (refused) "insert_refused spec s" "insert_task cfg spec s = Raise IntegrityError (s\<lparr>seq_task := seq_task s + 1\<rparr>)"
  by (cases "insert_refused spec s") (simp_all add: insert_task_def Let_def)

lemma new_task_sel [simp]:
  "t_id (new_task cfg spec s) = seq_task s"
  "t_status (new_task cfg spec s) = Created"
  "t_attempts (new_task cfg spec s) = 0"
  "t_finished_at (new_task cfg spec s) = None"
  "t_last_error (new_task cfg spec s) = None"
  by (simp_all add: new_task_def)

lemma task_ok_new [simp]: "task_ok (new_task cfg spec s)"
  by (simp add: task_ok_def new_task_def)

lemma integrity_new_row:
  assumes "integrity s" and s'_def: "s' = s\<lparr>seq_task := seq_task s + 1, tasks := tasks s @ [new_task cfg spec s]\<rparr>"
  shows "integrity s'" and "get_task_row (seq_task s) s' = Some (new_task cfg spec s)"
proof -
  have fresh: "history (seq_task s) s = []" "attempt_numbers (seq_task s) s = []"
    using assms by (auto simp: integrity_defs history_def attempt_numbers_def filter_empty_conv)
  have same: "history j s' = history j s" "attempt_numbers j s' = attempt_numbers j s" for j
    by (simp_all add: s'_def history_def attempt_numbers_def)
  show "integrity s'"
    using assms(1) fresh unfolding integrity_defs same
    by (fastforce simp: s'_def)
  have "find_row t_id (seq_task s) (tasks s) = None"
    using assms(1) by (auto simp: find_row_None_iff integrity_defs)
  then show "get_task_row (seq_task s) s' = Some (new_task cfg spec s)"
    by (simp add: s'_def get_task_row_def find_row_append table_simps)
qed

lemma integrity_skip_id: "integrity s \<Longrightarrow> integrity (s\<lparr>seq_task := seq_task s + 1\<rparr>)"
  by (fastforce simp: integrity_defs history_def attempt_numbers_def)

lemma integrity_add_dependencies:
  assumes "integrity s" and "\<forall>d\<in>set (dependencies s). d_child d < tid" and "tid < seq_task s"
    and "distinct ps" and "\<forall>p\<in>set ps. p < tid"
  shows "integrity (s\<lparr>dependencies := dependencies s @ map (\<lambda>p. \<lparr>d_parent = p, d_child = tid\<rparr>) ps\<rparr>)"
  using assms by (fastforce simp: integrity_defs history_def attempt_numbers_def distinct_map inj_on_def)

lemma integrity_register:
  assumes "integrity s" and "\<forall>d\<in>set (dependencies s). d_child d < tid" and "seq_task s = tid + 1"
  shows "integrity (final_state (register_dependencies tid ps s))"
proof (cases rule: register_dependencies_cases [of tid ps s])
  case ok
  have "\<forall>p\<in>set (dedup ps). p < tid"
  proof
    fix p assume "p \<in> set (dedup ps)"
    then have "p \<in> t_id ` set (tasks s)" "p \<noteq> tid" using ok(2,3) by auto
    then show "p < tid" using assms(1,3) by (fastforce simp: integrity_defs)
  qed
  then show ?thesis
    using integrity_add_dependencies [OF assms(1,2) _ distinct_dedup] ok(1) assms(3) by simp
qed (simp add: assms(1))

section \<open>Creation\<close>

lemma integrity_enqueue_new:
  assumes "integrity s" "get_task_row tid s = Some t"
  shows "integrity (final_state (enqueue_new cfg t s))"
proof -
  have "integrity (final_state (set_status cfg t Queued ''task.queued'' None s))"
    by (rule integrity_set_status_row [OF assms]) (simp_all add: TASK_EVENT_TYPES_def)
  then show ?thesis
    by (cases "set_status cfg t Queued ''task.queued'' None s")
      (auto simp: enqueue_new_def integrity_add_outbox)
qed

lemma get_task_row_record_event [db_simps]:
  "get_task_row j (record_event obj ev new m s) = get_task_row j s"
  by (simp add: get_task_row_def db_simps)

lemma integrity_log_row:
  assumes "integrity s" "get_task_row (t_id t) s = Some t" "t_status t = st" "ev \<in> set TASK_EVENT_TYPES"
  shows "integrity (record_event t ev st m s)"
  using integrity_record_event [OF assms(1,2) refl assms(4)] assms(3) by simp

lemma get_task_row_assign:
  assumes "get_task_row (t_id obj) s = Some obj" and "\<And>t. t_id (f t) = t_id t"
  shows "get_task_row (t_id obj) (snd (assign f (obj, s))) = Some (fst (assign f (obj, s)))"
  using assms by (simp add: get_task_row_def db_simps table_simps)

lemma integrity_create_rest:
  assumes "integrity s" "get_task_row (t_id t) s = Some t" "t_status t = Created"
    and "\<forall>d\<in>set (dependencies s). d_child d < t_id t" "seq_task s = t_id t + 1"
  shows "integrity (final_state (create_rest cfg spec t s))"
proof (cases "c_depends_on spec = None \<or> c_depends_on spec = Some []")
  case False
  then obtain p ps where deps: "c_depends_on spec = Some (p # ps)"
    by (metis list.exhaust option.exhaust)
  have I: "integrity (final_state (register_dependencies (t_id t) (p # ps) s))"
    by (rule integrity_register [OF assms(1,4,5)])
  show ?thesis
  proof (cases "register_dependencies (t_id t) (p # ps) s")
    case (Ok x s')
    then have "get_task_row (t_id t) s' = Some t"
      using assms(2) by (cases rule: register_dependencies_cases [of "t_id t" "p # ps" s])
        (auto simp: get_task_row_def)
    then show ?thesis
      using I Ok deps assms(3) by (simp add: create_rest_def integrity_log_row TASK_EVENT_TYPES_def)
  qed (use I deps in \<open>simp add: create_rest_def\<close>)
next
  case True
  show ?thesis
  proof (cases "c_schedule_at spec")
    case None
    then show ?thesis using True integrity_enqueue_new [OF assms(1,2)] by (auto simp: create_rest_def)
  next
    case (Some run_at)
    let ?s = "snd (now_utc s)" and ?f = "\<lambda>t. t\<lparr>t_scheduled_at := Some run_at\<rparr>"
    have I: "integrity ?s" and row: "get_task_row (t_id t) ?s = Some t"
      using assms(1,2) integrity_now_utc [OF assms(1)] by (simp_all add: now_utc_def get_task_row_def)
    have J: "integrity (snd (assign ?f (t, ?s)))"
      by (rule integrity_assign [OF I]) (simp add: keeps_task_def)
    have "integrity (final_state (set_status cfg (fst (assign ?f (t, ?s))) Scheduled ''task.scheduled'' None
        (snd (assign ?f (t, ?s)))))"
      by (rule integrity_set_status_row [OF J get_task_row_assign [OF row]])
        (simp_all add: TASK_EVENT_TYPES_def)
    then show ?thesis
      using Some True integrity_enqueue_new [OF I row]
      by (auto simp: create_rest_def case_prod_beta Let_def)
  qed
qed

lemma integrity_create_task:
  assumes "integrity s"
  shows "integrity (final_state (create_task cfg spec s))"
proof (cases rule: insert_task_cases [of spec s cfg])
  case inserted
  let ?t = "new_task cfg spec s"
  let ?s = "s\<lparr>seq_task := seq_task s + 1, tasks := tasks s @ [?t]\<rparr>"
  have I: "integrity ?s" and row: "get_task_row (t_id ?t) ?s = Some ?t"
    using integrity_new_row [OF assms refl] by simp_all
  have "integrity (record_event ?t ''task.created'' Created None ?s)"
    by (rule integrity_log_row [OF I row]) (simp_all add: TASK_EVENT_TYPES_def)
  then have "integrity (final_state (create_rest cfg spec ?t (record_event ?t ''task.created'' Created None ?s)))"
    using assms row by (intro integrity_create_rest) (auto simp: db_simps integrity_defs)
  then show ?thesis using inserted by (simp add: create_task_def)
qed (simp add: create_task_def integrity_skip_id assms)

section \<open>Manual retry and cancellation\<close>

lemma integrity_manual_retry:
  assumes "integrity s"
  shows "integrity (final_state (manual_retry cfg tid s))"
proof (cases "get_task s tid")
  case (Some t)
  let ?r = "set_status cfg t Queued ''task.retried'' (Some (JObj [(''attempts_so_far'', JInt (t_attempts t))])) s"
  have "integrity (final_state ?r)"
    by (rule integrity_set_status_row [OF assms])
      (use Some in \<open>simp_all add: get_task_def TASK_EVENT_TYPES_def\<close>)
  then show ?thesis
    using Some assms by (cases ?r) (auto simp: manual_retry_def integrity_add_outbox)
qed (simp add: manual_retry_def assms)

lemma integrity_cancel_task:
  assumes "integrity s"
  shows "integrity (final_state (cancel_task cfg tid s))"
proof (cases "get_task s tid")
  case (Some t)
  let ?r = "set_status cfg t Cancelled ''task.cancelled'' None s"
  have "integrity (final_state ?r)"
    by (rule integrity_set_status_row [OF assms])
      (use Some in \<open>simp_all add: get_task_def TASK_EVENT_TYPES_def\<close>)
  then show ?thesis
    using Some assms by (cases ?r) (auto simp: cancel_task_def)
qed (simp add: cancel_task_def assms)

lemma bulk_loop_invariant:
  assumes "\<And>tid s. I s \<Longrightarrow> I (final_state (operation tid s))"
  shows "I s \<Longrightarrow> I (final_state (bulk_loop operation ids s))"
proof (induction ids arbitrary: s)
  case (Cons tid ids)
  have one: "I (final_state (operation tid s))" by (rule assms [OF Cons.prems])
  have rest: "I (final_state (bind_o (bulk_loop operation ids s') f))"
    if "I s'" "\<And>x s'. final_state (f x s') = s'" for s' and f :: "_ \<Rightarrow> db \<Rightarrow> (task list \<times> (int \<times> bulk_reason) list) result"
    using Cons.IH [OF that(1)] that(2) by (cases "bulk_loop operation ids s'") auto
  show ?case
    using one by (auto intro!: rest split: outcome.split error.split option.split)
qed simp

section \<open>Sequences only grow, so a rollback keeps the integrity\<close>

definition later :: "db \<Rightarrow> db \<Rightarrow> bool" where
  "later s s' \<longleftrightarrow> seq_task s \<le> seq_task s' \<and> seq_attempt s \<le> seq_attempt s'"

lemma later_refl [simp]: "later s s"
  by (simp add: later_def)

lemma later_trans: "later s s1 \<Longrightarrow> later s1 s2 \<Longrightarrow> later s s2"
  by (simp add: later_def)

lemma later_set_status: "later s (final_state (set_status cfg obj new ev m s))"
  by (simp add: later_def set_status_frame)

lemma later_frame: "seq_task s' = seq_task s \<Longrightarrow> seq_attempt s' = seq_attempt s \<Longrightarrow> later s s'"
  by (simp add: later_def)

lemma later_bind:
  assumes "later s (final_state m)" and "\<And>x s'. m = Ok x s' \<Longrightarrow> later s' (final_state (f x s'))"
  shows "later s (final_state (bind_o m f))"
  using assms by (cases m) (auto intro: later_trans)

lemma integrity_rollback: "integrity s \<Longrightarrow> later s s' \<Longrightarrow> integrity (rollback_to s s')"
  by (fastforce simp: later_def rollback_to_def integrity_defs history_def attempt_numbers_def)

lemma later_enqueue_new: "later s (final_state (enqueue_new cfg t s))"
  unfolding enqueue_new_def
  by (rule later_bind [OF later_set_status]) (simp add: later_def db_simps)

lemma later_register: "later s (final_state (register_dependencies tid ps s))"
  by (cases rule: register_dependencies_cases [of tid ps s]) (simp_all add: later_def)

lemma later_create_rest: "later s (final_state (create_rest cfg spec t s))"
proof -
  have "later s (final_state (case now_utc s of (now, s) \<Rightarrow>
      if run_at > now
      then (case assign (\<lambda>t. t\<lparr>t_scheduled_at := Some run_at\<rparr>) (t, s) of (t, s) \<Rightarrow>
              set_status cfg t Scheduled ''task.scheduled'' None s)
      else enqueue_new cfg t s))" for run_at
    using later_enqueue_new [of "snd (now_utc s)" cfg t]
    by (auto simp: case_prod_beta db_simps later_def set_status_frame)
  moreover have "later s (final_state (bind_o (register_dependencies (t_id t) ps s) (\<lambda>_ s.
      Ok t (record_event t ''task.blocked'' Created m s))))" for ps m
    by (rule later_bind [OF later_register]) (simp add: later_def db_simps)
  ultimately show ?thesis
    by (simp add: create_rest_def later_enqueue_new split: option.split list.split)
qed

lemma later_create_task: "later s (final_state (create_task cfg spec s))"
proof (cases rule: insert_task_cases [of spec s cfg])
  case inserted
  show ?thesis
    unfolding create_task_def
    by (rule later_bind) (simp add: inserted later_def,
        rule later_trans [OF _ later_create_rest], simp add: later_def db_simps)
qed (simp add: create_task_def later_def)

lemma integrity_bulk_create: "integrity s \<Longrightarrow> integrity (final_state (bulk_create cfg specs s))"
proof (induction specs arbitrary: s)
  case (Cons spec specs)
  have I: "integrity (final_state (create_task cfg spec s))"
    and J: "integrity (rollback_to s (final_state (create_task cfg spec s)))"
    using integrity_create_task [OF Cons.prems] integrity_rollback [OF Cons.prems later_create_task] by simp_all
  have rest: "integrity (final_state (bind_o (bulk_create cfg specs s') f))"
    if "integrity s'" "\<And>x s'. final_state (f x s') = s'"
    for s' and f :: "_ \<Rightarrow> db \<Rightarrow> (task list \<times> task_spec list) result"
    using Cons.IH [OF that(1)] that(2) by (cases "bulk_create cfg specs s'") auto
  show ?case
  proof (cases "create_task cfg spec s")
    case (Ok t s')
    then show ?thesis using I by (auto intro!: rest)
  next
    case (Raise e s')
    then show ?thesis using J by (cases e) (auto intro!: rest)
  qed
qed simp

section \<open>The effect of a status change that is not terminal\<close>

lemma set_status_effect:
  assumes "can_transition (t_status obj) new" "new \<notin> set TERMINAL" "get_task_row (t_id obj) s = Some row"
  obtains s' where "set_status cfg obj new ev m s = Ok (fst (local_transition obj new ev m s)) s'"
    and "\<And>j. get_task_row j s' =
      (if j = t_id obj then Some (status_assignments obj new (transition_time obj new s) (db_now s) row)
       else get_task_row j s)"
    and "outbox s' = outbox s" "dependencies s' = dependencies s"
    and "attempts s' = attempts s" "seq_attempt s' = seq_attempt s" "db_now s' = db_now s" "clock s' = clock s"
proof -
  let ?l = "local_transition obj new ev m s"
  let ?s' = "enqueue_for ev (fst ?l) (snd ?l)"
  have "set_status cfg obj new ev m s = Ok (fst ?l) ?s'"
    by (simp add: set_status_nonterminal [OF assms(1,2)] case_prod_beta)
  then show ?thesis
    by (rule that) (simp_all add: db_simps assms(3))
qed

text \<open>A task put back into the queue, and the row it gets.\<close>

definition queued_row :: "task \<Rightarrow> time \<Rightarrow> task" where
  "queued_row t upd =
     t\<lparr>t_status := Queued, t_finished_at := None, t_scheduled_at := None,
       t_lease_owner := (if t_status t = Running then None else t_lease_owner t),
       t_lease_expires_at := (if t_status t = Running then None else t_lease_expires_at t),
       t_updated_at := upd\<rparr>"

lemma status_assignments_Queued: "status_assignments t Queued now upd t = queued_row t upd"
  by (simp add: status_assignments_def queued_row_def)

lemma queued_row_simps [simp]:
  "t_id (queued_row t upd) = t_id t" "t_status (queued_row t upd) = Queued"
  "task_message (queued_row t upd) = task_message t"
  "reattempt_message (queued_row t upd) = reattempt_message t"
  by (simp_all add: queued_row_def task_message_def reattempt_message_def)

definition puts_in_queue :: "settings \<Rightarrow> task \<Rightarrow> json \<Rightarrow> db \<Rightarrow> db \<Rightarrow> bool" where
  \<comment> \<open>one row goes to the queue, its message to the outbox, no other task changes\<close>
  "puts_in_queue cfg t message s s' \<longleftrightarrow>
     (\<forall>j. get_task_row j s' = (if j = t_id t then Some (queued_row t (db_now s)) else get_task_row j s)) \<and>
     publishes cfg s s' [message]"

lemma set_status_Queued:
  assumes "can_transition (t_status t) Queued" "get_task_row (t_id t) s = Some t"
  obtains s' where "set_status cfg t Queued ev m s = Ok (queued_row t (db_now s)) s'"
    and "puts_in_queue cfg t message s (add_outbox (routing_key_task_created cfg) message s')"
    and "attempts s' = attempts s" "seq_attempt s' = seq_attempt s" "db_now s' = db_now s"
proof -
  obtain s' where *: "set_status cfg t Queued ev m s = Ok (fst (local_transition t Queued ev m s)) s'"
    "\<And>j. get_task_row j s' = (if j = t_id t then Some (status_assignments t Queued (transition_time t Queued s) (db_now s) t)
       else get_task_row j s)" "outbox s' = outbox s" "attempts s' = attempts s"
    "seq_attempt s' = seq_attempt s" "db_now s' = db_now s"
    by (rule set_status_effect [OF assms(1) _ assms(2)]) auto
  then show ?thesis
    by (intro that [of s']) (simp_all add: status_assignments_Queued db_simps puts_in_queue_def publishes_outbox)
qed

lemma enqueue_new_effect:
  assumes "t_status t = Created" "get_task_row (t_id t) s = Some t"
  obtains s' where "enqueue_new cfg t s = Ok (queued_row t (db_now s)) s'"
    and "puts_in_queue cfg t (task_message t) s s'"
proof -
  obtain s' where *: "set_status cfg t Queued ''task.queued'' None s = Ok (queued_row t (db_now s)) s'"
    "puts_in_queue cfg t (task_message t) s (add_outbox (routing_key_task_created cfg) (task_message t) s')"
    by (rule set_status_Queued [OF _ assms(2)]) (simp_all add: assms(1) can_transition_Created)
  show ?thesis by (rule that [OF _ *(2)]) (simp add: enqueue_new_def *(1))
qed

section \<open>What the operations do\<close>

lemma manual_retry_effect:
  assumes "get_task s tid = Some t" "t_status t \<in> set RETRYABLE"
  obtains s' where "manual_retry cfg tid s = Ok (Some (queued_row t (db_now s))) s'"
    and "puts_in_queue cfg t (reattempt_message t) s s'"
proof -
  have row: "get_task_row (t_id t) s = Some t"
    using assms(1) get_task_row_SomeD by (auto simp: get_task_def)
  have can: "can_transition (t_status t) Queued" using assms(2) retryable_can_queue by blast
  obtain s' where *: "set_status cfg t Queued ''task.retried''
        (Some (JObj [(''attempts_so_far'', JInt (t_attempts t))])) s = Ok (queued_row t (db_now s)) s'"
    "puts_in_queue cfg t (reattempt_message t) s (add_outbox (routing_key_task_created cfg) (reattempt_message t) s')"
    by (rule set_status_Queued [OF can row])
  show ?thesis by (rule that [OF _ *(2)]) (simp add: manual_retry_def assms *(1))
qed

lemma cancel_task_effect:
  assumes "get_task s tid = Some t" "t_status t \<in> set CANCELABLE"
  obtains t' s' where "cancel_task cfg tid s = Ok (Some t') s'" and "t_id t' = tid" "t_status t' = Cancelled"
    and "\<And>j. status_of j s' = cancel_spec s tid Cancelled j" and "outbox s' = outbox s"
proof -
  have id: "t_id t = tid" using assms(1) get_task_row_SomeD by (auto simp: get_task_def)
  have can: "can_transition (t_status t) Cancelled" using assms(2) cancelable_can_cancel by blast
  obtain t' s' where set: "set_status cfg t Cancelled ''task.cancelled'' None s = Ok t' s'"
    and st: "\<And>j. status_of j s' = cancel_spec s (t_id t) Cancelled j" and out: "outbox s' = outbox s"
    using set_status_cancels [OF can, of cfg "''task.cancelled''" None s] by auto
  have "t' = fst (local_transition t Cancelled ''task.cancelled'' None s)"
    by (rule set_status_Ok_obj [OF can set])
  then show ?thesis
    using that [of t' s'] set st out id assms by (simp add: cancel_task_def db_simps)
qed

section \<open>What a creation does\<close>

lemma ancestors_below:
  assumes "integrity_but S s" "a \<in> ancestors (dependencies s) ps" "\<forall>p\<in>set ps. p < tid"
  shows "a < tid"
proof -
  obtain p where p: "p \<in> set ps" "(p, a) \<in> (parent_rel (dependencies s))\<^sup>*"
    using assms(2) by (auto simp: ancestors_def)
  from p(2) have "a \<le> p"
  proof induction
    case (step b c)
    then show ?case using assms(1) by (fastforce simp: parent_rel_def integrity_defs)
  qed simp
  then show ?thesis using p(1) assms(3) by fastforce
qed

lemma register_never_cyclic:
  assumes "integrity s" "seq_task s \<le> tid + 1"
  shows "raised (register_dependencies tid ps s) \<noteq> Some (TaskConflictError CycleDetected)"
proof
  assume *: "raised (register_dependencies tid ps s) = Some (TaskConflictError CycleDetected)"
  have own: "tid \<notin> set ps"
    using * by (cases "tid \<in> set ps") (simp_all add: register_dependencies_def)
  have none: "filter (\<lambda>pid. pid \<notin> t_id ` {t \<in> set (tasks s). t_id t \<in> set ps}) (dedup ps) = []"
    using * own by (cases "filter (\<lambda>pid. pid \<notin> t_id ` {t \<in> set (tasks s). t_id t \<in> set ps}) (dedup ps) = []")
      (simp_all add: register_dependencies_def)
  have cyc: "raised (ensure_no_cycle tid (dedup ps) s) \<noteq> None"
    using * own none by (cases "ensure_no_cycle tid (dedup ps) s") (simp_all add: register_dependencies_def)
  have "set ps \<subseteq> t_id ` set (tasks s)"
    using none by (auto simp: filter_empty_conv)
  then have "\<forall>p\<in>set ps. p < seq_task s"
    using assms(1) by (auto simp: integrity_but_def keys_ok_def)
  then have "\<forall>p\<in>set (dedup ps). p < tid"
    using own assms(2) by (metis set_dedup zless_add1_eq order_less_le_trans)
  moreover have "tid \<in> ancestors (dependencies s) (dedup ps)"
    using cyc ensure_no_cycle_iff [of tid "dedup ps" s] by simp
  ultimately show False using ancestors_below [OF assms(1)] by blast
qed

definition depends :: "task_spec \<Rightarrow> int list" where
  "depends spec = (case c_depends_on spec of None \<Rightarrow> [] | Some ps \<Rightarrow> ps)"

definition start_status :: "task_spec \<Rightarrow> time \<Rightarrow> task_status" where
  "start_status spec now =
     (if depends spec \<noteq> [] then Created
      else case c_schedule_at spec of
             Some run_at \<Rightarrow> if run_at > now then Scheduled else Queued
           | None \<Rightarrow> Queued)"

text \<open>The columns of a task that its creation fixes for good.\<close>

definition task_content :: "task \<Rightarrow> string \<times> json \<times> task_priority \<times> int \<times> string option \<times> int option \<times> int option" where
  "task_content t =
     (t_task_type t, t_payload t, t_priority t, t_max_attempts t, t_idempotency_key t, t_batch_id t, t_created_by t)"

definition spec_content :: "settings \<Rightarrow> task_spec \<Rightarrow> string \<times> json \<times> task_priority \<times> int \<times> string option \<times> int option \<times> int option" where
  "spec_content cfg spec =
     (c_task_type spec, c_payload spec, c_priority spec,
      case c_max_attempts spec of Some n \<Rightarrow> n | None \<Rightarrow> task_max_attempts cfg,
      c_idempotency_key spec, c_batch_id spec, c_created_by spec)"

lemma task_content_simps [simp]:
  "task_content (new_task cfg spec s) = spec_content cfg spec"
  "task_content (queued_row t upd) = task_content t"
  "task_content (status_assignments obj new now upd t) = task_content t"
  by (simp_all add: task_content_def spec_content_def new_task_def queued_row_def status_assignments_def)

definition creation_ok :: "settings \<Rightarrow> task_spec \<Rightarrow> db \<Rightarrow> task \<Rightarrow> db \<Rightarrow> bool" where
  "creation_ok cfg spec s t s' \<longleftrightarrow>
     t_id t = seq_task s \<and> t_status t = start_status spec (clock s (ticks s)) \<and>
     task_content t = spec_content cfg spec \<and> t_attempts t = 0 \<and>
     (\<forall>j. get_task_row j s' = (if j = seq_task s then Some t else get_task_row j s)) \<and>
     publishes cfg s s' (if t_status t = Queued then [task_message t] else []) \<and>
     dependencies s' = dependencies s @ map (\<lambda>p. \<lparr>d_parent = p, d_child = seq_task s\<rparr>) (dedup (depends spec))"

lemma dedup_Nil [simp]: "dedup [] = []"
  by (simp add: dedup_def)

lemma puts_in_queue_cong:
  "puts_in_queue cfg t m s s' \<Longrightarrow> outbox s1 = outbox s \<Longrightarrow> db_now s1 = db_now s \<Longrightarrow>
   (\<And>j. get_task_row j s1 = get_task_row j s) \<Longrightarrow> puts_in_queue cfg t m s1 s'"
  by (simp add: puts_in_queue_def publishes_def)

lemma enqueue_new_creation:
  assumes "t_id t = seq_task s" "t_status t = Created" "get_task_row (t_id t) s1 = Some t"
    and "\<And>j. j \<noteq> t_id t \<Longrightarrow> get_task_row j s1 = get_task_row j s" "outbox s1 = outbox s"
    and "dependencies s1 = dependencies s" "depends spec = []"
    and "start_status spec (clock s (ticks s)) = Queued" "task_content t = spec_content cfg spec" "t_attempts t = 0"
  shows "\<exists>t' s'. enqueue_new cfg t s1 = Ok t' s' \<and> creation_ok cfg spec s t' s'"
proof -
  obtain s' where *: "enqueue_new cfg t s1 = Ok (queued_row t (db_now s1)) s'"
    "puts_in_queue cfg t (task_message t) s1 s'"
    by (rule enqueue_new_effect [OF assms(2,3)])
  have "dependencies s' = dependencies s1"
    using *(1) set_status_frame(2) [of cfg t Queued "''task.queued''" None s1]
    by (auto simp: enqueue_new_def bind_o_Ok_iff db_simps)
  then show ?thesis
    using * assms publishes_cong [of cfg s1 s' _ s]
    by (auto simp: creation_ok_def puts_in_queue_def queued_row_def [THEN arg_cong [where f = t_attempts]])
qed

lemma create_rest_outcome:
  assumes "integrity s1" "t_id t = seq_task s" "t_status t = Created" "get_task_row (t_id t) s1 = Some t"
    and "\<And>j. j \<noteq> t_id t \<Longrightarrow> get_task_row j s1 = get_task_row j s" "outbox s1 = outbox s"
    and "dependencies s1 = dependencies s" "seq_task s1 = seq_task s + 1"
    and "clock s1 = clock s" "ticks s1 = ticks s" "task_content t = spec_content cfg spec" "t_attempts t = 0"
  shows "case create_rest cfg spec t s1 of
      Raise e s' \<Rightarrow> depends spec \<noteq> [] \<and> (\<exists>c. e = TaskConflictError c \<and> c \<noteq> CycleDetected)
    | Ok t' s' \<Rightarrow> creation_ok cfg spec s t' s'"
proof (cases "depends spec")
  case (Cons p ps)
  then have deps: "c_depends_on spec = Some (p # ps)" by (auto simp: depends_def split: option.splits)
  show ?thesis
  proof (cases rule: register_dependencies_cases [of "t_id t" "p # ps" s1])
    case ok
    then show ?thesis
      using assms deps Cons
      by (auto simp: create_rest_def creation_ok_def start_status_def db_simps publishes_Nil get_task_row_def)
  next
    case (conflict c)
    then show ?thesis
      using register_never_cyclic [OF assms(1), of "t_id t" "p # ps"] assms deps Cons
      by (simp add: create_rest_def)
  qed
next
  case Nil
  then have deps: "c_depends_on spec = None \<or> c_depends_on spec = Some []"
    by (auto simp: depends_def split: option.splits)
  show ?thesis
  proof (cases "start_status spec (clock s (ticks s)) = Queued")
    case True
    have "\<exists>t' s'. enqueue_new cfg t s2 = Ok t' s' \<and> creation_ok cfg spec s t' s'"
      if "tasks s2 = tasks s1" "outbox s2 = outbox s1" "dependencies s2 = dependencies s1" for s2
      using assms that Nil True by (intro enqueue_new_creation) (simp_all add: get_task_row_def)
    then have *: "case enqueue_new cfg t s2 of Raise e s' \<Rightarrow> False | Ok t' s' \<Rightarrow> creation_ok cfg spec s t' s'"
      if "tasks s2 = tasks s1" "outbox s2 = outbox s1" "dependencies s2 = dependencies s1" for s2
      using that by force
    have "create_rest cfg spec t s1 = enqueue_new cfg t s1 \<or> create_rest cfg spec t s1 = enqueue_new cfg t (snd (now_utc s1))"
      using True Nil deps assms(9,10)
      by (auto simp: create_rest_def start_status_def case_prod_beta db_simps split: option.splits if_splits)
    then show ?thesis
      using * [of s1] * [of "snd (now_utc s1)"] by (auto simp: db_simps split: outcome.splits)
  next
    case False
    then obtain run_at where at: "c_schedule_at spec = Some run_at" "run_at > clock s (ticks s)"
      and sched: "start_status spec (clock s (ticks s)) = Scheduled"
      using Nil by (auto simp: start_status_def split: option.splits if_splits)
    let ?s = "snd (now_utc s1)" and ?f = "\<lambda>t. t\<lparr>t_scheduled_at := Some run_at\<rparr>"
    let ?t = "fst (assign ?f (t, ?s))" and ?s2 = "snd (assign ?f (t, ?s))"
    have id: "t_id ?t = t_id t" "t_status ?t = Created" "task_content ?t = spec_content cfg spec" "t_attempts ?t = 0"
      using assms(3,11,12) by (simp_all add: db_simps task_content_def)
    have row: "get_task_row (t_id ?t) ?s2 = Some ?t"
      unfolding id by (rule get_task_row_assign) (use assms(4) in \<open>simp_all add: now_utc_def get_task_row_def\<close>)
    obtain s' where set: "set_status cfg ?t Scheduled ''task.scheduled'' None ?s2 =
        Ok (fst (local_transition ?t Scheduled ''task.scheduled'' None ?s2)) s'"
      and rows: "\<And>j. get_task_row j s' = (if j = t_id ?t
          then Some (status_assignments ?t Scheduled (transition_time ?t Scheduled ?s2) (db_now ?s2) ?t)
          else get_task_row j ?s2)"
      and rest: "outbox s' = outbox ?s2" "dependencies s' = dependencies ?s2"
      by (rule set_status_effect [OF _ _ row]) (auto simp: id can_transition_Created)
    have other: "get_task_row j ?s2 = get_task_row j s" if "j \<noteq> t_id t" for j
      using assms(5) [OF that] that by (simp add: get_task_row_def db_simps table_simps)
    have "creation_ok cfg spec s (fst (local_transition ?t Scheduled ''task.scheduled'' None ?s2)) s'"
      unfolding creation_ok_def rows local_transition_simps(1)
      using assms(2,6,7) sched rest id other Nil by (simp add: publishes_Nil db_simps)
    then show ?thesis
      using set at deps assms(9,10) by (auto simp: create_rest_def case_prod_beta db_simps)
  qed
qed

lemma create_task_outcome:
  assumes "integrity s"
  shows "case create_task cfg spec s of
      Raise e s' \<Rightarrow> e = IntegrityError \<and> insert_refused spec s \<or>
        depends spec \<noteq> [] \<and> (\<exists>c. e = TaskConflictError c \<and> c \<noteq> CycleDetected)
    | Ok t s' \<Rightarrow> \<not> insert_refused spec s \<and> creation_ok cfg spec s t s'"
proof (cases rule: insert_task_cases [of spec s cfg])
  case inserted
  let ?t = "new_task cfg spec s"
  let ?s = "s\<lparr>seq_task := seq_task s + 1, tasks := tasks s @ [?t]\<rparr>"
  let ?s1 = "record_event ?t ''task.created'' Created None ?s"
  have I: "integrity ?s" and row: "get_task_row (seq_task s) ?s = Some ?t"
    using integrity_new_row [OF assms refl] by simp_all
  have J: "integrity ?s1"
    by (rule integrity_log_row [OF I]) (use row in \<open>simp_all add: TASK_EVENT_TYPES_def\<close>)
  have other: "get_task_row j ?s1 = get_task_row j s" if "j \<noteq> t_id ?t" for j
    using that by (simp add: get_task_row_def db_simps find_row_append table_simps split: option.split)
  have "case create_rest cfg spec ?t ?s1 of
      Raise e s' \<Rightarrow> depends spec \<noteq> [] \<and> (\<exists>c. e = TaskConflictError c \<and> c \<noteq> CycleDetected)
    | Ok t' s' \<Rightarrow> creation_ok cfg spec s t' s'"
    by (rule create_rest_outcome [OF J _ _ _ other]) (use row in \<open>simp_all add: db_simps\<close>)
  then show ?thesis
    using inserted by (simp add: create_task_def split: outcome.splits)
qed (simp add: create_task_def)

text \<open>
  A task with parents waits, even when all of them have succeeded before: its parents' status is
  not looked at, and no later status change of theirs will unblock it.
\<close>

lemma late_child_waits:
  assumes "integrity s" "create_task cfg spec s = Ok t s'" "depends spec \<noteq> []"
  shows "t_status t = Created \<and> publishes cfg s s' []"
  using create_task_outcome [OF assms(1), where cfg = cfg and spec = spec] assms(2,3)
  by (auto simp: creation_ok_def start_status_def)

section \<open>Bulk operations account for every id\<close>

lemma bulk_loop_accounts:
  assumes step: "\<And>tid s. I s \<Longrightarrow> I (final_state (operation tid s)) \<and>
      (\<forall>e. raised (operation tid s) = Some e \<longrightarrow> (\<exists>c. e = TaskConflictError c))"
    and own: "\<And>tid t s s'. I s \<Longrightarrow> operation tid s = Ok (Some t) s' \<Longrightarrow> t_id t = tid"
  shows "I s \<Longrightarrow> \<exists>done conflicts s'. bulk_loop operation ids s = Ok (done, conflicts) s' \<and> I s' \<and>
     mset (map t_id done) + mset (map fst conflicts) = mset ids"
proof (induction ids arbitrary: s)
  case (Cons tid ids)
  have I: "I (final_state (operation tid s))" by (simp add: step Cons.prems)
  obtain d c s' where rest: "bulk_loop operation ids (final_state (operation tid s)) = Ok (d, c) s'" "I s'"
    "mset (map t_id d) + mset (map fst c) = mset ids"
    using Cons.IH [OF I] by blast
  show ?case
  proof (cases "operation tid s")
    case (Raise e s1)
    then obtain k where "e = TaskConflictError k" using step [OF Cons.prems, of tid] by auto
    then show ?thesis using rest Raise by simp
  next
    case (Ok r s1)
    then show ?thesis using rest own [OF Cons.prems, of tid] by (cases r) auto
  qed
qed simp

lemma manual_retry_raises:
  assumes "integrity s" "raised (manual_retry cfg tid s) = Some e"
  shows "\<exists>c. e = TaskConflictError c"
proof (cases "get_task s tid")
  case (Some t)
  show ?thesis
  proof (cases "t_status t \<in> set RETRYABLE")
    case True
    obtain s' where "manual_retry cfg tid s = Ok (Some (queued_row t (db_now s))) s'"
      by (rule manual_retry_effect [OF Some True])
    then show ?thesis using assms(2) by simp
  qed (use Some assms(2) in \<open>auto simp: manual_retry_def\<close>)
qed (use assms(2) in \<open>simp add: manual_retry_def\<close>)

lemma cancel_task_raises:
  assumes "integrity s" "raised (cancel_task cfg tid s) = Some e"
  shows "\<exists>c. e = TaskConflictError c"
proof (cases "get_task s tid")
  case (Some t)
  show ?thesis
  proof (cases "t_status t \<in> set CANCELABLE")
    case True
    obtain t' s' where "cancel_task cfg tid s = Ok (Some t') s'"
      by (rule cancel_task_effect [OF Some True])
    then show ?thesis using assms(2) by simp
  qed (use Some assms(2) in \<open>auto simp: cancel_task_def\<close>)
qed (use assms(2) in \<open>simp add: cancel_task_def\<close>)

lemma get_task_id: "get_task s tid = Some t \<Longrightarrow> t_id t = tid"
  by (simp add: get_task_def get_task_row_SomeD)

lemma manual_retry_id:
  assumes "manual_retry cfg tid s = Ok (Some t') s'"
  shows "t_id t' = tid"
proof -
  obtain t where t: "get_task s tid = Some t" "t_status t \<in> set RETRYABLE"
    using assms by (auto simp: manual_retry_def split: option.splits if_splits)
  obtain s1 where "manual_retry cfg tid s = Ok (Some (queued_row t (db_now s))) s1"
    by (rule manual_retry_effect [OF t])
  then show ?thesis using assms get_task_id [OF t(1)] by auto
qed

lemma cancel_task_id:
  assumes "cancel_task cfg tid s = Ok (Some t') s'"
  shows "t_id t' = tid"
proof -
  obtain t where t: "get_task s tid = Some t" "t_status t \<in> set CANCELABLE"
    using assms by (auto simp: cancel_task_def split: option.splits if_splits)
  obtain t1 s1 where "cancel_task cfg tid s = Ok (Some t1) s1" "t_id t1 = tid"
    by (rule cancel_task_effect [OF t])
  then show ?thesis using assms by auto
qed

lemma bulk_retry_accounts:
  assumes "integrity s"
  shows "\<exists>done conflicts s'. bulk_retry cfg ids s = Ok (done, conflicts) s' \<and> integrity s' \<and>
     mset (map t_id done) + mset (map fst conflicts) = mset ids"
  unfolding bulk_retry_def
  by (rule bulk_loop_accounts [where I = integrity])
    (auto simp: assms integrity_manual_retry manual_retry_raises manual_retry_id)

lemma bulk_cancel_accounts:
  assumes "integrity s"
  shows "\<exists>done conflicts s'. bulk_cancel cfg ids s = Ok (done, conflicts) s' \<and> integrity s' \<and>
     mset (map t_id done) + mset (map fst conflicts) = mset ids"
  unfolding bulk_cancel_def
  by (rule bulk_loop_accounts [where I = integrity])
    (auto simp: assms integrity_cancel_task cancel_task_raises cancel_task_id)

lemma bulk_create_conflict_escapes:
  assumes "create_task cfg spec s = Raise (TaskConflictError c) s'"
  shows "bulk_create cfg (spec # specs) s = Raise (TaskConflictError c) (rollback_to s s')"
  by (simp add: assms)

end
