(* ===== verification/Attempts.thy ===== *)
theory Attempts
  imports Tasks
begin

text \<open>
  Leases and attempts (\<open>app/worker/services/attempts.py\<close>). A worker claims a task with one
  conditional UPDATE, starts an attempt in the same transaction, and records the outcome in a
  later one. In that later transaction the session still holds the task object of the first:
  \<open>obj\<close> below is that object, and only \<open>still_running\<close> reads the row afresh.
\<close>

section \<open>Leases\<close>

definition lease_free :: "time \<Rightarrow> task \<Rightarrow> bool" where
  "lease_free now t \<longleftrightarrow>
     t_lease_owner t = None \<or>
     (case t_lease_expires_at t of None \<Rightarrow> True | Some e \<Rightarrow> e < now)"

text \<open>
  The UPDATE sees the row at once: the guard takes one clock reading and the new expiry the
  next. The result is whether a row matched.
\<close>

definition try_acquire_lease :: "int \<Rightarrow> string \<Rightarrow> seconds \<Rightarrow> db \<Rightarrow> bool \<times> db" where
  "try_acquire_lease tid worker_id lease_seconds s =
     (let (now1, s1) = now_utc s; (now2, s2) = now_utc s1 in
      case get_task_row tid s2 of
        None \<Rightarrow> (False, s2)
      | Some t \<Rightarrow>
          if t_status t = Queued \<and> lease_free now1 t
          then (True, s2\<lparr>tasks := update_row t_id tid
                  (\<lambda>t. t\<lparr>t_lease_owner := Some worker_id,
                         t_lease_expires_at := Some (now2 + timedelta_seconds lease_seconds),
                         t_updated_at := db_now s2\<rparr>) (tasks s2)\<rparr>)
          else (False, s2))"

definition renew_lease :: "int \<Rightarrow> string \<Rightarrow> seconds \<Rightarrow> db \<Rightarrow> bool \<times> db" where
  "renew_lease tid worker_id lease_seconds s =
     (let (now, s1) = now_utc s in
      case get_task_row tid s1 of
        None \<Rightarrow> (False, s1)
      | Some t \<Rightarrow>
          if t_lease_owner t = Some worker_id \<and> t_status t = Running
          then (True, s1\<lparr>tasks := update_row t_id tid
                  (\<lambda>t. t\<lparr>t_lease_expires_at := Some (now + timedelta_seconds lease_seconds),
                         t_updated_at := db_now s1\<rparr>) (tasks s1)\<rparr>)
          else (False, s1))"

section \<open>Attempts\<close>

definition still_running :: "task \<Rightarrow> db \<Rightarrow> bool" where
  "still_running obj s \<longleftrightarrow> map_option t_status (get_task_row (t_id obj) s) = Some Running"

definition insert_attempt :: "task \<Rightarrow> int \<Rightarrow> time \<Rightarrow> db \<Rightarrow> int \<times> db" where
  "insert_attempt obj attempt_number now s =
     (seq_attempt s,
      s\<lparr>attempts := attempts s @
           [\<lparr>a_id = seq_attempt s, a_task_id = t_id obj, a_attempt_number = attempt_number,
             a_worker_id = None, a_status = ARunning, a_error_message = None, a_result = None,
             a_started_at = Some now, a_finished_at = None\<rparr>],
         seq_attempt := seq_attempt s + 1\<rparr>)"

definition start_attempt :: "settings \<Rightarrow> task \<Rightarrow> db \<Rightarrow> (task \<times> int) result" where
  "start_attempt cfg obj s =
     bind_o (set_status cfg obj Running ''task.running'' None s) (\<lambda>obj s.
       let attempt_number = t_attempts obj + 1;
           (obj, s) = assign (\<lambda>t. t\<lparr>t_attempts := attempt_number\<rparr>) (obj, s);
           (obj, s) = (if t_started_at obj = None
                       then (case now_utc s of (now, s) \<Rightarrow>
                               assign (\<lambda>t. t\<lparr>t_started_at := Some now\<rparr>) (obj, s))
                       else (obj, s));
           (now, s) = now_utc s;
           (attempt, s) = insert_attempt obj attempt_number now s
       in Ok (obj, attempt)
            (record_event obj ''task.attempt_started'' Running
               (Some (JObj [(''attempt_number'', JInt attempt_number)])) s))"

definition set_attempt :: "int \<Rightarrow> (attempt \<Rightarrow> attempt) \<Rightarrow> db \<Rightarrow> db" where
  "set_attempt aid f s = s\<lparr>attempts := update_row a_id aid f (attempts s)\<rparr>"

text \<open>
  The UPDATE of the attempt row a session holds: it must match the row (the purge of an old
  task deletes its attempts), otherwise the flush raises.
\<close>

definition close_attempt :: "int \<Rightarrow> (attempt \<Rightarrow> attempt) \<Rightarrow> db \<Rightarrow> unit result" where
  "close_attempt aid f s =
     (if aid \<in> a_id ` set (attempts s) then Ok () (set_attempt aid f s) else Raise StaleDataError s)"

definition record_success :: "settings \<Rightarrow> task \<Rightarrow> int \<Rightarrow> json \<Rightarrow> db \<Rightarrow> task result" where
  "record_success cfg obj attempt result s =
     (case now_utc s of (now, s) \<Rightarrow>
        bind_o (close_attempt attempt
                 (\<lambda>a. a\<lparr>a_status := ASuccess, a_result := Some result, a_finished_at := Some now\<rparr>) s)
          (\<lambda>_ s.
             if \<not> still_running obj s then Ok obj s
             else
               let (now, s) = now_utc s;
                   (obj, s) = assign (\<lambda>t. t\<lparr>t_result := Some result, t_finished_at := Some now\<rparr>) (obj, s)
               in set_status cfg obj Success ''task.succeeded'' None s))"

definition attempt_number_of :: "int \<Rightarrow> db \<Rightarrow> int" where
  "attempt_number_of aid s =
     (case find_row a_id aid (attempts s) of None \<Rightarrow> 0 | Some a \<Rightarrow> a_attempt_number a)"

text \<open>
  What follows a failed attempt of a task still running: another attempt after a backoff, or
  the end of the task with, for a dead letter, the time of its next cycle.
\<close>

definition schedule_retry :: "settings \<Rightarrow> task \<Rightarrow> int \<Rightarrow> db \<Rightarrow> task result" where
  "schedule_retry cfg obj number s =
     (let backoff = compute_retry_delay_seconds cfg (t_attempts obj);
          (now, s) = now_utc s;
          scheduled = now + timedelta_seconds backoff;
          (obj, s) = assign (\<lambda>t. t\<lparr>t_scheduled_at := Some scheduled\<rparr>) (obj, s)
      in set_status cfg obj RetryScheduled ''task.retry_scheduled''
           (Some (JObj [(''attempt_number'', JInt number), (''backoff_seconds'', JNum backoff),
                        (''retry_at'', JIso scheduled)])) s)"

definition set_dlq_retry :: "settings \<Rightarrow> task \<Rightarrow> db \<Rightarrow> task \<times> db" where
  "set_dlq_retry cfg obj s =
     (if dlq_retry_enabled cfg \<and> t_dlq_requeue_count obj < dlq_retry_max_cycles cfg
      then (case now_utc s of (now, s) \<Rightarrow>
              assign (\<lambda>t. t\<lparr>t_dlq_retry_at :=
                 Some (now + timedelta_seconds (dlq_retry_interval_seconds cfg))\<rparr>) (obj, s))
      else assign (\<lambda>t. t\<lparr>t_dlq_retry_at := None\<rparr>) (obj, s))"

definition end_in_failure :: "settings \<Rightarrow> task \<Rightarrow> int \<Rightarrow> string \<Rightarrow> bool \<Rightarrow> db \<Rightarrow> task result" where
  "end_in_failure cfg obj number error retryable s =
     bind_o (set_status cfg obj (if retryable then DeadLetter else Failed)
               (if retryable then ''task.dead_lettered'' else ''task.failed'')
               (Some (JObj [(''attempt_number'', JInt number), (''error'', JStr error)])) s)
       (\<lambda>obj s.
          if retryable then (case set_dlq_retry cfg obj s of (obj, s) \<Rightarrow> Ok obj s)
          else Ok obj s)"

definition record_failure ::
    "settings \<Rightarrow> task \<Rightarrow> int \<Rightarrow> string \<Rightarrow> bool \<Rightarrow> db \<Rightarrow> task result" where
  "record_failure cfg obj attempt error retryable s =
     (let error_truncated = take 2000 error;
          (now, s) = now_utc s;
          number = attempt_number_of attempt s
      in bind_o (close_attempt attempt
                  (\<lambda>a. a\<lparr>a_status := AFailed, a_error_message := Some error_truncated,
                         a_finished_at := Some now\<rparr>) s)
           (\<lambda>_ s.
              if \<not> still_running obj s then Ok obj s
              else
                let (obj, s) = assign (\<lambda>t. t\<lparr>t_last_error := Some error_truncated\<rparr>) (obj, s) in
                if retryable \<and> t_attempts obj < t_max_attempts obj
                then schedule_retry cfg obj number s
                else end_in_failure cfg obj number error_truncated retryable s))"

end
