(* ===== verification/Outbox_Relay.thy ===== *)
theory Outbox_Relay
  imports Attempts
begin

text \<open>
  The outbox relay (\<open>app/services/outbox.py\<close>). The broker is a parameter: \<open>send\<close> gives for
  each event the error its publication raises, if any, and \<open>online\<close> whether a connection
  and the exchange could be had.
\<close>

section \<open>Priorities\<close>

definition PRIORITY_TO_RABBIT :: "string \<Rightarrow> int option" where
  "PRIORITY_TO_RABBIT = map_of [(''critical'', 9), (''high'', 6), (''normal'', 3), (''low'', 1)]"

text \<open>A payload whose priority is no string (none is written) would count as unknown here.\<close>

definition priority_value :: "json \<Rightarrow> int" where
  "priority_value payload =
     (case json_get payload ''priority'' of
        Some (JStr p) \<Rightarrow> (case PRIORITY_TO_RABBIT p of Some n \<Rightarrow> n | None \<Rightarrow> 3)
      | _ \<Rightarrow> 3)"

text \<open>Task priorities are ordered by the broker priority of their messages.\<close>

definition rabbit_priority :: "task_priority \<Rightarrow> int" where
  "rabbit_priority p = the (PRIORITY_TO_RABBIT (priority_name p))"

lemma rabbit_priority_simps [simp]:
  "rabbit_priority Critical = 9" "rabbit_priority High = 6"
  "rabbit_priority Normal = 3" "rabbit_priority Low = 1"
  by (simp_all add: rabbit_priority_def PRIORITY_TO_RABBIT_def)

instantiation task_priority :: linorder
begin

definition less_eq_task_priority :: "task_priority \<Rightarrow> task_priority \<Rightarrow> bool" where
  "p \<le> q \<longleftrightarrow> rabbit_priority p \<le> rabbit_priority q"

definition less_task_priority :: "task_priority \<Rightarrow> task_priority \<Rightarrow> bool" where
  "p < q \<longleftrightarrow> rabbit_priority p < rabbit_priority q"

instance
proof
  fix p q :: task_priority
  show "p \<le> q \<Longrightarrow> q \<le> p \<Longrightarrow> p = q"
    by (cases p; cases q) (simp_all add: less_eq_task_priority_def)
qed (auto simp: less_eq_task_priority_def less_task_priority_def)

end

section \<open>Publication\<close>

record message =
  m_routing_key :: string
  m_body :: json
  m_priority :: int

definition message_of :: "outbox_event \<Rightarrow> message" where
  "message_of oe =
     \<lparr>m_routing_key = o_routing_key oe, m_body = o_payload oe, m_priority = priority_value (o_payload oe)\<rparr>"

definition publish_one ::
    "(outbox_event \<Rightarrow> string option) \<Rightarrow> outbox_event \<Rightarrow> message list \<times> db \<Rightarrow> message list \<times> db" where
  "publish_one send oe acc =
     (let (sent, s) = acc in
      case send oe of
        None \<Rightarrow>
          (let (now, s) = now_utc s in
           (sent @ [message_of oe],
            s\<lparr>outbox := update_row o_id (o_id oe)
                (\<lambda>oe. oe\<lparr>o_status := OUTBOX_SENT, o_processed_at := Some now, o_last_error := None,
                        o_attempts := o_attempts oe + 1\<rparr>) (outbox s)\<rparr>))
      | Some exc \<Rightarrow>
          (sent,
           s\<lparr>outbox := update_row o_id (o_id oe)
               (\<lambda>oe. oe\<lparr>o_attempts := o_attempts oe + 1, o_last_error := Some (take 1000 exc)\<rparr>) (outbox s)\<rparr>))"

definition pending_events :: "nat \<Rightarrow> db \<Rightarrow> outbox_event list" where
  "pending_events limit s =
     order_limit o_id limit (filter (\<lambda>oe. o_status oe = OUTBOX_PENDING) (outbox s))"

text \<open>
  The result: the number of events handled, what reached the broker, and the database; None
  when no connection could be had and the exception left the database as it was.
\<close>

definition publish_pending_events ::
    "bool \<Rightarrow> (outbox_event \<Rightarrow> string option) \<Rightarrow> nat \<Rightarrow> db \<Rightarrow> (nat \<times> message list \<times> db) option" where
  "publish_pending_events online send limit s =
     (let pending = pending_events limit s in
      if pending = [] then Some (0, [], s)
      else if \<not> online then None
      else Some (length pending, fold (publish_one send) pending ([], s)))"

section \<open>What a relay pass does\<close>

definition relayed :: "(outbox_event \<Rightarrow> string option) \<Rightarrow> outbox_event list \<Rightarrow> message list" where
  "relayed send evs = map message_of (filter (\<lambda>oe. send oe = None) evs)"

definition key_of :: "outbox_event \<Rightarrow> int \<times> string \<times> json" where
  "key_of oe = (o_id oe, o_routing_key oe, o_payload oe)"

lemma publish_one_ids:
  "map key_of (outbox (snd (publish_one send oe (sent, s)))) = map key_of (outbox s)"
  by (auto simp: publish_one_def now_utc_def update_row_def key_of_def split: option.split)

lemma publish_one_status:
  "map (\<lambda>e. (o_id e, o_status e)) (outbox (snd (publish_one send oe (sent, s)))) =
   map (\<lambda>e. (o_id e, if o_id e = o_id oe \<and> send oe = None then OUTBOX_SENT else o_status e)) (outbox s)"
  by (auto simp: publish_one_def now_utc_def update_row_def split: option.split)

lemma fold_publish_one:
  "fst (fold (publish_one send) evs (sent, s)) = sent @ relayed send evs \<and>
   map key_of (outbox (snd (fold (publish_one send) evs (sent, s)))) = map key_of (outbox s) \<and>
   map (\<lambda>e. (o_id e, o_status e)) (outbox (snd (fold (publish_one send) evs (sent, s)))) =
   map (\<lambda>e. (o_id e, if \<exists>oe\<in>set evs. o_id oe = o_id e \<and> send oe = None then OUTBOX_SENT else o_status e))
     (outbox s)"
proof (induction evs arbitrary: sent s)
  case Nil
  then show ?case by (simp add: relayed_def)
next
  case (Cons oe evs)
  obtain sent1 s1 where one: "publish_one send oe (sent, s) = (sent1, s1)"
    by (cases "publish_one send oe (sent, s)")
  have sent1: "sent1 = sent @ (if send oe = None then [message_of oe] else [])"
    using one by (auto simp: publish_one_def now_utc_def split: option.splits)
  have st: "map (\<lambda>e. (o_id e, o_status e)) (outbox s1) =
      map (\<lambda>e. (o_id e, if o_id e = o_id oe \<and> send oe = None then OUTBOX_SENT else o_status e)) (outbox s)"
    using publish_one_status [of send oe sent s] one by simp
  let ?f = "\<lambda>(i, st). (i, if \<exists>oe\<in>set evs. o_id oe = i \<and> send oe = None then OUTBOX_SENT else st)"
  have "map (\<lambda>e. (o_id e, if \<exists>oe\<in>set evs. o_id oe = o_id e \<and> send oe = None then OUTBOX_SENT else o_status e)) (outbox s1)
      = map ?f (map (\<lambda>e. (o_id e, o_status e)) (outbox s1))"
    by simp
  also have "\<dots> = map (\<lambda>e. (o_id e, if \<exists>oe\<in>set (oe # evs). o_id oe = o_id e \<and> send oe = None
        then OUTBOX_SENT else o_status e)) (outbox s)"
    unfolding st by auto
  finally show ?case
    using Cons.IH [of sent1 s1] one sent1 publish_one_ids [of send oe sent s]
    by (simp add: relayed_def)
qed

lemma relay_effect:
  obtains s' where "publish_pending_events True send limit s =
      Some (length (pending_events limit s), relayed send (pending_events limit s), s')"
    and "map key_of (outbox s') = map key_of (outbox s)"
    and "map (\<lambda>e. (o_id e, o_status e)) (outbox s') =
      map (\<lambda>e. (o_id e, if \<exists>oe\<in>set (pending_events limit s). o_id oe = o_id e \<and> send oe = None
        then OUTBOX_SENT else o_status e)) (outbox s)"
proof (cases "pending_events limit s = []")
  case True
  then show ?thesis using that [of s] by (simp add: publish_pending_events_def relayed_def)
next
  case False
  let ?r = "fold (publish_one send) (pending_events limit s) ([], s)"
  have "publish_pending_events True send limit s = Some (length (pending_events limit s), fst ?r, snd ?r)"
    using False by (simp add: publish_pending_events_def Let_def)
  then show ?thesis
    using that [of "snd ?r"] fold_publish_one [of send "pending_events limit s" "[]" s] by simp
qed

end
