(* ===== verification/Worker_Main.thy ===== *)
theory Worker_Main
  imports Outbox_Relay "HOL-Library.AList" "HOL-Library.Char_ord" "HOL-Library.List_Lexorder"
begin

text \<open>
  The message handler of a worker (\<open>app/worker/main.py\<close>), the decoding of a message
  (\<open>app/worker/broker/consumer.py\<close>) and the handler registry with its three handlers
  (\<open>app/worker/executors/\<close>). The handler's two transactions are \<open>claim\<close> and \<open>finish\<close>; between
  them other sessions commit.
\<close>

section \<open>Handlers and their registry\<close>

text \<open>
  How an execution under \<open>asyncio.wait_for\<close> ends. The text of an exception that is not the
  worker's own is the handler's.
\<close>

datatype exec_result = Completed json | TimedOut | UnknownTaskType string | Raised string

definition echo_handler :: "json \<Rightarrow> seconds \<times> exec_result" where
  "echo_handler payload =
     (0, Completed (JObj [(''message'', (case json_get payload ''message'' of Some m \<Rightarrow> m | None \<Rightarrow> JStr [])),
                          (''task_type'', JStr ''echo'')]))"

text \<open>
  What the handlers use of Python's own functions: \<open>float\<close> on a string (None on a \<open>ValueError\<close>),
  \<open>str\<close> and \<open>repr\<close> of a JSON value. The Ukrainian texts are transliterated.
\<close>

record python =
  parse_float :: "string \<Rightarrow> rat option"
  py_str :: "json \<Rightarrow> string"
  py_repr :: "json \<Rightarrow> string"

fun py_float :: "python \<Rightarrow> json \<Rightarrow> rat option" where
  "py_float py (JInt n) = Some (of_int n)"
| "py_float py (JNum x) = Some x"
| "py_float py (JBool b) = Some (if b then 1 else 0)"
| "py_float py (JStr w) = parse_float py w"
| "py_float py _ = None"

definition sleep_handler :: "python \<Rightarrow> json \<Rightarrow> seconds \<times> exec_result" where
  "sleep_handler py payload =
     (let raw = (case json_get payload ''seconds'' of Some v \<Rightarrow> v | None \<Rightarrow> JInt 0) in
      case py_float py raw of
        None \<Rightarrow> (0, Raised (''seconds maie buty chyslom, otrymano '' @ py_repr py raw))
      | Some x \<Rightarrow> (let secs = max 0 (min 30 x) in (secs, Completed (JObj [(''slept'', JNum secs)]))))"

definition fail_handler :: "python \<Rightarrow> json \<Rightarrow> seconds \<times> exec_result" where
  "fail_handler py payload =
     (0, Raised (''Zapyt na pomylku: '' @
           py_str py (case json_get payload ''reason'' of Some r \<Rightarrow> r | None \<Rightarrow> JStr ''demo-pomylka'')))"

type_synonym handler = "json \<Rightarrow> seconds \<times> exec_result"

text \<open>The registry, in the order of registration: a later handler of a name replaces the earlier.\<close>

type_synonym handlers = "(string \<times> handler) list"

definition register :: "string \<Rightarrow> handler \<Rightarrow> handlers \<Rightarrow> handlers" where
  "register name h hs = AList.update name h hs"

definition get_handler :: "handlers \<Rightarrow> string \<Rightarrow> handler option" where
  "get_handler hs task_type = map_of hs task_type"

definition registered_types :: "handlers \<Rightarrow> string list" where
  "registered_types hs = sort (map fst hs)"

definition registry :: "python \<Rightarrow> handlers" where
  "registry py =
     fold (\<lambda>(name, h). register name h)
       [(''echo'', echo_handler), (''sleep'', sleep_handler py), (''fail'', fail_handler py)] []"

fun join_comma :: "string list \<Rightarrow> string" where
  "join_comma [] = []"
| "join_comma [w] = w"
| "join_comma (w # v # ws) = w @ '', '' @ join_comma (v # ws)"

text \<open>
  \<open>wait_for\<close> turns an execution that is not over when the timeout passes into a
  \<open>TimeoutError\<close>.
\<close>

definition dispatch :: "python \<Rightarrow> handlers \<Rightarrow> settings \<Rightarrow> string \<Rightarrow> json \<Rightarrow> exec_result" where
  "dispatch py hs cfg task_type payload =
     (case get_handler hs task_type of
        None \<Rightarrow>
          UnknownTaskType (''Nevidomyi typ zadachi: '' @ py_repr py (JStr task_type) @ ''. Dostupno: '' @
            join_comma (registered_types hs))
      | Some handler \<Rightarrow>
          (case handler payload of (duration, r) \<Rightarrow>
             if of_int (task_execution_timeout_seconds cfg) \<le> duration then TimedOut else r))"

section \<open>Decoding a message\<close>

definition decode_payload :: "json option \<Rightarrow> json option" where
  \<comment> \<open>the parsed body, None if it is not JSON; only an object is accepted\<close>
  "decode_payload body =
     (case body of Some (JObj kvs) \<Rightarrow> Some (JObj kvs) | _ \<Rightarrow> None)"

text \<open>\<open>int(body.get("task_id"))\<close>: the reading of a string is \<open>parse_int\<close>, None on an error.\<close>

definition message_task_id :: "(string \<Rightarrow> int option) \<Rightarrow> json \<Rightarrow> int option" where
  "message_task_id parse_int body =
     (case json_get body ''task_id'' of
        Some (JInt n) \<Rightarrow> Some n
      | Some (JBool b) \<Rightarrow> Some (if b then 1 else 0)
      | Some (JNum x) \<Rightarrow> Some (if 0 \<le> x then \<lfloor>x\<rfloor> else \<lceil>x\<rceil>)
      | Some (JStr w) \<Rightarrow> parse_int w
      | _ \<Rightarrow> None)"

section \<open>The two transactions of the message handler\<close>

datatype claim_result = NotAcquired | TaskGone | Claimed task int

definition claim :: "settings \<Rightarrow> string \<Rightarrow> int \<Rightarrow> db \<Rightarrow> claim_result result" where
  "claim cfg worker_id tid s =
     (case try_acquire_lease tid worker_id (task_lease_seconds cfg) s of
        (False, s) \<Rightarrow> Ok NotAcquired s
      | (True, s) \<Rightarrow>
          (case get_task s tid of
             None \<Rightarrow> Ok TaskGone s
           | Some task \<Rightarrow>
               bind_o (start_attempt cfg task s) (\<lambda>(task, attempt) s.
                 Ok (Claimed task attempt)
                   (set_attempt attempt (\<lambda>a. a\<lparr>a_worker_id := Some worker_id\<rparr>) s))))"

definition timeout_message :: "settings \<Rightarrow> string" where
  "timeout_message cfg = ''Taimaut vykonannia ('' @ show_int (task_execution_timeout_seconds cfg) @ ''s)''"

definition finish :: "settings \<Rightarrow> task \<Rightarrow> int \<Rightarrow> exec_result \<Rightarrow> db \<Rightarrow> task result" where
  "finish cfg task attempt outcome s =
     (case outcome of
        Completed r \<Rightarrow> record_success cfg task attempt r s
      | TimedOut \<Rightarrow> record_failure cfg task attempt (timeout_message cfg) True s
      | UnknownTaskType exc \<Rightarrow> record_failure cfg task attempt exc False s
      | Raised exc \<Rightarrow> record_failure cfg task attempt exc True s)"

datatype ack = Ack | Nack

text \<open>
  The whole handler. \<open>others\<close> is what the other sessions commit while the task executes. An
  exception leaves the transaction it occurs in rolled back and the message rejected without
  requeueing.
\<close>

definition handle_message ::
    "python \<Rightarrow> (string \<Rightarrow> int option) \<Rightarrow> handlers \<Rightarrow> (db \<Rightarrow> db) \<Rightarrow> settings \<Rightarrow> string \<Rightarrow>
     json option \<Rightarrow> db \<Rightarrow> ack \<times> db" where
  "handle_message py parse_int handlers others cfg worker_id body s =
     (case decode_payload body of
        None \<Rightarrow> (Nack, s)
      | Some b \<Rightarrow>
          (case message_task_id parse_int b of
             None \<Rightarrow> (Nack, s)
           | Some tid \<Rightarrow>
               (case claim cfg worker_id tid s of
                  Raise e s' \<Rightarrow> (Nack, rollback_to s s')
                | Ok NotAcquired s' \<Rightarrow> (Ack, rollback_to s s')
                | Ok TaskGone s' \<Rightarrow> (Ack, rollback_to s s')
                | Ok (Claimed task attempt) s' \<Rightarrow>
                    (let s1 = others s' in
                     case finish cfg task attempt (dispatch py handlers cfg (t_task_type task) (t_payload task)) s1 of
                       Raise e s2 \<Rightarrow> (Nack, rollback_to s1 s2)
                     | Ok _ s2 \<Rightarrow> (Ack, s2)))))"

end
