(* ===== verification/Attempts_Correct.thy ===== *)
theory Attempts_Correct
  imports Tasks_Correct Worker_Main
begin

text \<open>
  What the claim of a task does, that one worker at a time holds it, and that the claim and
  both ways to finish keep the integrity of the database: for the finish, with an object that
  may be older than its row.
\<close>

section \<open>The lease\<close>

definition leased_row :: "string \<Rightarrow> time \<Rightarrow> time \<Rightarrow> task \<Rightarrow> task" where
  "leased_row worker_id expires upd t =
     t\<lparr>t_lease_owner := Some worker_id, t_lease_expires_at := Some expires, t_updated_at := upd\<rparr>"

lemma try_acquire_lease_cases:
  obtains (acquired) t where "get_task_row tid s = Some t" "t_status t = Queued"
      "lease_free (clock s (ticks s)) t"
      "try_acquire_lease tid worker_id n s = (True, s\<lparr>ticks := ticks s + 2,
         tasks := update_row t_id tid
           (leased_row worker_id (clock s (ticks s + 1) + timedelta_seconds n) (db_now s)) (tasks s)\<rparr>)"
  | (refused) "\<And>t. get_task_row tid s = Some t \<Longrightarrow> t_status t \<noteq> Queued \<or> \<not> lease_free (clock s (ticks s)) t"
      "try_acquire_lease tid worker_id n s = (False, s\<lparr>ticks := ticks s + 2\<rparr>)"
proof (cases "\<exists>t. get_task_row tid s = Some t \<and> t_status t = Queued \<and> lease_free (clock s (ticks s)) t")
  case True
  then show ?thesis
    using acquired by (auto simp: try_acquire_lease_def now_utc_def get_task_row_def leased_row_def [abs_def])
next
  case False
  then show ?thesis
    by (cases "get_task_row tid s"; intro refused)
      (auto simp: try_acquire_lease_def now_utc_def get_task_row_def)
qed

lemma leased_row_simps [simp]:
  "t_id (leased_row w e u t) = t_id t" "t_status (leased_row w e u t) = t_status t"
  "t_finished_at (leased_row w e u t) = t_finished_at t"
  "t_attempts (leased_row w e u t) = t_attempts t" "t_last_error (leased_row w e u t) = t_last_error t"
  "t_lease_owner (leased_row w e u t) = Some w" "t_lease_expires_at (leased_row w e u t) = Some e"
  by (simp_all add: leased_row_def)

lemma integrity_leased:
  assumes "integrity s"
  shows "integrity_but {tid} (s\<lparr>ticks := n, tasks := update_row t_id tid (leased_row w e u) (tasks s)\<rparr>)"
  using assms unfolding integrity_defs history_def attempt_numbers_def
  by (auto simp: table_simps set_update_row split: if_splits)

section \<open>Starting an attempt\<close>

definition started_row :: "task \<Rightarrow> time \<Rightarrow> time \<Rightarrow> task" where
  "started_row t now upd =
     t\<lparr>t_status := Running, t_attempts := t_attempts t + 1,
       t_started_at := (if t_started_at t = None then Some now else t_started_at t),
       t_updated_at := upd\<rparr>"

definition counts_attempt :: "(task \<Rightarrow> task) \<Rightarrow> int \<Rightarrow> bool" where
  \<comment> \<open>a row change the invariant sees only through the attempt counter it sets\<close>
  "counts_attempt f n \<longleftrightarrow> (\<forall>t. t_id (f t) = t_id t \<and> t_status (f t) = t_status t \<and>
     t_finished_at (f t) = t_finished_at t \<and> t_lease_owner (f t) = t_lease_owner t \<and>
     t_lease_expires_at (f t) = t_lease_expires_at t \<and> t_attempts (f t) = n \<and>
     (fits_width 2000 (t_last_error t) \<longrightarrow> fits_width 2000 (t_last_error (f t))))"

lemma integrity_new_attempt:
  assumes "integrity s" "get_task_row tid s = Some row" "counts_attempt f (t_attempts row + 1)"
    and a: "a_id a = seq_attempt s" "a_task_id a = tid" "a_attempt_number a = t_attempts row + 1"
      "a_error_message a = None"
    and s': "s' = s\<lparr>tasks := update_row t_id tid f (tasks s), ticks := n, attempts := attempts s @ [a],
       seq_attempt := seq_attempt s + 1\<rparr>"
  shows "integrity s'"
proof -
  have row: "row \<in> set (tasks s)" "t_id row = tid" using get_task_row_SomeD [OF assms(2)] by simp_all
  have f: "t_id (f t) = t_id t" "t_status (f t) = t_status t" "task_ok (f t) = task_ok t"
    "t_attempts (f t) = t_attempts row + 1" for t
    using assms(3) by (simp_all add: counts_attempt_def task_ok_def)
  have numbers: "attempt_numbers j s' = attempt_numbers j s @ (if j = tid then [t_attempts row + 1] else [])" for j
    by (simp add: s' attempt_numbers_def a)
  have hist: "history j s' = history j s" for j by (simp add: s' history_def)
  have rows: "(\<exists>t\<in>set (tasks s). x = f t \<and> t = row) \<or> x \<in> set (tasks s) \<and> t_id x \<noteq> tid"
    if "x \<in> set (tasks s')" for x
    using that unfolding s' by simp (erule in_update_rowE,
      use assms(2) row integrity_get_task [OF assms(1)] in auto)
  have "keys_ok s'"
  proof -
    have id: "t_id r < seq_task s" if "r \<in> set (update_row t_id tid f (tasks s))" for r
      using that assms(1) f(1) by (auto simp: integrity_but_def keys_ok_def elim!: in_update_rowE)
    have "tid < seq_task s" using assms(1) row by (auto simp: integrity_but_def keys_ok_def)
    then show ?thesis
      using assms(1) id f(1) a by (auto simp: integrity_but_def keys_ok_def s' table_simps)
  qed
  moreover have "history_ok s'"
  proof -
    have "events s' = events s" by (simp add: s')
    then show ?thesis
      using assms(1) rows f(1,2) unfolding integrity_but_def history_ok_def hist by (metis (no_types, lifting))
  qed
  moreover have "attempts_ok s'"
  proof -
    have "0 \<le> t_attempts x \<and> attempt_numbers (t_id x) s' = [1..t_attempts x]" if "x \<in> set (tasks s')" for x
    proof (cases "x \<in> set (tasks s) \<and> t_id x \<noteq> tid")
      case True
      then show ?thesis using assms(1) by (simp add: integrity_but_def attempts_ok_def numbers)
    next
      case False
      then have "x = f row" using rows [OF that] by auto
      moreover have "0 \<le> t_attempts row" "attempt_numbers tid s = [1..t_attempts row]"
        using assms(1) row by (auto simp: integrity_but_def attempts_ok_def)
      ultimately show ?thesis
        using row f upto_rec2 [of 1 "t_attempts row + 1"] by (simp add: numbers)
    qed
    then show ?thesis by (simp add: attempts_ok_def)
  qed
  moreover have "task_ok x" if "x \<in> set (tasks s')" for x
    using rows [OF that] assms(1) f(3) by (auto simp: integrity_but_def)
  moreover have "texts_ok s'"
    using assms(1,3) a(4) unfolding s' by (auto simp: integrity_but_def texts_ok_def counts_attempt_def elim!: in_update_rowE)
  ultimately show ?thesis by (simp add: integrity_but_def)
qed

definition new_attempt :: "task \<Rightarrow> int \<Rightarrow> time \<Rightarrow> attempt" where
  "new_attempt t aid now =
     \<lparr>a_id = aid, a_task_id = t_id t, a_attempt_number = t_attempts t + 1, a_worker_id = None,
      a_status = ARunning, a_error_message = None, a_result = None, a_started_at = Some now,
      a_finished_at = None\<rparr>"

lemma start_attempt_effect:
  assumes "integrity_but {t_id t} s" "get_task_row (t_id t) s = Some t" "t_status t = Queued"
    and "fits t t Running"
  obtains now now' s' where "start_attempt cfg t s = Ok (started_row t now (db_now s), seq_attempt s) s'"
    and "integrity s'" and "attempts s' = attempts s @ [new_attempt t (seq_attempt s) now']"
    and "\<And>j. get_task_row j s' =
      (if j = t_id t then Some (started_row t now (db_now s)) else get_task_row j s)"
    and "outbox s' = outbox s" "seq_task s' = seq_task s" "seq_attempt s' = seq_attempt s + 1"
proof -
  have can: "can_transition (t_status t) Running" by (simp add: assms(3) can_transition_Running)
  let ?now = "transition_time t Running s"
  let ?obj = "fst (local_transition t Running ''task.running'' None s)"
  obtain s1 where set: "set_status cfg t Running ''task.running'' None s = Ok ?obj s1"
    and rows: "\<And>j. get_task_row j s1 =
      (if j = t_id t then Some (status_assignments t Running ?now (db_now s) t) else get_task_row j s)"
    and s1: "outbox s1 = outbox s" "attempts s1 = attempts s" "seq_attempt s1 = seq_attempt s"
      "db_now s1 = db_now s"
    by (rule set_status_effect [OF can _ assms(2)]) auto
  have seq1: "seq_task s1 = seq_task s"
    using set_status_frame(6) [of cfg t Running "''task.running''" None s] set by simp
  have I: "integrity s1"
    using integrity_set_status [OF assms(1,2,4) _ can, of "''task.running''" cfg None] set
    by (simp add: TASK_EVENT_TYPES_def)
  have obj: "?obj = status_assignments t Running ?now (db_now s) t" by (simp add: db_simps)
  let ?f = "\<lambda>r. r\<lparr>t_attempts := t_attempts t + 1, t_updated_at := db_now s\<rparr>"
  have final: "?f ?obj = started_row t ?now (db_now s)"
    using assms(3) unfolding obj by (simp add: started_row_def status_assignments_def)
  obtain st where started: "t_started_at (status_assignments t Running ?now (db_now s) t) = Some st"
    by (cases "t_started_at t") (simp_all add: status_assignments_def)
  let ?now' = "clock s1 (ticks s1)"
  let ?s2 = "s1\<lparr>tasks := update_row t_id (t_id t) ?f (tasks s1),
     ticks := Suc (ticks s1), attempts := attempts s1 @ [new_attempt t (seq_attempt s) ?now'],
     seq_attempt := seq_attempt s1 + 1\<rparr>"
  have row2: "get_task_row j ?s2 = (if j = t_id t then Some (?f ?obj) else get_task_row j s)" for j
    using rows [of j] obj by (auto simp: get_task_row_def table_simps)
  have J: "integrity ?s2"
    by (rule integrity_new_attempt [where row = ?obj, OF I _ _ _ _ _ _ refl])
      (use rows obj in \<open>simp_all add: counts_attempt_def new_attempt_def s1\<close>)
  let ?s' = "record_event (?f ?obj) ''task.attempt_started'' Running
      (Some (JObj [(''attempt_number'', JInt (t_attempts t + 1))])) ?s2"
  have "integrity ?s'"
    by (rule integrity_log_row [OF J])
      (use row2 [of "t_id t"] obj in \<open>simp_all add: TASK_EVENT_TYPES_def\<close>)
  moreover have "start_attempt cfg t s = Ok (?f ?obj, seq_attempt s) ?s'"
    by (simp add: started s1 start_attempt_def set obj db_simps assign_def Let_def now_utc_def insert_attempt_def
        new_attempt_def)
  ultimately show ?thesis
    unfolding final by (intro that [of ?now ?s' ?now']) (use row2 final in \<open>simp_all add: db_simps s1 seq1\<close>)
qed

section \<open>Closing the attempt\<close>

lemma integrity_set_attempt:
  assumes "integrity_but S s"
    and "\<And>a. a_id (f a) = a_id a \<and> a_task_id (f a) = a_task_id a \<and> a_attempt_number (f a) = a_attempt_number a \<and>
      (fits_width 2000 (a_error_message a) \<longrightarrow> fits_width 2000 (a_error_message (f a)))"
  shows "integrity_but S (set_attempt aid f s)"
proof -
  let ?s = "set_attempt aid f s"
  have ids: "map a_id (attempts ?s) = map a_id (attempts s)" "map a_task_id (attempts ?s) = map a_task_id (attempts s)"
    using assms(2) by (simp_all add: set_attempt_def update_row_def)
  have "map (\<lambda>a. (a_task_id a, a_attempt_number a)) (attempts ?s) =
      map (\<lambda>a. (a_task_id a, a_attempt_number a)) (attempts s)"
    using assms(2) by (simp add: set_attempt_def update_row_def)
  then have "map snd (filter (\<lambda>p. fst p = j) (map (\<lambda>a. (a_task_id a, a_attempt_number a)) (attempts ?s))) =
      map snd (filter (\<lambda>p. fst p = j) (map (\<lambda>a. (a_task_id a, a_attempt_number a)) (attempts s)))" for j
    by (simp only:)
  then have numbers: "attempt_numbers j ?s = attempt_numbers j s" for j
    by (simp add: attempt_numbers_def filter_map comp_def)
  have hist: "history j ?s = history j s" for j by (simp add: history_def set_attempt_def)
  have sets: "a_id ` set (attempts ?s) = a_id ` set (attempts s)"
    "a_task_id ` set (attempts ?s) = a_task_id ` set (attempts s)"
    using ids by (metis list.set_map)+
  have all: "(\<forall>a\<in>set (attempts ?s). P (a_id a)) = (\<forall>a\<in>set (attempts s). P (a_id a))"
    "(\<forall>a\<in>set (attempts ?s). P (a_task_id a)) = (\<forall>a\<in>set (attempts s). P (a_task_id a))" for P :: "int \<Rightarrow> bool"
    using sets by (metis (no_types, lifting) imageE imageI)+
  have texts: "\<forall>a\<in>set (attempts ?s). fits_width 2000 (a_error_message a)"
    if "\<forall>a\<in>set (attempts s). fits_width 2000 (a_error_message a)"
    using that assms(2) by (auto simp: set_attempt_def elim!: in_update_rowE)
  have rest: "tasks ?s = tasks s" "events ?s = events s" "dependencies ?s = dependencies s"
    "seq_task ?s = seq_task s" "seq_attempt ?s = seq_attempt s"
    by (simp_all add: set_attempt_def)
  show ?thesis
    using assms(1) unfolding integrity_defs numbers hist ids(1) rest
    using all(1) [of "\<lambda>i. i < seq_attempt s"] all(2) [of "\<lambda>i. i < seq_task s"] texts by blast
qed

lemma close_attempt_cases:
  obtains (closed) "close_attempt aid f s = Ok () (set_attempt aid f s)" "aid \<in> a_id ` set (attempts s)"
  | (gone) "close_attempt aid f s = Raise StaleDataError s" "aid \<notin> a_id ` set (attempts s)"
  by (cases "aid \<in> a_id ` set (attempts s)") (simp_all add: close_attempt_def)

definition held :: "task \<Rightarrow> bool" where
  \<comment> \<open>what a worker's object keeps from its claim\<close>
  "held obj \<longleftrightarrow> t_status obj = Running \<and> t_finished_at obj = None"

lemma integrity_assign_own:
  assumes "integrity s" "\<And>t. t_id (f t) = t_id t \<and> t_status (f t) = t_status t \<and> t_attempts (f t) = t_attempts t \<and>
    t_last_error (f t) = t_last_error t"
  shows "integrity_but {t_id obj} (snd (assign f (obj, s)))"
  using assms unfolding integrity_defs history_def attempt_numbers_def db_simps
  by (auto simp: table_simps set_update_row split: if_splits)

text \<open>
  A status change by a worker whose row is running: the object's own columns are the ones it
  wrote, on itself and on the row alike.
\<close>

lemma integrity_finish:
  assumes "integrity s" "held obj" "still_running obj s"
    and f: "\<And>t. t_id (f t) = t_id t \<and> t_status (f t) = t_status t \<and> t_attempts (f t) = t_attempts t \<and>
      t_last_error (f t) = t_last_error t \<and>
      t_finished_at (f t) = (if new \<in> set TERMINAL \<and> fin \<noteq> None then fin else t_finished_at t)"
    and "can_transition Running new" "ev \<in> set TASK_EVENT_TYPES"
  shows "integrity (final_state (set_status cfg (fst (assign f (obj, s))) new ev m (snd (assign f (obj, s)))))"
proof -
  let ?o = "fst (assign f (obj, s))" and ?s = "snd (assign f (obj, s))"
  obtain row where row: "get_task_row (t_id obj) s = Some row" "t_status row = Running"
    using assms(3) by (auto simp: still_running_def)
  then have fin: "t_finished_at row = None" using integrity_task_ok [OF assms(1) row(1)] by (simp add: task_ok_def)
  let ?g = "\<lambda>t. (f t)\<lparr>t_updated_at := db_now s\<rparr>"
  have id: "t_id ?o = t_id obj" using f by (simp add: db_simps)
  have row': "get_task_row (t_id ?o) ?s = Some (?g row)"
    using row f by (simp add: get_task_row_def db_simps table_simps)
  have "fits ?o (?g row) new"
    using row(2) fin assms(2) f can_transition_not_Timeout [OF assms(5)] can_transition_Running [of Running] assms(5)
    by (auto simp: fits_def held_def db_simps)
  moreover have "integrity_but {t_id ?o} ?s"
    unfolding id using assms(1) f by (intro integrity_assign_own) auto
  moreover have "can_transition (t_status ?o) new" using assms(2,5) f by (simp add: held_def db_simps)
  ultimately show ?thesis using row' assms(6) by (intro integrity_set_status)
qed

lemma still_running_frame [simp]:
  "still_running obj (set_attempt aid f s) = still_running obj s"
  "still_running obj (s\<lparr>ticks := n\<rparr>) = still_running obj s"
  by (simp_all add: still_running_def set_attempt_def get_task_row_def)

lemma integrity_ticks: "integrity_but S s \<Longrightarrow> integrity_but S (s\<lparr>ticks := n\<rparr>)"
  by (erule integrity_frame) simp_all

lemma integrity_record_success:
  assumes "integrity s" "held obj"
  shows "integrity (final_state (record_success cfg obj aid r s))"
proof -
  let ?s = "s\<lparr>ticks := Suc (ticks s)\<rparr>"
  let ?f = "\<lambda>a. a\<lparr>a_status := ASuccess, a_result := Some r, a_finished_at := Some (clock s (ticks s))\<rparr>"
  show ?thesis
  proof (cases rule: close_attempt_cases [of aid ?f ?s])
    case closed
    let ?s1 = "set_attempt aid ?f ?s"
    have I: "integrity ?s1" by (rule integrity_set_attempt [OF integrity_ticks [OF assms(1)]]) simp
    let ?now = "clock s (Suc (ticks s))" and ?s2 = "?s1\<lparr>ticks := Suc (ticks ?s1)\<rparr>"
    let ?g = "\<lambda>t. t\<lparr>t_result := Some r, t_finished_at := Some ?now\<rparr>"
    have "integrity (final_state (set_status cfg (fst (assign ?g (obj, ?s2))) Success ''task.succeeded'' None
        (snd (assign ?g (obj, ?s2)))))" if "still_running obj s"
      by (rule integrity_finish [where fin = "Some ?now", OF integrity_ticks [OF I] assms(2)])
        (use that in \<open>simp_all add: can_transition_def TASK_EVENT_TYPES_def\<close>)
    moreover have "clock ?s1 = clock s" "ticks ?s1 = Suc (ticks s)" by (simp_all add: set_attempt_def)
    ultimately show ?thesis
      using closed I by (simp add: record_success_def now_utc_def case_prod_beta Let_def)
  qed (simp add: record_success_def now_utc_def integrity_ticks assms(1))
qed

lemma integrity_schedule_retry:
  assumes "integrity s" "held obj" "still_running obj s"
  shows "integrity (final_state (schedule_retry cfg obj n s))"
proof -
  let ?s = "s\<lparr>ticks := Suc (ticks s)\<rparr>"
  have "integrity (final_state (set_status cfg (fst (assign f (obj, ?s))) RetryScheduled
      ''task.retry_scheduled'' m (snd (assign f (obj, ?s)))))"
    if "f = (\<lambda>t. t\<lparr>t_scheduled_at := run_at\<rparr>)" for f run_at m
    by (rule integrity_finish [where fin = None, OF integrity_ticks [OF assms(1)] assms(2)])
      (use that assms(3) in \<open>simp_all add: can_transition_def TASK_EVENT_TYPES_def\<close>)
  then show ?thesis by (simp add: schedule_retry_def now_utc_def case_prod_beta Let_def)
qed

lemma integrity_end_in_failure:
  assumes "integrity s" "held obj" "still_running obj s"
  shows "integrity (final_state (end_in_failure cfg obj n e retryable s))"
proof -
  let ?new = "if retryable then DeadLetter else Failed"
  let ?ev = "if retryable then ''task.dead_lettered'' else ''task.failed''"
  let ?m = "Some (JObj [(''attempt_number'', JInt n), (''error'', JStr e)])"
  obtain row where row: "get_task_row (t_id obj) s = Some row" "t_status row = Running"
    using assms(3) by (auto simp: still_running_def)
  have can: "can_transition (t_status obj) ?new"
    using assms(2) by (simp add: held_def can_transition_def)
  have "fits obj row ?new"
    using row(2) assms(2) integrity_task_ok [OF assms(1) row(1)] by (auto simp: fits_def held_def task_ok_def)
  then have I: "integrity (final_state (set_status cfg obj ?new ?ev ?m s))"
    using assms(1) row(1) can
    by (intro integrity_set_status) (auto intro: integrity_weaken simp: TASK_EVENT_TYPES_def)
  have D: "integrity (snd (set_dlq_retry cfg o1 s1))" if "integrity s1" for o1 s1
    using that by (auto simp: set_dlq_retry_def now_utc_def keeps_task_def
        intro!: integrity_assign integrity_ticks split: prod.split)
  show ?thesis
  proof (cases "set_status cfg obj ?new ?ev ?m s")
    case (Ok o1 s1)
    then show ?thesis using I D [of s1 o1] by (simp add: end_in_failure_def case_prod_beta)
  qed (use I in \<open>simp add: end_in_failure_def\<close>)
qed

lemma held_assign: "held obj \<Longrightarrow> (\<And>t. t_status (f t) = t_status t \<and> t_finished_at (f t) = t_finished_at t) \<Longrightarrow>
   held (fst (assign f (obj, s)))"
  by (simp add: held_def db_simps)

lemma still_running_assign:
  assumes "still_running obj s" "\<And>t. t_id (f t) = t_id t \<and> t_status (f t) = t_status t"
  shows "still_running (fst (assign f (obj, s))) (snd (assign f (obj, s)))"
  using assms by (auto simp: still_running_def get_task_row_def db_simps table_simps)

lemma integrity_record_failure:
  assumes "integrity s" "held obj"
  shows "integrity (final_state (record_failure cfg obj aid e retryable s))"
proof -
  let ?s = "s\<lparr>ticks := Suc (ticks s)\<rparr>" and ?e = "take 2000 e"
  let ?f = "\<lambda>a. a\<lparr>a_status := AFailed, a_error_message := Some ?e, a_finished_at := Some (clock s (ticks s))\<rparr>"
  show ?thesis
  proof (cases rule: close_attempt_cases [of aid ?f ?s])
    case closed
    let ?s1 = "set_attempt aid ?f ?s" and ?g = "\<lambda>t. t\<lparr>t_last_error := Some ?e\<rparr>"
    have I: "integrity ?s1" by (rule integrity_set_attempt [OF integrity_ticks [OF assms(1)]]) simp
    let ?o = "fst (assign ?g (obj, ?s1))" and ?s2 = "snd (assign ?g (obj, ?s1))"
    have J: "integrity ?s2" by (rule integrity_assign [OF I]) (simp add: keeps_task_def)
    have H: "held ?o" by (rule held_assign [OF assms(2)]) simp
    have R: "still_running ?o ?s2" if "still_running obj s"
      by (rule still_running_assign) (simp_all add: that)
    show ?thesis
      using closed I R J H integrity_schedule_retry [OF J H] integrity_end_in_failure [OF J H]
      by (simp add: record_failure_def now_utc_def case_prod_beta Let_def)
  qed (simp add: record_failure_def now_utc_def integrity_ticks assms(1) Let_def)
qed

lemma integrity_renew_lease:
  assumes "integrity s"
  shows "integrity (snd (renew_lease tid w n s))"
proof (cases "get_task_row tid s")
  case (Some t)
  have "integrity (s\<lparr>ticks := k, tasks := update_row t_id tid
      (\<lambda>t. t\<lparr>t_lease_expires_at := Some e, t_updated_at := u\<rparr>) (tasks s)\<rparr>)"
    if "t_status t = Running" for k e u
  proof -
    have "t_status r = Running" if "r \<in> set (tasks s)" "t_id r = tid" for r
      using integrity_get_task [OF assms that(1)] that Some \<open>t_status t = Running\<close> by simp
    then show ?thesis
      using assms unfolding integrity_defs history_def attempt_numbers_def task_ok_def
      by (auto simp: table_simps set_update_row split: if_splits)
  qed
  then show ?thesis
    using Some assms by (auto simp: renew_lease_def now_utc_def get_task_row_def integrity_ticks)
qed (simp add: renew_lease_def now_utc_def get_task_row_def integrity_ticks assms)

section \<open>The claim transaction\<close>

definition claimed_row :: "settings \<Rightarrow> string \<Rightarrow> task \<Rightarrow> time \<Rightarrow> db \<Rightarrow> task" where
  \<comment> \<open>the row of a claimed task: \<open>now\<close> is the reading its start gets if it had none\<close>
  "claimed_row cfg worker_id t now s =
     started_row (leased_row worker_id (clock s (ticks s + 1) + timedelta_seconds (task_lease_seconds cfg)) (db_now s) t)
       now (db_now s)"

lemma claimed_row_simps [simp]:
  "t_id (claimed_row cfg w t now s) = t_id t"
  "t_status (claimed_row cfg w t now s) = Running"
  "t_attempts (claimed_row cfg w t now s) = t_attempts t + 1"
  "t_finished_at (claimed_row cfg w t now s) = t_finished_at t"
  "t_lease_owner (claimed_row cfg w t now s) = Some w"
  "t_lease_expires_at (claimed_row cfg w t now s) =
     Some (clock s (ticks s + 1) + timedelta_seconds (task_lease_seconds cfg))"
  by (simp_all add: claimed_row_def started_row_def)

definition claimed_attempt :: "string \<Rightarrow> task \<Rightarrow> time \<Rightarrow> db \<Rightarrow> attempt" where
  "claimed_attempt worker_id t now s = (new_attempt t (seq_attempt s) now)\<lparr>a_worker_id := Some worker_id\<rparr>"

lemma claim_cases:
  assumes "integrity s"
  obtains (refused) "claim cfg w tid s = Ok NotAcquired (s\<lparr>ticks := ticks s + 2\<rparr>)"
      "\<And>t. get_task_row tid s = Some t \<Longrightarrow> t_status t \<noteq> Queued \<or> \<not> lease_free (clock s (ticks s)) t"
  | (claimed) t now now' s' where "get_task_row tid s = Some t" "t_status t = Queued"
      "lease_free (clock s (ticks s)) t"
      "claim cfg w tid s = Ok (Claimed (claimed_row cfg w t now s) (seq_attempt s)) s'"
      "integrity s'" "held (claimed_row cfg w t now s)"
      "\<And>j. get_task_row j s' = (if j = tid then Some (claimed_row cfg w t now s) else get_task_row j s)"
      "attempts s' = attempts s @ [claimed_attempt w t now' s]"
      "outbox s' = outbox s" "later s s'"
proof (cases rule: try_acquire_lease_cases [of tid s w "task_lease_seconds cfg"])
  case refused
  then show ?thesis using that(1) by (simp add: claim_def)
next
  case (acquired t)
  let ?e = "clock s (ticks s + 1) + timedelta_seconds (task_lease_seconds cfg)"
  let ?s = "s\<lparr>ticks := ticks s + 2, tasks := update_row t_id tid (leased_row w ?e (db_now s)) (tasks s)\<rparr>"
  let ?t = "leased_row w ?e (db_now s) t"
  have id: "t_id t = tid" using get_task_row_SomeD [OF acquired(1)] by simp
  have rows: "get_task_row j ?s = (if j = tid then Some ?t else get_task_row j s)" for j
    using acquired(1) by (simp add: get_task_row_def table_simps)
  have fin: "t_finished_at t = None"
    using integrity_task_ok [OF assms acquired(1)] acquired(2) by (simp add: task_ok_def)
  have "fits ?t ?t Running" using acquired(2) fin by (simp add: fits_def)
  moreover have "integrity_but {t_id ?t} ?s" using integrity_leased [OF assms] id by simp
  ultimately obtain now now' s1 where start: "start_attempt cfg ?t ?s = Ok (started_row ?t now (db_now ?s), seq_attempt ?s) s1"
    "integrity s1" "attempts s1 = attempts ?s @ [new_attempt ?t (seq_attempt ?s) now']"
    "\<And>j. get_task_row j s1 = (if j = t_id ?t then Some (started_row ?t now (db_now ?s)) else get_task_row j ?s)"
    "outbox s1 = outbox ?s" "seq_task s1 = seq_task ?s" "seq_attempt s1 = seq_attempt ?s + 1"
    using start_attempt_effect [of ?t ?s] rows [of tid] id acquired(2) by (metis leased_row_simps(1,2))
  let ?f = "\<lambda>a. a\<lparr>a_worker_id := Some w\<rparr>"
  let ?s' = "set_attempt (seq_attempt s) ?f s1"
  have "\<forall>a\<in>set (attempts s). a_id a \<noteq> seq_attempt s"
    using assms by (auto simp: integrity_but_def keys_ok_def)
  then have "attempts ?s' = attempts s @ [claimed_attempt w t now' s]"
    using start(3) by (auto simp: set_attempt_def update_row_def claimed_attempt_def new_attempt_def intro: map_idI)
  moreover have "claim cfg w tid s = Ok (Claimed (claimed_row cfg w t now s) (seq_attempt s)) ?s'"
    using acquired(4) start(1) rows [of tid] id by (simp add: claim_def get_task_def claimed_row_def)
  moreover have "integrity ?s'" by (rule integrity_set_attempt [OF start(2)]) simp
  moreover have "get_task_row j ?s' = (if j = tid then Some (claimed_row cfg w t now s) else get_task_row j s)" for j
    using start(4) [of j] rows [of j] id by (simp add: set_attempt_def get_task_row_def claimed_row_def)
  ultimately show ?thesis
    using acquired start(5-7) fin
    by (intro that(2) [of t now ?s' now']) (simp_all add: held_def later_def set_attempt_def)
qed

lemma integrity_claim: "integrity s \<Longrightarrow> integrity (final_state (claim cfg w tid s))"
  by (cases rule: claim_cases [of s cfg w tid]) (simp_all add: integrity_ticks)

lemma integrity_finish_transaction:
  "integrity s \<Longrightarrow> held obj \<Longrightarrow> integrity (final_state (finish cfg obj aid outcome s))"
  by (cases outcome) (simp_all add: finish_def integrity_record_success integrity_record_failure)

end
