(* ===== verification/Finish_Correct.thy ===== *)
theory Finish_Correct
  imports Attempts_Correct
begin

text \<open>
  The exact effect of the two ways to finish an attempt: a success queues the children that
  wait for nothing else, a failure schedules a retry or ends the task and cancels its blocked
  descendants.
\<close>

section \<open>What a successful attempt does\<close>

lemma status_of_assign:
  "(\<And>t. t_id (f t) = t_id t \<and> t_status (f t) = t_status t) \<Longrightarrow>
   status_of j (snd (assign f (obj, s))) = status_of j s"
  by (cases "get_task_row j s") (auto simp: status_of_def get_task_row_def db_simps table_simps)

lemma get_task_row_assign_other:
  "(\<And>t. t_id (f t) = t_id t) \<Longrightarrow> j \<noteq> t_id obj \<Longrightarrow>
   get_task_row j (snd (assign f (obj, s))) = get_task_row j s"
  by (simp add: get_task_row_def db_simps table_simps)

lemma assign_frame [simp]:
  "dependencies (snd (assign f (obj, s))) = dependencies s"
  "outbox (snd (assign f (obj, s))) = outbox s"
  "attempts (snd (assign f (obj, s))) = attempts s"
  "clock (snd (assign f (obj, s))) = clock s"
  "ticks (snd (assign f (obj, s))) = ticks s"
  "db_now (snd (assign f (obj, s))) = db_now s"
  by (simp_all add: db_simps)

lemma unblocked_by_cong:
  "dependencies s1 = dependencies s \<Longrightarrow> (\<And>j. status_of j s1 = status_of j s) \<Longrightarrow>
   unblocked_by s1 p = unblocked_by s p"
  by (simp add: unblocked_by_def children_of_def parents_of_def fun_eq_iff)

lemma record_success_effect:
  assumes "integrity s" "held obj" "still_running obj s" "aid \<in> a_id ` set (attempts s)"
  obtains obj' s' where "record_success cfg obj aid r s = Ok obj' s'"
    and "\<And>j. status_of j s' = (if j = t_id obj then Some Success
        else if unblocked_by s (t_id obj) j then Some Queued else status_of j s)"
    and "publishes cfg s s' (map (\<lambda>c. task_message (the (get_task_row c s)))
        (filter (unblocked_by s (t_id obj)) (children_of (t_id obj) s)))"
    and "map_option t_result (get_task_row (t_id obj) s') = Some (Some r)"
    and "attempts s' = update_row a_id aid (\<lambda>a. a\<lparr>a_status := ASuccess, a_result := Some r,
        a_finished_at := Some (clock s (ticks s))\<rparr>) (attempts s)"
proof -
  let ?p = "t_id obj" and ?s = "s\<lparr>ticks := Suc (ticks s)\<rparr>"
  let ?f = "\<lambda>a. a\<lparr>a_status := ASuccess, a_result := Some r, a_finished_at := Some (clock s (ticks s))\<rparr>"
  let ?s1 = "set_attempt aid ?f ?s"
  let ?now = "clock ?s1 (ticks ?s1)" and ?s2 = "?s1\<lparr>ticks := Suc (ticks ?s1)\<rparr>"
  let ?g = "\<lambda>t. t\<lparr>t_result := Some r, t_finished_at := Some ?now\<rparr>"
  let ?o = "fst (assign ?g (obj, ?s2))" and ?s3 = "snd (assign ?g (obj, ?s2))"
  have same: "tasks ?s2 = tasks s" "dependencies ?s2 = dependencies s" "outbox ?s2 = outbox s"
    by (simp_all add: set_attempt_def)
  have st2: "status_of j ?s2 = status_of j s" "get_task_row j ?s2 = get_task_row j s" for j
    by (simp_all add: status_of_def get_task_row_def same)
  have st3: "status_of j ?s3 = status_of j s" for j
    using status_of_assign [of ?g j obj ?s2] st2 by simp
  have id: "t_id ?o = ?p" "t_status ?o = Running"
    using assms(2) by (simp_all add: db_simps held_def)
  have dist: "distinct (map t_id (tasks ?s3))"
    using integrity_distinct [OF assms(1)] by (simp add: db_simps table_simps same)
  have ch: "children_of j ?s3 = children_of j s" for j by (simp add: children_of_def same)
  have run: "status_of ?p ?s3 = Some Running"
    using assms(3) by (simp add: st3) (simp add: status_of_def still_running_def)
  have unb: "unblocked_by ?s3 = unblocked_by s"
    by (intro ext, subst unblocked_by_cong [of ?s3 s]) (simp_all add: same st3)
  obtain obj' s' where set: "set_status cfg ?o Success ''task.succeeded'' None ?s3 = Ok obj' s'"
    and st: "\<And>j. status_of j s' = (if j = ?p then Some Success
        else if unblocked_by s ?p j then Some Queued else status_of j s)"
    and pub: "publishes cfg ?s3 s' (map (\<lambda>c. task_message (the (get_task_row c ?s3)))
        (filter (unblocked_by s ?p) (children_of ?p s)))"
    using set_status_success_spec [OF id(2) dist, of cfg "''task.succeeded''" None]
      integrity_distinct_children [OF assms(1)] run unfolding id ch unb st3 by metis
  have rec: "record_success cfg obj aid r s = Ok obj' s'"
    using set assms(3,4)
    by (simp add: record_success_def now_utc_def close_attempt_def case_prod_beta Let_def)
  have "map (\<lambda>c. task_message (the (get_task_row c ?s3))) (filter (unblocked_by s ?p) (children_of ?p s)) =
      map (\<lambda>c. task_message (the (get_task_row c s))) (filter (unblocked_by s ?p) (children_of ?p s))"
  proof (intro map_cong refl)
    fix c assume "c \<in> set (filter (unblocked_by s ?p) (children_of ?p s))"
    then have "c \<noteq> ?p" using run st3 [of ?p] by (auto simp: unblocked_by_def)
    then show "task_message (the (get_task_row c ?s3)) = task_message (the (get_task_row c s))"
      using get_task_row_assign_other [of ?g c obj ?s2] st2(2) [of c] by simp
  qed
  note eq = this
  have "publishes cfg ?s3 s' (map (\<lambda>c. task_message (the (get_task_row c s)))
      (filter (unblocked_by s ?p) (children_of ?p s)))"
    using pub by (simp only: eq)
  then have pub': "publishes cfg s s' (map (\<lambda>c. task_message (the (get_task_row c s)))
      (filter (unblocked_by s ?p) (children_of ?p s)))"
    by (rule publishes_cong) (simp add: same)
  obtain row where row: "get_task_row ?p s = Some row"
    using assms(3) by (auto simp: still_running_def)
  have "get_task_row ?p ?s3 = Some ((?g row)\<lparr>t_updated_at := db_now ?s2\<rparr>)"
    using row by (simp add: get_task_row_def db_simps table_simps same)
  then have "map_option t_result (get_task_row ?p s') = Some (Some r)"
    using set_status_own_row [of ?o Success ?s3 _ cfg "''task.succeeded''" None] set id
    by (simp add: can_transition_def)
  moreover have "attempts s' = update_row a_id aid ?f (attempts s)"
    using set_status_frame(1) [of cfg ?o Success "''task.succeeded''" None ?s3] set
    by (simp add: set_attempt_def)
  ultimately show ?thesis using that rec st pub' by blast
qed

section \<open>What a failed attempt does\<close>

definition failure_status :: "task \<Rightarrow> bool \<Rightarrow> task_status" where
  "failure_status obj retryable =
     (if \<not> retryable then Failed
      else if t_attempts obj < t_max_attempts obj then RetryScheduled else DeadLetter)"

definition failed_row :: "settings \<Rightarrow> task \<Rightarrow> string \<Rightarrow> bool \<Rightarrow> db \<Rightarrow> task \<Rightarrow> bool" where
  \<comment> \<open>the row a failed attempt leaves; \<open>s\<close> is the state before\<close>
  "failed_row cfg obj error retryable s t \<longleftrightarrow>
     t_status t = failure_status obj retryable \<and> t_last_error t = Some (take 2000 error) \<and>
     t_lease_owner t = None \<and> t_lease_expires_at t = None \<and>
     (t_status t = RetryScheduled \<longrightarrow> t_scheduled_at t =
        Some (clock s (Suc (ticks s)) + timedelta_seconds (compute_retry_delay_seconds cfg (t_attempts obj)))) \<and>
     (t_status t = DeadLetter \<longrightarrow>
        (if dlq_retry_enabled cfg \<and> t_dlq_requeue_count obj < dlq_retry_max_cycles cfg
         then \<exists>n. t_dlq_retry_at t = Some (clock s n + timedelta_seconds (dlq_retry_interval_seconds cfg))
         else t_dlq_retry_at t = None))"

lemma still_running_row:
  "still_running obj s \<longleftrightarrow> (\<exists>row. get_task_row (t_id obj) s = Some row \<and> t_status row = Running)"
  by (auto simp: still_running_def)

lemma schedule_retry_effect:
  assumes "held obj" "still_running obj s"
  obtains obj' s' t where "schedule_retry cfg obj n s = Ok obj' s'"
    and "get_task_row (t_id obj) s' = Some t" "t_status t = RetryScheduled"
    and "\<And>row. get_task_row (t_id obj) s = Some row \<Longrightarrow> t_last_error t = t_last_error row"
    and "t_lease_owner t = None" "t_lease_expires_at t = None"
    and "t_scheduled_at t =
      Some (clock s (ticks s) + timedelta_seconds (compute_retry_delay_seconds cfg (t_attempts obj)))"
    and "\<And>j. j \<noteq> t_id obj \<Longrightarrow> get_task_row j s' = get_task_row j s" "outbox s' = outbox s" "attempts s' = attempts s"
proof -
  obtain row where row: "get_task_row (t_id obj) s = Some row" "t_status row = Running"
    using assms(2) by (auto simp: still_running_row)
  let ?d = "compute_retry_delay_seconds cfg (t_attempts obj)" and ?s = "s\<lparr>ticks := Suc (ticks s)\<rparr>"
  let ?at = "clock s (ticks s) + timedelta_seconds ?d"
  let ?f = "\<lambda>t. t\<lparr>t_scheduled_at := Some ?at\<rparr>"
  let ?o = "fst (assign ?f (obj, ?s))" and ?s1 = "snd (assign ?f (obj, ?s))"
  let ?m = "Some (JObj [(''attempt_number'', JInt n), (''backoff_seconds'', JNum ?d), (''retry_at'', JIso ?at)])"
  let ?row = "(?f row)\<lparr>t_updated_at := db_now ?s\<rparr>"
  have id: "t_id ?o = t_id obj" "t_status ?o = Running" using assms(1) by (simp_all add: db_simps held_def)
  have row1: "get_task_row (t_id ?o) ?s1 = Some ?row"
    using row(1) id(1) by (simp add: get_task_row_def db_simps table_simps)
  have can: "can_transition (t_status ?o) RetryScheduled" unfolding id by (simp add: can_transition_def)
  let ?t = "status_assignments ?o RetryScheduled (transition_time ?o RetryScheduled ?s1) (db_now ?s1) ?row"
  obtain s' where set: "set_status cfg ?o RetryScheduled ''task.retry_scheduled'' ?m ?s1 =
      Ok (fst (local_transition ?o RetryScheduled ''task.retry_scheduled'' ?m ?s1)) s'"
    and rows: "\<And>j. get_task_row j s' = (if j = t_id ?o then Some ?t else get_task_row j ?s1)"
    and rest: "outbox s' = outbox ?s1" "attempts s' = attempts ?s1"
    by (rule set_status_effect [OF can _ row1]) auto
  have sched: "schedule_retry cfg obj n s = Ok (fst (local_transition ?o RetryScheduled ''task.retry_scheduled'' ?m ?s1)) s'"
    using set by (simp add: schedule_retry_def now_utc_def case_prod_beta Let_def)
  have fields: "t_status ?t = RetryScheduled" "t_last_error ?t = t_last_error row" "t_lease_owner ?t = None"
    "t_lease_expires_at ?t = None" "t_scheduled_at ?t = Some ?at"
    using id(2) by (simp_all add: status_assignments_def)
  have "get_task_row (t_id obj) s' = Some ?t" using rows [of "t_id obj"] id(1) by simp
  moreover have "get_task_row j s' = get_task_row j s" if "j \<noteq> t_id obj" for j
    using rows [of j] that get_task_row_assign_other [of ?f j obj ?s] id(1) by (simp add: get_task_row_def)
  ultimately show ?thesis
    using that [OF sched _ fields(1) _ fields(3,4,5)] fields(2) row(1) rest by auto
qed

definition dlq_time_ok :: "settings \<Rightarrow> task \<Rightarrow> (nat \<Rightarrow> time) \<Rightarrow> time option \<Rightarrow> bool" where
  "dlq_time_ok cfg obj readings at_time \<longleftrightarrow>
     (if dlq_retry_enabled cfg \<and> t_dlq_requeue_count obj < dlq_retry_max_cycles cfg
      then \<exists>n. at_time = Some (readings n + timedelta_seconds (dlq_retry_interval_seconds cfg))
      else at_time = None)"

lemma set_dlq_retry_effect:
  assumes "get_task_row (t_id obj) s = Some row"
  obtains at_time where "get_task_row (t_id obj) (snd (set_dlq_retry cfg obj s)) =
      Some (row\<lparr>t_dlq_retry_at := at_time, t_updated_at := db_now s\<rparr>)"
    and "dlq_time_ok cfg obj (clock s) at_time"
    and "\<And>j. status_of j (snd (set_dlq_retry cfg obj s)) = status_of j s"
    and "outbox (snd (set_dlq_retry cfg obj s)) = outbox s"
    and "attempts (snd (set_dlq_retry cfg obj s)) = attempts s"
proof (cases "dlq_retry_enabled cfg \<and> t_dlq_requeue_count obj < dlq_retry_max_cycles cfg")
  case True
  let ?s = "s\<lparr>ticks := Suc (ticks s)\<rparr>"
  let ?at = "Some (clock s (ticks s) + timedelta_seconds (dlq_retry_interval_seconds cfg))"
  let ?f = "\<lambda>t. t\<lparr>t_dlq_retry_at := ?at\<rparr>"
  have eq: "set_dlq_retry cfg obj s = assign ?f (obj, ?s)"
    using True by (simp add: set_dlq_retry_def now_utc_def)
  have st: "status_of j (snd (assign ?f (obj, ?s))) = status_of j s" for j
    by (subst status_of_assign) (simp_all add: status_of_def get_task_row_def)
  show ?thesis
    by (rule that [of ?at])
      (use assms True st in \<open>auto simp: eq get_task_row_def db_simps table_simps dlq_time_ok_def\<close>)
next
  case False
  let ?f = "\<lambda>t. t\<lparr>t_dlq_retry_at := None\<rparr>"
  have eq: "set_dlq_retry cfg obj s = assign ?f (obj, s)"
    using False by (auto simp: set_dlq_retry_def)
  have st: "status_of j (snd (assign ?f (obj, s))) = status_of j s" for j
    by (subst status_of_assign) simp_all
  show ?thesis
    by (rule that [of None])
      (use assms False st in \<open>auto simp: eq get_task_row_def db_simps table_simps dlq_time_ok_def\<close>)
qed

lemma end_in_failure_effect:
  assumes "held obj" "still_running obj s" and new_def: "new = (if retryable then DeadLetter else Failed)"
  obtains obj' s' t where "end_in_failure cfg obj n e retryable s = Ok obj' s'"
    and "get_task_row (t_id obj) s' = Some t" "t_status t = new"
    and "\<And>row. get_task_row (t_id obj) s = Some row \<Longrightarrow> t_last_error t = t_last_error row"
    and "t_lease_owner t = None" "t_lease_expires_at t = None"
    and "retryable \<Longrightarrow> dlq_time_ok cfg obj (clock s) (t_dlq_retry_at t)"
    and "\<And>j. status_of j s' = cancel_spec s (t_id obj) new j" "outbox s' = outbox s" "attempts s' = attempts s"
proof -
  obtain row where row: "get_task_row (t_id obj) s = Some row" "t_status row = Running"
    using assms(2) by (auto simp: still_running_row)
  have run: "t_status obj = Running" using assms(1) by (simp add: held_def)
  let ?ev = "if retryable then ''task.dead_lettered'' else ''task.failed''"
  let ?m = "Some (JObj [(''attempt_number'', JInt n), (''error'', JStr e)])"
  have new: "new \<in> set TERMINAL" "new \<noteq> Success" "can_transition (t_status obj) new"
    by (simp_all add: new_def run can_transition_def)
  obtain o1 s1 where set: "set_status cfg obj new ?ev ?m s = Ok o1 s1"
    and st: "\<And>j. status_of j s1 = cancel_spec s (t_id obj) new j" and out: "outbox s1 = outbox s"
    using set_status_cancels [OF new(3,1,2)] by blast
  have o1: "o1 = fst (local_transition obj new ?ev ?m s)" by (rule set_status_Ok_obj [OF new(3) set])
  have o1': "t_id o1 = t_id obj" "t_dlq_requeue_count o1 = t_dlq_requeue_count obj"
    unfolding o1 by (simp_all add: db_simps)
  let ?row = "status_assignments obj new (transition_time obj new s) (db_now s) row"
  have row1: "get_task_row (t_id o1) s1 = Some ?row"
    using set_status_own_row [OF new(3) row(1), of cfg ?ev ?m] set o1' by simp
  have frame: "attempts s1 = attempts s" "clock s1 = clock s"
    using set_status_frame(1,8) [of cfg obj new ?ev ?m s] set by simp_all
  have fields: "t_status ?row = new" "t_last_error ?row = t_last_error row" "t_lease_owner ?row = None"
    "t_lease_expires_at ?row = None"
    using run new_def by (simp_all add: status_assignments_def)
  show ?thesis
  proof (cases retryable)
    case False
    have "end_in_failure cfg obj n e retryable s = Ok o1 s1"
      using set False by (simp add: end_in_failure_def new_def)
    then show ?thesis
      by (rule that [OF _ row1 [unfolded o1'] fields(1) _ fields(3,4)])
        (use fields(2) row False st out frame in auto)
  next
    case True
    obtain at_time where dlq: "get_task_row (t_id o1) (snd (set_dlq_retry cfg o1 s1)) =
        Some (?row\<lparr>t_dlq_retry_at := at_time, t_updated_at := db_now s1\<rparr>)"
      "dlq_time_ok cfg o1 (clock s1) at_time"
      "\<And>j. status_of j (snd (set_dlq_retry cfg o1 s1)) = status_of j s1"
      "outbox (snd (set_dlq_retry cfg o1 s1)) = outbox s1"
      "attempts (snd (set_dlq_retry cfg o1 s1)) = attempts s1"
      by (rule set_dlq_retry_effect [OF row1, where cfg = cfg]) blast
    have "end_in_failure cfg obj n e retryable s =
        Ok (fst (set_dlq_retry cfg o1 s1)) (snd (set_dlq_retry cfg o1 s1))"
      using set True by (simp add: end_in_failure_def new_def case_prod_beta)
    then show ?thesis
      by (rule that [OF _ dlq(1) [unfolded o1']])
        (use fields row st out frame dlq o1' in \<open>auto simp: dlq_time_ok_def\<close>)
  qed
qed

lemma record_failure_effect:
  assumes "integrity s" "held obj" "still_running obj s" "aid \<in> a_id ` set (attempts s)"
  obtains obj' s' t where "record_failure cfg obj aid e retryable s = Ok obj' s'"
    and "get_task_row (t_id obj) s' = Some t" "failed_row cfg obj e retryable s t"
    and "\<And>j. j \<noteq> t_id obj \<Longrightarrow> status_of j s' =
      (if failure_status obj retryable \<noteq> RetryScheduled \<and> blocked_below s (t_id obj) j
       then Some Cancelled else status_of j s)"
    and "outbox s' = outbox s"
    and "attempts s' = update_row a_id aid (\<lambda>a. a\<lparr>a_status := AFailed,
        a_error_message := Some (take 2000 e), a_finished_at := Some (clock s (ticks s))\<rparr>) (attempts s)"
proof -
  let ?p = "t_id obj" and ?s = "s\<lparr>ticks := Suc (ticks s)\<rparr>" and ?e = "take 2000 e"
  let ?f = "\<lambda>a. a\<lparr>a_status := AFailed, a_error_message := Some ?e, a_finished_at := Some (clock s (ticks s))\<rparr>"
  let ?s1 = "set_attempt aid ?f ?s" and ?g = "\<lambda>t. t\<lparr>t_last_error := Some ?e\<rparr>"
  let ?o = "fst (assign ?g (obj, ?s1))" and ?s2 = "snd (assign ?g (obj, ?s1))"
  let ?n = "attempt_number_of aid ?s"
  have s1: "tasks ?s1 = tasks s" "dependencies ?s1 = dependencies s" "outbox ?s1 = outbox s"
    "clock ?s1 = clock s" "ticks ?s1 = Suc (ticks s)"
    by (simp_all add: set_attempt_def)
  have att: "attempts ?s1 = update_row a_id aid ?f (attempts s)" by (simp add: set_attempt_def)
  have H: "held ?o" by (rule held_assign [OF assms(2)]) simp
  have R: "still_running ?o ?s2" by (rule still_running_assign) (simp_all add: assms(3))
  have o: "t_id ?o = ?p" "t_attempts ?o = t_attempts obj" "t_max_attempts ?o = t_max_attempts obj"
    "t_dlq_requeue_count ?o = t_dlq_requeue_count obj"
    by (simp_all add: db_simps)
  have st2: "status_of j ?s2 = status_of j s" for j
    by (subst status_of_assign) (simp_all add: status_of_def get_task_row_def s1)
  have blocked: "blocked_below ?s2 = blocked_below s"
    by (intro ext iffI; erule blocked_below_mono) (simp_all add: st2 s1)
  obtain row where row: "get_task_row ?p s = Some row" using assms(3) by (auto simp: still_running_def)
  have err: "t_last_error r = Some ?e" if "get_task_row ?p ?s2 = Some r" for r
    using that row by (auto simp: get_task_row_def db_simps table_simps s1)
  have rec: "record_failure cfg obj aid e retryable s =
      (if retryable \<and> t_attempts ?o < t_max_attempts ?o then schedule_retry cfg ?o ?n ?s2
       else end_in_failure cfg ?o ?n ?e retryable ?s2)"
    using assms(3,4) by (simp add: record_failure_def now_utc_def close_attempt_def case_prod_beta Let_def)
  show ?thesis
  proof (cases "retryable \<and> t_attempts obj < t_max_attempts obj")
    case True
    obtain obj' s' t where r: "schedule_retry cfg ?o ?n ?s2 = Ok obj' s'"
      "get_task_row ?p s' = Some t" "t_status t = RetryScheduled" "t_last_error t = Some ?e"
      "t_lease_owner t = None" "t_lease_expires_at t = None"
      "t_scheduled_at t = Some (clock ?s2 (ticks ?s2) +
         timedelta_seconds (compute_retry_delay_seconds cfg (t_attempts ?o)))"
      "\<And>j. j \<noteq> ?p \<Longrightarrow> get_task_row j s' = get_task_row j ?s2" "outbox s' = outbox ?s2" "attempts s' = attempts ?s2"
      by (rule schedule_retry_effect [OF H R, of cfg ?n, unfolded o(1)])
        (use err row in \<open>auto simp: get_task_row_def db_simps table_simps s1\<close>)
    have "status_of j s' = status_of j s" if "j \<noteq> ?p" for j
      using r(8) [OF that] st2 [of j] by (simp add: status_of_def)
    moreover have retry: "failure_status obj retryable = RetryScheduled" using True by (simp add: failure_status_def)
    moreover have "failed_row cfg obj e retryable s t"
      using r(3-7) retry by (simp add: failed_row_def o s1)
    moreover have "record_failure cfg obj aid e retryable s = Ok obj' s'"
      unfolding rec o using r(1) True by simp
    ultimately show ?thesis
      using that [of obj' s' t] r(2,9,10) by (simp add: s1 att)
  next
    case False
    let ?new = "if retryable then DeadLetter else Failed"
    obtain obj' s' t where r: "end_in_failure cfg ?o ?n ?e retryable ?s2 = Ok obj' s'"
      "get_task_row ?p s' = Some t" "t_status t = ?new" "t_last_error t = Some ?e"
      "t_lease_owner t = None" "t_lease_expires_at t = None"
      "retryable \<Longrightarrow> dlq_time_ok cfg ?o (clock ?s2) (t_dlq_retry_at t)"
      "\<And>j. status_of j s' = cancel_spec ?s2 ?p ?new j" "outbox s' = outbox ?s2" "attempts s' = attempts ?s2"
      by (rule end_in_failure_effect [OF H R refl, of cfg ?n ?e retryable, unfolded o(1)])
        (use err row in \<open>auto simp: get_task_row_def db_simps table_simps s1\<close>)
    have new: "failure_status obj retryable = ?new" using False by (auto simp: failure_status_def)
    have "status_of j s' = (if blocked_below s ?p j then Some Cancelled else status_of j s)" if "j \<noteq> ?p" for j
      using r(8) [of j] that by (simp add: cancel_spec_def blocked st2)
    moreover have "failed_row cfg obj e retryable s t"
      using r new by (auto simp: failed_row_def dlq_time_ok_def o s1 split: if_splits)
    moreover have "record_failure cfg obj aid e retryable s = Ok obj' s'"
      unfolding rec o using r(1) False by auto
    moreover have "failure_status obj retryable \<noteq> RetryScheduled" by (simp add: new)
    ultimately show ?thesis
      using that [of obj' s' t] r(2,9,10) by (simp add: s1 att)
  qed
qed

end
