(* ===== verification/Worker_Correct.thy ===== *)
theory Worker_Correct
  imports Finish_Correct
begin

text \<open>
  The message handler of a worker as a whole: what it answers and does for a message it cannot
  use, for one whose task is not to be claimed, and for one whose task it executes.
\<close>

lemma handle_unusable:
  assumes "decode_payload body = None \<or> (\<exists>b. decode_payload body = Some b \<and> message_task_id parse_int b = None)"
  shows "handle_message py parse_int handlers others cfg w body s = (Nack, s)"
  using assms by (auto simp: handle_message_def)

lemma rollback_ticks [simp]: "rollback_to s (s\<lparr>ticks := n\<rparr>) = s\<lparr>ticks := n\<rparr>"
  by (simp add: rollback_to_def)

lemma handle_refused:
  assumes "integrity s" "decode_payload body = Some b" "message_task_id parse_int b = Some tid"
    and "\<And>t. get_task_row tid s = Some t \<Longrightarrow> t_status t \<noteq> Queued \<or> \<not> lease_free (clock s (ticks s)) t"
  shows "handle_message py parse_int handlers others cfg w body s = (Ack, s\<lparr>ticks := ticks s + 2\<rparr>)"
  using assms(1)
proof (cases rule: claim_cases [where cfg = cfg and w = w and tid = tid])
  case refused
  then show ?thesis using assms(2,3) by (simp add: handle_message_def)
next
  case (claimed t now now' s')
  then show ?thesis using assms(4) by blast
qed

definition exec_status :: "task \<Rightarrow> exec_result \<Rightarrow> task_status" where
  \<comment> \<open>the status the execution of a task ends in; \<open>t\<close> is its row before the claim\<close>
  "exec_status t outcome =
     (let retry = (if t_attempts t + 1 < t_max_attempts t then RetryScheduled else DeadLetter) in
      case outcome of
        Completed r \<Rightarrow> Success | TimedOut \<Rightarrow> retry | Raised e \<Rightarrow> retry | UnknownTaskType e \<Rightarrow> Failed)"

lemma claimed_row_more [simp]:
  "t_max_attempts (claimed_row cfg w t now s) = t_max_attempts t"
  "t_task_type (claimed_row cfg w t now s) = t_task_type t"
  "t_payload (claimed_row cfg w t now s) = t_payload t"
  by (simp_all add: claimed_row_def started_row_def leased_row_def)

lemma finish_status:
  assumes "integrity s" "held obj" "still_running obj s" "aid \<in> a_id ` set (attempts s)"
  obtains obj' s' where "finish cfg obj aid outcome s = Ok obj' s'" "integrity s'"
    and "status_of (t_id obj) s' = Some (case outcome of Completed r \<Rightarrow> Success
        | UnknownTaskType e \<Rightarrow> Failed | _ \<Rightarrow> failure_status obj True)"
proof -
  have failure: "\<exists>obj' s'. record_failure cfg obj aid e retryable s = Ok obj' s' \<and>
      status_of (t_id obj) s' = Some (failure_status obj retryable)" for e retryable
  proof -
    obtain obj' s' t where "record_failure cfg obj aid e retryable s = Ok obj' s'"
      "get_task_row (t_id obj) s' = Some t" "failed_row cfg obj e retryable s t"
      by (rule record_failure_effect [OF assms])
    then show ?thesis by (auto simp: status_of_def failed_row_def)
  qed
  have success: "\<exists>obj' s'. record_success cfg obj aid r s = Ok obj' s' \<and> status_of (t_id obj) s' = Some Success" for r
  proof -
    obtain obj' s' where "record_success cfg obj aid r s = Ok obj' s'"
      "\<And>j. status_of j s' = (if j = t_id obj then Some Success
        else if unblocked_by s (t_id obj) j then Some Queued else status_of j s)"
      by (rule record_success_effect [OF assms, of cfg r]) blast
    then show ?thesis by auto
  qed
  have "\<exists>obj' s'. finish cfg obj aid outcome s = Ok obj' s' \<and>
      status_of (t_id obj) s' = Some (case outcome of Completed r \<Rightarrow> Success
        | UnknownTaskType e \<Rightarrow> Failed | _ \<Rightarrow> failure_status obj True)"
    using success failure [of _ True] failure [of _ False] failure_status_def [of obj False]
    by (cases outcome) (simp_all add: finish_def)
  then show ?thesis
    using that integrity_finish_transaction [OF assms(1,2), of cfg aid outcome] by fastforce
qed

text \<open>
  The other sessions may do what they like meanwhile, as long as they keep the integrity of the
  database and leave the claimed task's row and the attempts alone.
\<close>

definition leaves_task :: "(db \<Rightarrow> db) \<Rightarrow> int \<Rightarrow> bool" where
  "leaves_task others tid \<longleftrightarrow>
     (\<forall>s. integrity s \<longrightarrow> integrity (others s) \<and> get_task_row tid (others s) = get_task_row tid s \<and>
        a_id ` set (attempts s) \<subseteq> a_id ` set (attempts (others s)))"

lemma handle_executes:
  assumes "integrity s" "decode_payload body = Some b" "message_task_id parse_int b = Some tid"
    and "get_task_row tid s = Some t" "t_status t = Queued" "lease_free (clock s (ticks s)) t"
    and "leaves_task others tid"
  obtains s' where "handle_message py parse_int handlers others cfg w body s = (Ack, s')" "integrity s'"
    and "status_of tid s' = Some (exec_status t (dispatch py handlers cfg (t_task_type t) (t_payload t)))"
  using assms(1)
proof (cases rule: claim_cases [where cfg = cfg and w = w and tid = tid])
  case refused
  then show ?thesis using assms(4-6) by blast
next
  case (claimed t' now now' s1)
  then have t': "t' = t" using assms(4) by simp
  let ?obj = "claimed_row cfg w t now s" and ?s = "others s1"
  let ?r = "dispatch py handlers cfg (t_task_type t) (t_payload t)"
  have id: "t_id ?obj = tid" using get_task_row_SomeD [OF assms(4)] by simp
  have others: "integrity ?s" "get_task_row tid ?s = Some ?obj" "seq_attempt s \<in> a_id ` set (attempts ?s)"
    using assms(7) claimed(5,7,8) unfolding leaves_task_def t'
    by (auto simp: claimed_attempt_def new_attempt_def)
  then have "still_running ?obj ?s" using id by (simp add: still_running_def)
  then obtain obj' s' where fin: "finish cfg ?obj (seq_attempt s) ?r ?s = Ok obj' s'" "integrity s'"
    "status_of (t_id ?obj) s' = Some (case ?r of Completed r \<Rightarrow> Success
        | UnknownTaskType e \<Rightarrow> Failed | _ \<Rightarrow> failure_status ?obj True)"
    using finish_status [OF others(1) _ _ others(3)] claimed(6) unfolding t' by metis
  show ?thesis
    by (rule that [of s'])
      (use claimed fin assms(2,3) id in \<open>auto simp: handle_message_def t' exec_status_def failure_status_def Let_def
        split: exec_result.splits\<close>)
qed

end
