(* ===== verification/Batches.thy ===== *)
theory Batches
  imports Tasks_Correct
begin

text \<open>
  Batches of tasks (\<open>app/services/batches.py\<close>): creation, progress, listings and cancellation.
\<close>

section \<open>Creation\<close>

definition batch_spec :: "int \<Rightarrow> int option \<Rightarrow> task_spec \<Rightarrow> task_spec" where
  "batch_spec batch_id created_by spec = spec\<lparr>c_batch_id := Some batch_id, c_created_by := created_by\<rparr>"

fun create_all :: "settings \<Rightarrow> task_spec list \<Rightarrow> db \<Rightarrow> task list result" where
  "create_all cfg [] s = Ok [] s"
| "create_all cfg (spec # specs) s =
     bind_o (create_task cfg spec s) (\<lambda>task s.
       bind_o (create_all cfg specs s) (\<lambda>created s. Ok (task # created) s))"

definition create_batch ::
    "settings \<Rightarrow> string \<Rightarrow> task_spec list \<Rightarrow> int option \<Rightarrow> db \<Rightarrow> (batch \<times> task list) result" where
  "create_batch cfg name specs created_by s =
     (if length specs > batch_max_tasks cfg
      then Raise (BatchLimitError (length specs) (batch_max_tasks cfg)) s
      else
        let batch = \<lparr>b_id = seq_batch s, b_name = name, b_created_by = created_by\<rparr>;
            s = s\<lparr>batches := batches s @ [batch], seq_batch := seq_batch s + 1\<rparr>
        in bind_o (create_all cfg (map (batch_spec (b_id batch) created_by) specs) s)
             (\<lambda>created s. Ok (batch, created) s))"

section \<open>Progress and listings\<close>

definition get_batch :: "db \<Rightarrow> int \<Rightarrow> batch option" where
  "get_batch s bid = find_row b_id bid (batches s)"

record progress =
  p_total :: nat
  p_queued :: nat
  p_running :: nat
  p_succeeded :: nat
  p_failed :: nat
  p_cancelled :: nat
  p_pending :: nat
  p_completed :: nat

definition batch_tasks :: "int \<Rightarrow> db \<Rightarrow> task list" where
  "batch_tasks bid s = filter (\<lambda>t. t_batch_id t = Some bid) (tasks s)"

definition status_count :: "int \<Rightarrow> db \<Rightarrow> task_status \<Rightarrow> nat" where
  "status_count bid s st = length (filter (\<lambda>t. t_status t = st) (batch_tasks bid s))"

definition get_progress :: "int \<Rightarrow> db \<Rightarrow> progress" where
  "get_progress bid s =
     (let counts = status_count bid s;
          pending = sum_list (map counts (filter (\<lambda>st. st \<noteq> Success) [Created, RetryScheduled, Scheduled, DeadLetter]));
          queued = counts Queued;
          running = counts Running;
          succeeded = counts Success;
          failed = counts Failed + counts Timeout;
          cancelled = counts Cancelled;
          total = sum_list (map counts TASK_STATUSES);
          completed = succeeded + failed + cancelled
      in \<lparr>p_total = total, p_queued = queued, p_running = running, p_succeeded = succeeded,
          p_failed = failed, p_cancelled = cancelled, p_pending = max pending 0, p_completed = completed\<rparr>)"

definition list_batches :: "nat \<Rightarrow> nat \<Rightarrow> db \<Rightarrow> batch list" where
  "list_batches limit offset s = page b_id limit offset (batches s)"

definition count_batches :: "db \<Rightarrow> nat" where
  "count_batches s = length (batches s)"

definition list_batch_tasks :: "int \<Rightarrow> nat \<Rightarrow> nat \<Rightarrow> db \<Rightarrow> task list \<times> nat" where
  "list_batch_tasks bid limit offset s =
     (page t_id limit offset (batch_tasks bid s), length (batch_tasks bid s))"

interpretation batch_listing: paged_listing list_batches count_batches batches b_id
  by unfold_locales (simp_all add: list_batches_def count_batches_def)

interpretation batch_task_listing: paged_listing
  "\<lambda>limit offset s. fst (list_batch_tasks bid limit offset s)" "\<lambda>s. snd (list_batch_tasks bid 0 0 s)"
  "batch_tasks bid" t_id for bid
  by unfold_locales (simp_all add: list_batch_tasks_def)

section \<open>Cancellation\<close>

text \<open>
  The rows are read once; the loop cancels by id, so that a task the cascade of an earlier one
  has cancelled is a conflict.
\<close>

fun cancel_each ::
    "settings \<Rightarrow> int list \<Rightarrow> db \<Rightarrow> (nat \<times> (int \<times> conflict) list) result" where
  "cancel_each cfg [] s = Ok (0, []) s"
| "cancel_each cfg (task_id # task_ids) s =
     (case cancel_task cfg task_id s of
        Raise (TaskConflictError c) s' \<Rightarrow>
          bind_o (cancel_each cfg task_ids s') (\<lambda>(cancelled, conflicts) s. Ok (cancelled, (task_id, c) # conflicts) s)
      | Raise e s' \<Rightarrow> Raise e s'
      | Ok _ s' \<Rightarrow>
          bind_o (cancel_each cfg task_ids s') (\<lambda>(cancelled, conflicts) s. Ok (cancelled + 1, conflicts) s))"

definition cancel_batch :: "settings \<Rightarrow> int \<Rightarrow> db \<Rightarrow> (nat \<times> (int \<times> conflict) list) result" where
  "cancel_batch cfg bid s =
     (case get_batch s bid of
        None \<Rightarrow> Raise (TaskConflictError BatchNotFound) s
      | Some batch \<Rightarrow> cancel_each cfg (map t_id (batch_tasks bid s)) s)"

section \<open>Facts\<close>

lemma sum_by_status:
  "sum_list (map (\<lambda>st. length (filter (\<lambda>t. t_status t = st) ts)) TASK_STATUSES) = length ts"
proof (induction ts)
  case (Cons t ts)
  then show ?case by (cases "t_status t") (simp_all add: TASK_STATUSES_def)
qed (simp add: TASK_STATUSES_def)

lemma progress_total: "p_total (get_progress bid s) = length (batch_tasks bid s)"
  using sum_by_status [of "batch_tasks bid s"]
  by (simp add: get_progress_def Let_def status_count_def [abs_def])

lemma progress_partition:
  "p_total (get_progress bid s) = p_completed (get_progress bid s) + p_pending (get_progress bid s) +
     p_queued (get_progress bid s) + p_running (get_progress bid s)"
  by (simp add: get_progress_def Let_def TASK_STATUSES_def)

lemma integrity_create_all: "integrity s \<Longrightarrow> integrity (final_state (create_all cfg specs s))"
proof (induction specs arbitrary: s)
  case (Cons spec specs)
  show ?case
    unfolding create_all.simps
    by (intro final_state_bindI [where P = integrity] integrity_create_task [OF Cons.prems] Cons.IH) simp_all
qed simp

lemma later_create_all: "later s (final_state (create_all cfg specs s))"
proof (induction specs arbitrary: s)
  case (Cons spec specs)
  then show ?case
    by (simp, intro later_bind later_create_task) (auto intro!: later_bind)
qed simp

lemma integrity_create_batch:
  assumes "integrity s"
  shows "integrity (final_state (create_batch cfg name specs u s))"
    and "later s (final_state (create_batch cfg name specs u s))"
proof -
  let ?s = "s\<lparr>batches := batches s @ [\<lparr>b_id = seq_batch s, b_name = name, b_created_by = u\<rparr>], seq_batch := seq_batch s + 1\<rparr>"
  let ?specs = "map (batch_spec (seq_batch s) u) specs"
  have "integrity ?s" by (rule integrity_frame [OF assms]) simp_all
  then have I: "integrity (final_state (create_all cfg ?specs ?s))" by (rule integrity_create_all)
  have L: "later ?s (final_state (create_all cfg ?specs ?s))" by (rule later_create_all)
  show "integrity (final_state (create_batch cfg name specs u s))"
    using assms I by (cases "create_all cfg ?specs ?s") (auto simp: create_batch_def Let_def)
  show "later s (final_state (create_batch cfg name specs u s))"
    using L by (cases "create_all cfg ?specs ?s") (auto simp: create_batch_def Let_def later_def)
qed

text \<open>Cancelling a task leaves it terminal and takes no task out of a terminal status.\<close>

definition ended :: "int \<Rightarrow> db \<Rightarrow> bool" where
  "ended j s \<longleftrightarrow> (\<exists>st\<in>set TERMINAL. status_of j s = Some st)"

lemma not_cancelable: "st \<notin> set CANCELABLE \<Longrightarrow> st \<noteq> Timeout \<Longrightarrow> st \<in> set TERMINAL"
  by (cases st) (auto simp: status_classes)

lemma cancel_task_cases:
  assumes "integrity s" "get_task_row tid s = Some t"
  obtains (cancelled) t' s' where "cancel_task cfg tid s = Ok (Some t') s'" "t_status t \<in> set CANCELABLE"
      "ended tid s'" "\<And>j. ended j s \<Longrightarrow> ended j s'" "integrity s'" "\<And>j. get_task_row j s \<noteq> None \<Longrightarrow> get_task_row j s' \<noteq> None"
  | (conflict) "cancel_task cfg tid s = Raise (TaskConflictError (NotCancelable (t_status t))) s" "ended tid s"
proof (cases "t_status t \<in> set CANCELABLE")
  case False
  have "t_status t \<noteq> Timeout" using integrity_task_ok [OF assms] by (simp add: task_ok_def)
  then have "t_status t \<in> set TERMINAL" by (rule not_cancelable [OF False])
  then have "ended tid s" using assms(2) by (simp add: ended_def status_of_def)
  then show ?thesis using conflict False assms(2) by (simp add: cancel_task_def get_task_def)
next
  case True
  obtain t' s' where c: "cancel_task cfg tid s = Ok (Some t') s'" "\<And>j. status_of j s' = cancel_spec s tid Cancelled j"
    by (rule cancel_task_effect [of s tid t cfg]) (use assms(2) True in \<open>simp_all add: get_task_def\<close>)
  have e: "ended j s'" if "ended j s" for j
    using that c(2) [of j] blocked_below_Created [of s tid j] by (auto simp: ended_def cancel_spec_def)
  have some: "status_of j s \<noteq> None \<Longrightarrow> status_of j s' \<noteq> None" for j
    using c(2) [of j] by (auto simp: cancel_spec_def)
  have "integrity s'" using integrity_cancel_task [OF assms(1), of cfg tid] c(1) by simp
  then show ?thesis
    using cancelled [OF c(1) True _ e] c(2) [of tid] assms(2) some
    by (auto simp: ended_def cancel_spec_def status_of_def)
qed

lemma cancel_each_effect:
  assumes "integrity s" "\<forall>i\<in>set ids. get_task_row i s \<noteq> None"
  shows "\<exists>n cs s'. cancel_each cfg ids s = Ok (n, cs) s' \<and> integrity s' \<and>
     n + length cs = length ids \<and> (\<forall>i\<in>set ids. ended i s') \<and> (\<forall>j. ended j s \<longrightarrow> ended j s')"
  using assms
proof (induction ids arbitrary: s)
  case (Cons i ids)
  then obtain t where t: "get_task_row i s = Some t" by auto
  show ?case
    using Cons.prems(1) t
  proof (cases rule: cancel_task_cases [where cfg = cfg])
    case (cancelled t' s1)
    then have "\<forall>i\<in>set ids. get_task_row i s1 \<noteq> None" using Cons.prems(2) by simp
    from Cons.IH [OF cancelled(5) this] obtain n cs s' where
      "cancel_each cfg ids s1 = Ok (n, cs) s'" "integrity s'" "n + length cs = length ids"
      "\<forall>i\<in>set ids. ended i s'" "\<forall>j. ended j s1 \<longrightarrow> ended j s'" by blast
    then show ?thesis using cancelled by simp
  next
    case conflict
    from Cons.IH [OF Cons.prems(1)] Cons.prems(2) obtain n cs s' where
      "cancel_each cfg ids s = Ok (n, cs) s'" "integrity s'" "n + length cs = length ids"
      "\<forall>i\<in>set ids. ended i s'" "\<forall>j. ended j s \<longrightarrow> ended j s'" by auto
    then show ?thesis using conflict by simp
  qed
qed simp

lemma create_all_length: "create_all cfg specs s = Ok made s' \<Longrightarrow> length made = length specs"
  by (induction specs arbitrary: s s' made) (auto simp: bind_o_Ok_iff)

text \<open>
  A batch made: its tasks are what was asked for, in order, their rows are in the database, and
  no other row has changed.
\<close>

lemma create_all_rows:
  assumes "integrity s" "create_all cfg specs s = Ok made s'"
  shows "map task_content made = map (spec_content cfg) specs \<and> (\<forall>t\<in>set made. get_task_row (t_id t) s' = Some t) \<and>
    (\<forall>j t. get_task_row j s = Some t \<longrightarrow> get_task_row j s' = Some t)"
  using assms
proof (induction specs arbitrary: s made)
  case (Cons spec specs)
  obtain t s1 rest where 1: "create_task cfg spec s = Ok t s1" and 2: "create_all cfg specs s1 = Ok rest s'" "made = t # rest"
    using Cons.prems(2) by (auto simp: bind_o_Ok_iff)
  have I: "integrity s1" using integrity_create_task [OF Cons.prems(1), of cfg spec] 1 by simp
  have new: "task_content t = spec_content cfg spec" "t_id t = seq_task s"
    and rows: "\<And>j. get_task_row j s1 = (if j = seq_task s then Some t else get_task_row j s)"
    using create_task_outcome [OF Cons.prems(1), where cfg = cfg and spec = spec] by (simp_all add: 1 creation_ok_def)
  have "get_task_row (seq_task s) s = None"
    using Cons.prems(1) by (auto simp: get_task_row_def find_row_None_iff integrity_but_def keys_ok_def)
  then have keep: "get_task_row j s1 = Some u" if "get_task_row j s = Some u" for j u
    using that by (auto simp: rows)
  have "get_task_row (t_id t) s1 = Some t" by (simp add: rows new)
  with Cons.IH [OF I 2(1)] keep show ?case unfolding 2(2) using new(1) by auto
qed simp

lemma create_batch_effect:
  assumes "integrity s" "create_batch cfg name specs u s = Ok (b, made) s'"
  shows "b_name b = name \<and> b_created_by b = u \<and>
    map task_content made = map (\<lambda>spec. spec_content cfg (batch_spec (b_id b) u spec)) specs \<and>
    (\<forall>t\<in>set made. get_task_row (t_id t) s' = Some t) \<and>
    (\<forall>j t. get_task_row j s = Some t \<longrightarrow> get_task_row j s' = Some t)"
proof -
  let ?b = "\<lparr>b_id = seq_batch s, b_name = name, b_created_by = u\<rparr>"
  let ?s = "s\<lparr>batches := batches s @ [?b], seq_batch := seq_batch s + 1\<rparr>"
  have made: "b = ?b" "create_all cfg (map (batch_spec (seq_batch s) u) specs) ?s = Ok made s'"
    using assms(2) by (auto simp: create_batch_def Let_def bind_o_Ok_iff split: if_splits)
  have "integrity ?s" by (rule integrity_frame [OF assms(1)]) simp_all
  from create_all_rows [OF this made(2)] show ?thesis
    by (simp add: made(1) comp_def get_task_row_def)
qed

end
