(* ===== verification/Audit_Log.thy ===== *)
theory Audit_Log
  imports Database Listing
begin

text \<open>
  The audit log (\<open>app/services/audit.py\<close>): an entry is written in the caller's transaction, and
  listed and counted under the same filters.
\<close>

section \<open>Writing\<close>

type_synonym actor = "int \<times> string"

definition audit_record ::
    "actor option \<Rightarrow> int option \<Rightarrow> string option \<Rightarrow> string \<Rightarrow> string \<Rightarrow> string option \<Rightarrow>
     json option \<Rightarrow> string option \<Rightarrow> db \<Rightarrow> audit_log \<times> db" where
  "audit_record actor actor_id actor_username action resource_type resource_id details ip_address s =
     (let (actor_id, actor_username) =
            (case actor of None \<Rightarrow> (actor_id, actor_username) | Some (i, n) \<Rightarrow> (Some i, Some n));
          entry = \<lparr>g_id = seq_audit s, g_actor_id = actor_id, g_actor_username = actor_username,
                   g_action = action, g_resource_type = resource_type, g_resource_id = resource_id,
                   g_details = details, g_ip_address = ip_address, g_created_at = db_now s\<rparr>
      in (entry, s\<lparr>audit_logs := audit_logs s @ [entry], seq_audit := seq_audit s + 1\<rparr>))"

definition audit ::
    "actor \<Rightarrow> string \<Rightarrow> string \<Rightarrow> string option \<Rightarrow> json option \<Rightarrow> string option \<Rightarrow> db \<Rightarrow> db" where
  \<comment> \<open>the call the routes make, with the current user as the actor\<close>
  "audit user action resource_type resource_id details ip s =
     snd (audit_record (Some user) None None action resource_type resource_id details ip s)"

section \<open>Reading\<close>

record audit_query =
  aq_actor_id :: "int option"
  aq_action :: "string option"
  aq_resource_type :: "string option"
  aq_search :: "string option"

definition audit_filters :: "(string \<Rightarrow> string \<Rightarrow> bool) \<Rightarrow> audit_query \<Rightarrow> audit_log \<Rightarrow> bool" where
  "audit_filters ilike q g \<longleftrightarrow>
     (case aq_actor_id q of None \<Rightarrow> True | Some i \<Rightarrow> g_actor_id g = Some i) \<and>
     (case aq_action q of None \<Rightarrow> True | Some a \<Rightarrow> a = [] \<or> g_action g = a) \<and>
     (case aq_resource_type q of None \<Rightarrow> True | Some r \<Rightarrow> r = [] \<or> g_resource_type g = r) \<and>
     (case aq_search q of None \<Rightarrow> True | Some w \<Rightarrow> w = [] \<or>
        (let like = ''%'' @ w @ ''%'' in
         (case g_actor_username g of None \<Rightarrow> False | Some n \<Rightarrow> ilike like n) \<or>
         ilike like (g_action g) \<or> ilike like (g_resource_type g)))"

definition list_audit :: "(string \<Rightarrow> string \<Rightarrow> bool) \<Rightarrow> audit_query \<Rightarrow> nat \<Rightarrow> nat \<Rightarrow> db \<Rightarrow> audit_log list" where
  "list_audit ilike q limit offset s = page g_id limit offset (filter (audit_filters ilike q) (audit_logs s))"

definition count_audit :: "(string \<Rightarrow> string \<Rightarrow> bool) \<Rightarrow> audit_query \<Rightarrow> db \<Rightarrow> nat" where
  "count_audit ilike q s = length (filter (audit_filters ilike q) (audit_logs s))"

interpretation audit_listing: paged_listing "list_audit ilike q" "count_audit ilike q"
  "\<lambda>s. filter (audit_filters ilike q) (audit_logs s)" g_id for ilike q
  by unfold_locales (simp_all add: list_audit_def count_audit_def)

section \<open>Frame\<close>

lemma audit_simps [db_simps]:
  "tasks (audit u a r i d ip s) = tasks s"
  "attempts (audit u a r i d ip s) = attempts s"
  "events (audit u a r i d ip s) = events s"
  "outbox (audit u a r i d ip s) = outbox s"
  "dependencies (audit u a r i d ip s) = dependencies s"
  "subscriptions (audit u a r i d ip s) = subscriptions s"
  "deliveries (audit u a r i d ip s) = deliveries s"
  "batches (audit u a r i d ip s) = batches s"
  "workers (audit u a r i d ip s) = workers s"
  "users (audit u a r i d ip s) = users s"
  "seq_user (audit u a r i d ip s) = seq_user s"
  "seq_refresh (audit u a r i d ip s) = seq_refresh s"
  "seq_token (audit u a r i d ip s) = seq_token s"
  "refresh_tokens (audit u a r i d ip s) = refresh_tokens s"
  "api_tokens (audit u a r i d ip s) = api_tokens s"
  "seq_task (audit u a r i d ip s) = seq_task s"
  "seq_attempt (audit u a r i d ip s) = seq_attempt s"
  "seq_outbox (audit u a r i d ip s) = seq_outbox s"
  "seq_delivery (audit u a r i d ip s) = seq_delivery s"
  "clock (audit u a r i d ip s) = clock s"
  "ticks (audit u a r i d ip s) = ticks s"
  "db_now (audit u a r i d ip s) = db_now s"
  by (simp_all add: audit_def audit_record_def Let_def split: prod.split)

end
