(* ===== verification/Task_Routes.thy ===== *)
theory Task_Routes
  imports Batches Audit_Log
begin

text \<open>
  The task and batch routes (\<open>app/api/routes/tasks.py\<close>, \<open>app/api/routes/batches.py\<close>) over the
  services: a request is one transaction, committed when the handler gets to its commit and
  rolled back when an exception leaves it. An exception no handler maps is answered with 500.
  The answer of the creation limiter for the client is the argument \<open>allowed\<close>. Request bodies
  are those the schemas of \<open>app/schemas/task.py\<close> accept.
\<close>

section \<open>Request bodies\<close>

record task_create =
  tc_task_type :: string
  tc_payload :: json
  tc_priority :: task_priority
  tc_max_attempts :: "int option"
  tc_idempotency_key :: "string option"
  tc_schedule_at :: "time option"
  tc_depends_on :: "int list option"

definition valid_task_create :: "task_create \<Rightarrow> bool" where
  "valid_task_create b \<longleftrightarrow>
     1 \<le> length (tc_task_type b) \<and> length (tc_task_type b) \<le> 100 \<and>
     (case tc_payload b of JObj _ \<Rightarrow> True | _ \<Rightarrow> False) \<and>
     (case tc_max_attempts b of None \<Rightarrow> True | Some n \<Rightarrow> 1 \<le> n \<and> n \<le> 10) \<and>
     (case tc_idempotency_key b of None \<Rightarrow> True | Some k \<Rightarrow> length k \<le> 255) \<and>
     (case tc_depends_on b of None \<Rightarrow> True | Some ps \<Rightarrow> length ps \<le> 100)"

definition valid_bulk_create :: "task_create list \<Rightarrow> bool" where
  "valid_bulk_create bs \<longleftrightarrow> 1 \<le> length bs \<and> length bs \<le> 1000 \<and> list_all valid_task_create bs"

definition valid_bulk_ids :: "int list \<Rightarrow> bool" where
  "valid_bulk_ids ids \<longleftrightarrow> 1 \<le> length ids \<and> length ids \<le> 1000"

definition spec_of :: "task_create \<Rightarrow> task_spec" where
  \<comment> \<open>what the routes pass on: neither a creator nor a batch\<close>
  "spec_of b =
     \<lparr>c_task_type = tc_task_type b, c_payload = tc_payload b, c_priority = tc_priority b,
      c_max_attempts = tc_max_attempts b, c_idempotency_key = tc_idempotency_key b,
      c_created_by = None, c_schedule_at = tc_schedule_at b, c_batch_id = None,
      c_depends_on = tc_depends_on b\<rparr>"

section \<open>Transactions\<close>

definition http_status :: "error \<Rightarrow> int" where
  "http_status e = (case e of TaskConflictError _ \<Rightarrow> 409 | _ \<Rightarrow> 500)"

fun transaction ::
    "(error \<Rightarrow> int) \<Rightarrow> db \<Rightarrow> 'a result \<Rightarrow> ('a \<Rightarrow> db \<Rightarrow> 'b response \<times> db) \<Rightarrow> 'b response \<times> db" where
  "transaction status s (Ok x s') reply = reply x s'"
| "transaction status s (Raise e s') reply = (Status (status e), rollback_to s s')"

section \<open>Tasks\<close>

datatype created = Created201 task | Existing200 task

definition create_error :: "error \<Rightarrow> int" where
  "create_error e = (case e of IntegrityError \<Rightarrow> 409 | TaskConflictError _ \<Rightarrow> 409 | _ \<Rightarrow> 500)"

definition existing_task :: "task_create \<Rightarrow> db \<Rightarrow> task option" where
  "existing_task body s =
     (case tc_idempotency_key body of None \<Rightarrow> None | Some k \<Rightarrow> get_by_idempotency_key s k)"

definition create_task_route ::
    "settings \<Rightarrow> bool \<Rightarrow> actor \<Rightarrow> string option \<Rightarrow> task_create \<Rightarrow> db \<Rightarrow> created response \<times> db" where
  "create_task_route cfg allowed user ip body s =
     (if \<not> allowed then (Status 429, s)
      else case existing_task body s of
        Some existing \<Rightarrow> (Reply (Existing200 existing), s)
      | None \<Rightarrow>
          transaction create_error s (create_task cfg (spec_of body) s) (\<lambda>task s.
            (Reply (Created201 task),
             audit user ''task.create'' ''task'' (Some (show_int (t_id task)))
               (Some (JObj [(''task_type'', JStr (tc_task_type body)),
                            (''priority'', JStr (priority_name (tc_priority body)))])) ip s)))"

definition list_tasks_route ::
    "(string \<Rightarrow> string \<Rightarrow> bool) \<Rightarrow> task_query \<Rightarrow> nat \<Rightarrow> nat \<Rightarrow> db \<Rightarrow> nat \<times> task list" where
  "list_tasks_route ilike q limit offset s =
     (count_tasks ilike q s, list_tasks ilike q limit offset s)"

type_synonym 'c bulk_result = "nat \<times> task list \<times> 'c list"

definition bulk_create_route ::
    "settings \<Rightarrow> bool \<Rightarrow> actor \<Rightarrow> string option \<Rightarrow> task_create list \<Rightarrow> db \<Rightarrow>
     task_spec bulk_result response \<times> db" where
  "bulk_create_route cfg allowed user ip body s =
     (if \<not> allowed then (Status 429, s)
      else
        let specs = map spec_of body in
        transaction (\<lambda>_. 500) s (bulk_create cfg specs s) (\<lambda>(made, conflicts) s.
          (Reply (length specs, made, conflicts),
           audit user ''task.bulk_create'' ''task'' None
             (Some (JObj [(''total'', JInt (length specs)), (''created'', JInt (length made))]))
             (Some (case ip of None \<Rightarrow> ''unknown'' | Some host \<Rightarrow> host)) s)))"

definition bulk_ids_route ::
    "string \<Rightarrow> string \<Rightarrow> (int list \<Rightarrow> db \<Rightarrow> (task list \<times> (int \<times> bulk_reason) list) result) \<Rightarrow>
     actor \<Rightarrow> string option \<Rightarrow> int list \<Rightarrow> db \<Rightarrow> (int \<times> bulk_reason) bulk_result response \<times> db" where
  "bulk_ids_route action counter operation user ip ids s =
     transaction (\<lambda>_. 500) s (operation ids s) (\<lambda>(succeeded, conflicts) s.
       (Reply (length ids, succeeded, conflicts),
        audit user action ''task'' None
          (Some (JObj [(''total'', JInt (length ids)), (counter, JInt (length succeeded))])) ip s))"

definition bulk_retry_route ::
    "settings \<Rightarrow> actor \<Rightarrow> string option \<Rightarrow> int list \<Rightarrow> db \<Rightarrow> (int \<times> bulk_reason) bulk_result response \<times> db" where
  "bulk_retry_route cfg = bulk_ids_route ''task.bulk_retry'' ''retried'' (bulk_retry cfg)"

definition bulk_cancel_route ::
    "settings \<Rightarrow> actor \<Rightarrow> string option \<Rightarrow> int list \<Rightarrow> db \<Rightarrow> (int \<times> bulk_reason) bulk_result response \<times> db" where
  "bulk_cancel_route cfg = bulk_ids_route ''task.bulk_cancel'' ''cancelled'' (bulk_cancel cfg)"

definition get_task_route :: "int \<Rightarrow> db \<Rightarrow> (task \<times> attempt list \<times> event list) response" where
  "get_task_route tid s =
     (case get_task s tid of
        None \<Rightarrow> Status 404
      | Some t \<Rightarrow> Reply (t, filter (\<lambda>a. a_task_id a = tid) (attempts s), filter (\<lambda>e. e_task_id e = tid) (events s)))"

text \<open>The routes of one task: no task is a 404, after the exceptions.\<close>

definition one_task_route ::
    "string \<Rightarrow> (int \<Rightarrow> db \<Rightarrow> task option result) \<Rightarrow> actor \<Rightarrow> string option \<Rightarrow> int \<Rightarrow> db \<Rightarrow> task response \<times> db" where
  "one_task_route action operation user ip tid s =
     transaction http_status s (operation tid s) (\<lambda>task s'.
       case task of
         None \<Rightarrow> (Status 404, rollback_to s s')
       | Some task \<Rightarrow> (Reply task, audit user action ''task'' (Some (show_int tid)) None ip s'))"

definition retry_task_route :: "settings \<Rightarrow> actor \<Rightarrow> string option \<Rightarrow> int \<Rightarrow> db \<Rightarrow> task response \<times> db" where
  "retry_task_route cfg = one_task_route ''task.retry'' (manual_retry cfg)"

definition cancel_task_route :: "settings \<Rightarrow> actor \<Rightarrow> string option \<Rightarrow> int \<Rightarrow> db \<Rightarrow> task response \<times> db" where
  "cancel_task_route cfg = one_task_route ''task.cancel'' (cancel_task cfg)"

definition task_events_route :: "int \<Rightarrow> db \<Rightarrow> event list response" where
  "task_events_route tid s =
     (let evs = get_events s tid in
      if evs = [] \<and> get_task s tid = None then Status 404 else Reply evs)"

section \<open>Batches\<close>

definition create_batch_route ::
    "settings \<Rightarrow> actor \<Rightarrow> string option \<Rightarrow> string \<Rightarrow> task_create list \<Rightarrow> db \<Rightarrow>
     (batch \<times> progress \<times> task list) response \<times> db" where
  "create_batch_route cfg user ip name body s =
     transaction (\<lambda>_. 400) s (create_batch cfg name (map spec_of body) (Some (fst user)) s)
       (\<lambda>(batch, made) s.
          let s = audit user ''batch.create'' ''batch'' (Some (show_int (b_id batch)))
                    (Some (JObj [(''tasks'', JInt (length made))])) ip s
          in (Reply (batch, get_progress (b_id batch) s, made), s))"

definition list_batches_route :: "nat \<Rightarrow> nat \<Rightarrow> db \<Rightarrow> nat \<times> (batch \<times> progress) list" where
  "list_batches_route limit offset s =
     (count_batches s, map (\<lambda>b. (b, get_progress (b_id b) s)) (list_batches limit offset s))"

definition get_batch_route :: "int \<Rightarrow> nat \<Rightarrow> nat \<Rightarrow> db \<Rightarrow> (batch \<times> progress \<times> nat \<times> task list) response" where
  "get_batch_route bid limit offset s =
     (case get_batch s bid of
        None \<Rightarrow> Status 404
      | Some batch \<Rightarrow>
          (case list_batch_tasks bid limit offset s of (ts, n) \<Rightarrow>
             Reply (batch, get_progress bid s, n, ts)))"

definition cancel_batch_route ::
    "settings \<Rightarrow> actor \<Rightarrow> string option \<Rightarrow> int \<Rightarrow> db \<Rightarrow>
     (batch option \<times> progress \<times> (int \<times> conflict) list) response \<times> db" where
  "cancel_batch_route cfg user ip bid s =
     transaction (\<lambda>e. case e of TaskConflictError _ \<Rightarrow> 404 | _ \<Rightarrow> 500) s (cancel_batch cfg bid s)
       (\<lambda>(n, conflicts) s.
          let s = audit user ''batch.cancel'' ''batch'' (Some (show_int bid))
                    (Some (JObj [(''cancelled'', JInt n)])) ip s
          in (Reply (get_batch s bid, get_progress bid s, conflicts), s))"

section \<open>Every route keeps the integrity of the database\<close>

lemma integrity_audit: "integrity_but S s \<Longrightarrow> integrity_but S (audit u a r i d ip s)"
  by (erule integrity_frame) (simp_all add: db_simps)

lemma integrity_transaction:
  assumes "integrity s" "integrity (final_state m)" "later s (final_state m)"
    and "\<And>x s'. m = Ok x s' \<Longrightarrow> integrity s' \<Longrightarrow> later s s' \<Longrightarrow> integrity (snd (reply x s'))"
  shows "integrity (snd (transaction status s m reply))"
  using assms integrity_rollback [OF assms(1,3)] by (cases m) auto

lemma later_manual_retry: "later s (final_state (manual_retry cfg tid s))"
proof (cases "get_task s tid")
  case (Some t)
  have "later s (final_state (bind_o (set_status cfg t Queued ev m s)
      (\<lambda>task s. Ok (Some task) (add_outbox k (reattempt_message task) s))))" for ev m k
    by (rule later_bind [OF later_set_status]) (simp add: later_def db_simps)
  then show ?thesis using Some by (simp add: manual_retry_def)
qed (simp add: manual_retry_def)

lemma later_cancel_task: "later s (final_state (cancel_task cfg tid s))"
proof (cases "get_task s tid")
  case (Some t)
  have "later s (final_state (bind_o (set_status cfg t Cancelled ev m s) (\<lambda>task s. Ok (Some task) s)))" for ev m
    by (rule later_bind [OF later_set_status]) simp
  then show ?thesis using Some by (simp add: cancel_task_def)
qed (simp add: cancel_task_def)

lemma integrity_bulk_loop:
  assumes "\<And>tid s. integrity s \<Longrightarrow> integrity (final_state (operation tid s))"
    and "\<And>tid s. later s (final_state (operation tid s))"
  shows "integrity s \<Longrightarrow> integrity (final_state (bulk_loop operation ids s))"
    and "later s (final_state (bulk_loop operation ids s))"
proof -
  show "integrity s \<Longrightarrow> integrity (final_state (bulk_loop operation ids s))"
    by (rule bulk_loop_invariant [where I = integrity]) (rule assms(1))
  show "later s (final_state (bulk_loop operation ids s))"
    by (rule bulk_loop_invariant [where I = "later s"]) (rule later_trans [OF _ assms(2)], simp_all)
qed

lemma later_bulk_create: "later s (final_state (bulk_create cfg specs s))"
proof (induction specs arbitrary: s)
  case (Cons spec specs)
  have roll: "later s (rollback_to s s')" if "later s s'" for s'
    using that by (simp add: later_def rollback_to_def)
  have L: "later s (final_state (create_task cfg spec s))" by (rule later_create_task)
  have rest: "later s (final_state (bind_o (bulk_create cfg specs s') f))"
    if "later s s'" "\<And>x s'. final_state (f x s') = s'"
    for s' and f :: "_ \<Rightarrow> db \<Rightarrow> (task list \<times> task_spec list) result"
    using later_trans [OF that(1) Cons.IH [of s']] that(2) by (cases "bulk_create cfg specs s'") auto
  show ?case
  proof (cases "create_task cfg spec s")
    case (Ok t s')
    then show ?thesis using L by (auto intro!: rest)
  next
    case (Raise e s')
    then show ?thesis using L roll by (cases e) (auto intro!: rest)
  qed
qed simp

lemma integrity_create_task_route:
  "integrity s \<Longrightarrow> integrity (snd (create_task_route cfg ok u ip body s))"
  by (auto simp: create_task_route_def integrity_audit split: option.split
      intro!: integrity_transaction integrity_create_task later_create_task)

lemma integrity_bulk_create_route:
  "integrity s \<Longrightarrow> integrity (snd (bulk_create_route cfg ok u ip body s))"
  by (auto simp: bulk_create_route_def Let_def integrity_audit
      intro!: integrity_transaction integrity_bulk_create later_bulk_create)

lemma integrity_bulk_retry_route:
  "integrity s \<Longrightarrow> integrity (snd (bulk_retry_route cfg u ip ids s))"
  unfolding bulk_retry_route_def bulk_ids_route_def bulk_retry_def
  by (rule integrity_transaction)
    (auto simp: integrity_audit intro: integrity_bulk_loop integrity_manual_retry later_manual_retry)

lemma integrity_bulk_cancel_route:
  "integrity s \<Longrightarrow> integrity (snd (bulk_cancel_route cfg u ip ids s))"
  unfolding bulk_cancel_route_def bulk_ids_route_def bulk_cancel_def
  by (rule integrity_transaction)
    (auto simp: integrity_audit intro: integrity_bulk_loop integrity_cancel_task later_cancel_task)

lemma integrity_retry_task_route: "integrity s \<Longrightarrow> integrity (snd (retry_task_route cfg u ip tid s))"
  unfolding retry_task_route_def one_task_route_def
  by (rule integrity_transaction)
    (auto simp: integrity_audit integrity_manual_retry later_manual_retry integrity_rollback split: option.split)

lemma integrity_cancel_task_route: "integrity s \<Longrightarrow> integrity (snd (cancel_task_route cfg u ip tid s))"
  unfolding cancel_task_route_def one_task_route_def
  by (rule integrity_transaction)
    (auto simp: integrity_audit integrity_cancel_task later_cancel_task integrity_rollback split: option.split)

lemma integrity_create_batch_route:
  "integrity s \<Longrightarrow> integrity (snd (create_batch_route cfg u ip name body s))"
  unfolding create_batch_route_def
  by (rule integrity_transaction) (auto simp: integrity_audit integrity_create_batch Let_def)

lemma cancel_each_invariant:
  assumes "\<And>tid s. I s \<Longrightarrow> I (final_state (cancel_task cfg tid s))"
  shows "I s \<Longrightarrow> I (final_state (cancel_each cfg ids s))"
proof (induction ids arbitrary: s)
  case (Cons tid ids)
  have one: "I (final_state (cancel_task cfg tid s))" by (rule assms [OF Cons.prems])
  have rest: "I (final_state (bind_o (cancel_each cfg ids s') f))"
    if "I s'" "\<And>x s'. final_state (f x s') = s'" for s' and f :: "_ \<Rightarrow> db \<Rightarrow> (nat \<times> (int \<times> conflict) list) result"
    using Cons.IH [OF that(1)] that(2) by (cases "cancel_each cfg ids s'") auto
  show ?case
    using one by (auto intro!: rest split: outcome.split error.split)
qed simp

lemma integrity_cancel_batch:
  assumes "integrity s"
  shows "integrity (final_state (cancel_batch cfg bid s))" and "later s (final_state (cancel_batch cfg bid s))"
proof -
  have "integrity (final_state (cancel_each cfg ids s))" for ids
    by (rule cancel_each_invariant [where I = integrity, OF integrity_cancel_task assms])
  then show "integrity (final_state (cancel_batch cfg bid s))"
    by (simp add: cancel_batch_def assms split: option.split)
  have "later s (final_state (cancel_each cfg ids s))" for ids
    by (rule cancel_each_invariant [where I = "later s"]) (rule later_trans [OF _ later_cancel_task], simp_all)
  then show "later s (final_state (cancel_batch cfg bid s))"
    by (simp add: cancel_batch_def split: option.split)
qed

lemma integrity_cancel_batch_route: "integrity s \<Longrightarrow> integrity (snd (cancel_batch_route cfg u ip bid s))"
  unfolding cancel_batch_route_def
  by (rule integrity_transaction) (auto simp: integrity_audit integrity_cancel_batch Let_def)

section \<open>A refused request leaves no trace\<close>

definition same_tables :: "db \<Rightarrow> db \<Rightarrow> bool" where
  \<comment> \<open>every table has the same rows; sequences and clock readings may differ\<close>
  "same_tables s s' \<longleftrightarrow>
     tasks s' = tasks s \<and> attempts s' = attempts s \<and> events s' = events s \<and> outbox s' = outbox s \<and>
     dependencies s' = dependencies s \<and> subscriptions s' = subscriptions s \<and> deliveries s' = deliveries s \<and>
     batches s' = batches s \<and> workers s' = workers s \<and> audit_logs s' = audit_logs s \<and>
     users s' = users s \<and> refresh_tokens s' = refresh_tokens s \<and> api_tokens s' = api_tokens s"

lemma same_tables_rollback [simp]: "same_tables s (rollback_to s s')"
  by (simp add: same_tables_def rollback_to_def)

lemma same_tables_refl [simp]: "same_tables s s"
  by (simp add: same_tables_def)

lemma transaction_refused:
  assumes "transaction status s m reply = (Status code, s')"
    and "\<And>x s1. reply x s1 = (Status code, s') \<Longrightarrow> same_tables s s'"
  shows "same_tables s s'"
  using assms by (cases m) auto

lemma task_routes_refused:
  "create_task_route cfg allowed u ip body s = (Status code, s') \<Longrightarrow> same_tables s s'"
  "bulk_create_route cfg allowed u ip bodies s = (Status code, s') \<Longrightarrow> same_tables s s'"
  "bulk_retry_route cfg u ip ids s = (Status code, s') \<Longrightarrow> same_tables s s'"
  "bulk_cancel_route cfg u ip ids s = (Status code, s') \<Longrightarrow> same_tables s s'"
  "retry_task_route cfg u ip tid s = (Status code, s') \<Longrightarrow> same_tables s s'"
  "cancel_task_route cfg u ip tid s = (Status code, s') \<Longrightarrow> same_tables s s'"
  "create_batch_route cfg u ip name bodies s = (Status code, s') \<Longrightarrow> same_tables s s'"
  "cancel_batch_route cfg u ip bid s = (Status code, s') \<Longrightarrow> same_tables s s'"
  by (auto simp: create_task_route_def bulk_create_route_def bulk_retry_route_def bulk_cancel_route_def
      bulk_ids_route_def retry_task_route_def cancel_task_route_def one_task_route_def
      create_batch_route_def cancel_batch_route_def Let_def
      split: if_splits option.splits prod.splits elim!: transaction_refused)

lemma cancel_batch_effect:
  assumes "integrity s" "get_batch s bid = Some b"
  shows "\<exists>n conflicts s'. cancel_batch cfg bid s = Ok (n, conflicts) s' \<and> integrity s' \<and>
     n + length conflicts = length (batch_tasks bid s) \<and> (\<forall>t\<in>set (batch_tasks bid s). ended (t_id t) s')"
proof -
  let ?ids = "map t_id (batch_tasks bid s)"
  have "\<forall>i\<in>set ?ids. get_task_row i s \<noteq> None"
    by (auto simp: batch_tasks_def get_task_row_def find_row_None_iff)
  from cancel_each_effect [OF assms(1) this, of cfg] show ?thesis
    using assms(2) by (simp add: cancel_batch_def) blast
qed

end
