(* ===== verification/Scheduler.thy ===== *)
theory Scheduler
  imports Attempts
begin

text \<open>
  The coordinator's periodic transactions (\<open>app/worker/services/scheduler.py\<close>): each selects
  rows under \<open>FOR UPDATE SKIP LOCKED\<close>, changes them one by one and commits. Ties of an
  ORDER BY keep the table's order. The result of each is the number of rows it handled.
\<close>

section \<open>Republishing and requeueing\<close>

definition DUE_STATUSES :: "task_status list" where
  "DUE_STATUSES = [RetryScheduled, Scheduled]"

definition STUCK_STATUSES :: "task_status list" where
  "STUCK_STATUSES = [Queued, Running]"

definition optional_before :: "time \<Rightarrow> time option \<Rightarrow> bool" where
  \<comment> \<open>SQL \<open>column < now\<close>: not true on NULL\<close>
  "optional_before now c = (case c of None \<Rightarrow> False | Some x \<Rightarrow> x < now)"

definition optional_until :: "time \<Rightarrow> time option \<Rightarrow> bool" where
  \<comment> \<open>SQL \<open>column <= now\<close>: not true on NULL\<close>
  "optional_until now c = (case c of None \<Rightarrow> False | Some x \<Rightarrow> x \<le> now)"

definition time_or_0 :: "time option \<Rightarrow> time" where
  "time_or_0 c = (case c of None \<Rightarrow> 0 | Some x \<Rightarrow> x)"

definition republish :: "settings \<Rightarrow> task \<Rightarrow> db \<Rightarrow> db" where
  "republish cfg t s = add_outbox (routing_key_task_created cfg) (reattempt_message t) s"

definition orphaned :: "settings \<Rightarrow> time \<Rightarrow> task \<Rightarrow> bool" where
  "orphaned cfg now t \<longleftrightarrow>
     t_status t = Queued \<and>
     t_updated_at t \<le> now - timedelta_seconds (queued_reconcile_seconds cfg) \<and>
     (t_lease_owner t = None \<or> t_lease_expires_at t = None \<or> optional_before now (t_lease_expires_at t))"

definition requeue_orphaned_queued_tasks :: "settings \<Rightarrow> nat \<Rightarrow> db \<Rightarrow> nat result" where
  "requeue_orphaned_queued_tasks cfg limit s =
     (let (now, s) = now_utc s;
          stuck = order_limit t_updated_at limit (filter (orphaned cfg now) (tasks s))
      in Ok (length stuck) (foldl (\<lambda>s t. republish cfg t s) s stuck))"

text \<open>The loop over the rows a requeueing transaction selected.\<close>

fun for_each :: "(task \<Rightarrow> db \<Rightarrow> unit result) \<Rightarrow> task list \<Rightarrow> db \<Rightarrow> unit result" where
  "for_each body [] s = Ok () s"
| "for_each body (t # ts) s = bind_o (body t s) (\<lambda>_ s. for_each body ts s)"

definition due :: "time \<Rightarrow> task \<Rightarrow> bool" where
  "due now t \<longleftrightarrow> t_status t \<in> set DUE_STATUSES \<and> optional_until now (t_scheduled_at t)"

definition requeue_due :: "settings \<Rightarrow> task \<Rightarrow> db \<Rightarrow> unit result" where
  "requeue_due cfg task s =
     bind_o (set_status cfg task Queued
               (if t_status task = RetryScheduled then ''task.retried'' else ''task.queued'')
               (Some (JObj [(''attempts_so_far'', JInt (t_attempts task))])) s)
       (\<lambda>task s. Ok () (republish cfg task s))"

definition requeue_due_tasks :: "settings \<Rightarrow> nat \<Rightarrow> db \<Rightarrow> nat result" where
  "requeue_due_tasks cfg limit s =
     (let (now, s) = now_utc s;
          dues = order_limit (\<lambda>t. time_or_0 (t_scheduled_at t)) limit (filter (due now) (tasks s))
      in bind_o (for_each (requeue_due cfg) dues s) (\<lambda>_ s. Ok (length dues) s))"

definition dlq_due :: "settings \<Rightarrow> time \<Rightarrow> task \<Rightarrow> bool" where
  "dlq_due cfg now t \<longleftrightarrow>
     t_status t = DeadLetter \<and> t_dlq_retry_at t \<noteq> None \<and> optional_until now (t_dlq_retry_at t) \<and>
     t_dlq_requeue_count t < dlq_retry_max_cycles cfg"

definition requeue_dlq :: "settings \<Rightarrow> task \<Rightarrow> db \<Rightarrow> unit result" where
  "requeue_dlq cfg task s =
     (let (task, s) = assign (\<lambda>t. t\<lparr>t_dlq_requeue_count := t_dlq_requeue_count task + 1\<rparr>) (task, s)
      in bind_o (set_status cfg task Queued ''task.dlq_requeued''
                   (Some (JObj [(''dlq_requeue_count'', JInt (t_dlq_requeue_count task)),
                                (''max_cycles'', JInt (dlq_retry_max_cycles cfg))])) s)
           (\<lambda>task s. Ok () (republish cfg task s)))"

definition requeue_dlq_tasks :: "settings \<Rightarrow> nat \<Rightarrow> db \<Rightarrow> nat result" where
  "requeue_dlq_tasks cfg limit s =
     (if \<not> dlq_retry_enabled cfg then Ok 0 s
      else let (now, s) = now_utc s;
               dues = order_limit (\<lambda>t. time_or_0 (t_dlq_retry_at t)) limit
                        (filter (dlq_due cfg now) (tasks s))
           in bind_o (for_each (requeue_dlq cfg) dues s) (\<lambda>_ s. Ok (length dues) s))"

section \<open>Recovery\<close>

definition mark_dead :: "time \<Rightarrow> db \<Rightarrow> string list \<times> db" where
  "mark_dead cutoff s =
     (let stale = (\<lambda>w. k_last_heartbeat_at w < cutoff \<and> k_status w = WORKER_ALIVE) in
      (map k_worker_id (filter stale (workers s)),
       s\<lparr>workers := map (\<lambda>w. if stale w then w\<lparr>k_status := WORKER_DEAD\<rparr> else w) (workers s)\<rparr>))"

definition stuck :: "time \<Rightarrow> task \<Rightarrow> bool" where
  "stuck now t \<longleftrightarrow>
     t_lease_expires_at t \<noteq> None \<and> optional_before now (t_lease_expires_at t) \<and>
     t_status t \<in> set STUCK_STATUSES"

text \<open>\<open>ORDER BY attempt_number DESC LIMIT 1\<close> among the task's running attempts.\<close>

definition running_attempt :: "int \<Rightarrow> db \<Rightarrow> attempt option" where
  "running_attempt tid s =
     (case rev (sort_key a_attempt_number
                 (filter (\<lambda>a. a_task_id a = tid \<and> a_status a = ARunning) (attempts s))) of
        [] \<Rightarrow> None
      | a # _ \<Rightarrow> Some a)"

definition lease_expired_message :: string where
  "lease_expired_message = ''Lease prostrochyvsia - zadachu povernuto v cherhu''"

definition recover_running :: "settings \<Rightarrow> time \<Rightarrow> task \<Rightarrow> db \<Rightarrow> task result" where
  "recover_running cfg now task s =
     (let attempt = running_attempt (t_id task) s;
          s = (case attempt of
                 None \<Rightarrow> s
               | Some a \<Rightarrow> set_attempt (a_id a)
                   (\<lambda>a. a\<lparr>a_status := AFailed, a_error_message := Some lease_expired_message,
                          a_finished_at := Some now\<rparr>) s)
      in set_status cfg task Queued ''task.requeued''
           (Some (JObj [(''reason'', JStr ''lease_expired''),
                        (''lease_owner'', json_of_option JStr (t_lease_owner task)),
                        (''attempt_number'', json_of_option (\<lambda>a. JInt (a_attempt_number a)) attempt)])) s)"

definition recover_one :: "settings \<Rightarrow> time \<Rightarrow> task \<Rightarrow> db \<Rightarrow> unit result" where
  "recover_one cfg now task s =
     bind_o
       (if t_status task = Running then recover_running cfg now task s
        else (case assign (\<lambda>t. t\<lparr>t_lease_owner := None, t_lease_expires_at := None\<rparr>) (task, s) of
                (task, s) \<Rightarrow> Ok task s))
       (\<lambda>task s. Ok () (republish cfg task s))"

definition recover_stuck_tasks :: "settings \<Rightarrow> nat \<Rightarrow> db \<Rightarrow> nat result" where
  "recover_stuck_tasks cfg limit s =
     (let (now, s) = now_utc s;
          (dead_worker_ids, s) =
            mark_dead (now - timedelta_seconds (worker_heartbeat_timeout_seconds cfg)) s;
          stucks = order_limit (\<lambda>t. time_or_0 (t_lease_expires_at t)) limit (filter (stuck now) (tasks s))
      in bind_o (for_each (recover_one cfg now) stucks s) (\<lambda>_ s. Ok (length stucks) s))"

section \<open>Retention\<close>

text \<open>
  Deleting tasks deletes their attempts, events and dependency rows (\<open>ON DELETE CASCADE\<close>).
\<close>

definition delete_tasks :: "int list \<Rightarrow> db \<Rightarrow> db" where
  "delete_tasks ids s =
     s\<lparr>tasks := filter (\<lambda>t. t_id t \<notin> set ids) (tasks s),
       attempts := filter (\<lambda>a. a_task_id a \<notin> set ids) (attempts s),
       events := filter (\<lambda>e. e_task_id e \<notin> set ids) (events s),
       dependencies := filter (\<lambda>d. d_parent d \<notin> set ids \<and> d_child d \<notin> set ids) (dependencies s)\<rparr>"

definition delete_old_outbox :: "time \<Rightarrow> nat \<Rightarrow> db \<Rightarrow> nat \<times> db" where
  "delete_old_outbox cutoff limit s =
     (let ids = map o_id (order_limit o_id limit
                  (filter (\<lambda>oe. optional_until cutoff (o_processed_at oe)) (outbox s)))
      in (length ids, s\<lparr>outbox := filter (\<lambda>oe. o_id oe \<notin> set ids) (outbox s)\<rparr>))"

definition delete_old_audit :: "time \<Rightarrow> nat \<Rightarrow> db \<Rightarrow> nat \<times> db" where
  "delete_old_audit cutoff limit s =
     (let ids = map g_id (order_limit g_id limit (filter (\<lambda>g. g_created_at g \<le> cutoff) (audit_logs s)))
      in (length ids, s\<lparr>audit_logs := filter (\<lambda>g. g_id g \<notin> set ids) (audit_logs s)\<rparr>))"

definition purge_tasks :: "(task \<Rightarrow> bool) \<Rightarrow> nat \<Rightarrow> db \<Rightarrow> nat \<times> db" where
  "purge_tasks selected limit s =
     (let ids = map t_id (order_limit t_id limit (filter selected (tasks s)))
      in (length ids, delete_tasks ids s))"

text \<open>
  \<open>limit or settings.retention_cleanup_batch_size\<close>: a limit of zero counts as none given.
\<close>

definition purge_old_data :: "settings \<Rightarrow> nat option \<Rightarrow> db \<Rightarrow> nat \<times> db" where
  "purge_old_data cfg limit_arg s =
     (let limit = (case limit_arg of Some (Suc n) \<Rightarrow> Suc n | _ \<Rightarrow> retention_cleanup_batch_size cfg);
          (now, s) = now_utc s;
          (n1, s) =
            (if retention_done_tasks_days cfg > 0
             then purge_tasks (\<lambda>t. optional_until (now - timedelta_days (retention_done_tasks_days cfg))
                                     (t_finished_at t)) limit s
             else (0, s));
          (n2, s) =
            (if retention_dlq_tasks_days cfg > 0
             then purge_tasks (\<lambda>t. t_status t = DeadLetter \<and> t_dlq_retry_at t = None \<and>
                                  optional_until (now - timedelta_days (retention_dlq_tasks_days cfg))
                                     (t_finished_at t)) limit s
             else (0, s));
          (n3, s) =
            (if retention_outbox_sent_days cfg > 0
             then delete_old_outbox (now - timedelta_days (retention_outbox_sent_days cfg)) limit s
             else (0, s));
          (n4, s) =
            (if retention_audit_days cfg > 0
             then delete_old_audit (now - timedelta_days (retention_audit_days cfg)) limit s
             else (0, s))
      in (n1 + n2 + n3 + n4, s))"

end
