(* ===== verification/Scheduler_Correct.thy ===== *)
theory Scheduler_Correct
  imports Scheduler Finish_Correct
begin

text \<open>
  The contract the coordinator's requeueing loops share, as a locale: the loop's body takes one
  selected row to the queue and publishes its message. The loop then does so for every selected
  row, in order, and touches no other task. The contract is discharged for the due, the
  dead-letter and the expired tasks.
\<close>

section \<open>The contract of a requeueing loop\<close>

locale requeueing =
  fixes cfg :: settings and body :: "task \<Rightarrow> db \<Rightarrow> unit result"
    and selected :: "task \<Rightarrow> bool" and becomes :: "task \<Rightarrow> task \<Rightarrow> bool"
  assumes step: "integrity s \<Longrightarrow> get_task_row (t_id t) s = Some t \<Longrightarrow> selected t \<Longrightarrow>
    \<exists>s' t'. body t s = Ok () s' \<and> integrity s' \<and> becomes t t' \<and> later s s' \<and>
      (\<forall>j. get_task_row j s' = (if j = t_id t then Some t' else get_task_row j s)) \<and>
      publishes cfg s s' [reattempt_message t]"
begin

lemma loop:
  assumes "integrity s" "distinct (map t_id ts)"
    and "\<forall>t\<in>set ts. selected t \<and> get_task_row (t_id t) s = Some t"
  shows "\<exists>s'. for_each body ts s = Ok () s' \<and> integrity s' \<and> later s s' \<and>
     (\<forall>t\<in>set ts. \<exists>t'. get_task_row (t_id t) s' = Some t' \<and> becomes t t') \<and>
     (\<forall>j. j \<notin> t_id ` set ts \<longrightarrow> get_task_row j s' = get_task_row j s) \<and>
     publishes cfg s s' (map reattempt_message ts)"
  using assms
proof (induction ts arbitrary: s)
  case Nil
  then show ?case by (simp add: publishes_Nil)
next
  case (Cons t ts)
  obtain s1 t' where one: "body t s = Ok () s1" "integrity s1" "becomes t t'" "later s s1"
    "\<And>j. get_task_row j s1 = (if j = t_id t then Some t' else get_task_row j s)"
    "publishes cfg s s1 [reattempt_message t]"
    using step [OF Cons.prems(1), of t] Cons.prems(3) by auto
  have other: "t_id u \<noteq> t_id t" if "u \<in> set ts" for u
    using Cons.prems(2) that by (auto simp: image_iff)
  obtain s' where rest: "for_each body ts s1 = Ok () s'" "integrity s'" "later s1 s'"
    "\<forall>t\<in>set ts. \<exists>t'. get_task_row (t_id t) s' = Some t' \<and> becomes t t'"
    "\<forall>j. j \<notin> t_id ` set ts \<longrightarrow> get_task_row j s' = get_task_row j s1"
    "publishes cfg s1 s' (map reattempt_message ts)"
    using Cons.IH [OF one(2)] Cons.prems(2,3) one(5) other by fastforce
  have "get_task_row (t_id t) s' = Some t'"
    using rest(5) one(5) Cons.prems(2) by auto
  then show ?case
    using one rest publishes_trans [OF one(6) rest(6)] later_trans [OF one(4) rest(3)]
    by auto
qed

lemma selection:
  assumes "integrity s" "tasks s1 = tasks s" "\<And>t. P t \<Longrightarrow> selected t"
    and ts: "ts = order_limit key limit (filter P (tasks s))"
  shows "distinct (map t_id ts)" and "\<forall>t\<in>set ts. selected t \<and> get_task_row (t_id t) s1 = Some t"
proof -
  have "distinct (map t_id (filter P (tasks s)))"
    using integrity_distinct [OF assms(1)] by (rule distinct_map_filter)
  then show "distinct (map t_id ts)" unfolding ts by (rule distinct_order_limit)
  have "set ts \<subseteq> set (filter P (tasks s))" unfolding ts by (rule set_order_limit)
  then show "\<forall>t\<in>set ts. selected t \<and> get_task_row (t_id t) s1 = Some t"
    using integrity_get_task [OF assms(1)] assms(2,3) by (auto simp: get_task_row_def)
qed

lemma selected_loop:
  assumes "integrity s" "integrity s1" "tasks s1 = tasks s" "\<And>t. P t \<Longrightarrow> selected t"
    and ts: "ts = order_limit key limit (filter P (tasks s))"
  obtains s' where "for_each body ts s1 = Ok () s'" "integrity s'" "later s1 s'"
    "\<forall>t\<in>set ts. \<exists>t'. get_task_row (t_id t) s' = Some t' \<and> becomes t t'"
    "\<forall>j. j \<notin> t_id ` set ts \<longrightarrow> get_task_row j s' = get_task_row j s1"
    "publishes cfg s1 s' (map reattempt_message ts)"
  using loop [OF assms(2) selection [OF assms(1,3,4) ts]] by blast

end

definition requeued_row :: "task \<Rightarrow> task \<Rightarrow> bool" where
  \<comment> \<open>queued again, without a lease or an end, with the same content and counters\<close>
  "requeued_row t t' \<longleftrightarrow> (\<exists>upd. t' = (queued_row t upd)\<lparr>t_lease_owner := None, t_lease_expires_at := None\<rparr>)"

lemma queued_requeued: "task_ok t \<Longrightarrow> requeued_row t (queued_row t upd)"
  by (cases t) (auto simp: requeued_row_def queued_row_def task_ok_def)

section \<open>Due and dead-letter tasks\<close>

lemma integrity_queued:
  assumes "integrity s" "get_task_row (t_id t) s = Some t" "ev \<in> set TASK_EVENT_TYPES"
    and "set_status cfg t Queued ev m s = Ok t' s'"
  shows "integrity (add_outbox k p s')" "later s (add_outbox k p s')"
  using integrity_set_status_row [OF assms(1,2,3), of Queued cfg m] later_set_status [of s cfg t Queued ev m] assms(4)
  by (simp_all add: integrity_add_outbox later_def db_simps)

interpretation due_loop: requeueing cfg "requeue_due cfg" "\<lambda>t. t_status t \<in> set DUE_STATUSES" requeued_row for cfg
proof unfold_locales
  fix s t
  assume I: "integrity s" and row: "get_task_row (t_id t) s = Some t" and sel: "t_status t \<in> set DUE_STATUSES"
  let ?ev = "if t_status t = RetryScheduled then ''task.retried'' else ''task.queued''"
  let ?m = "Some (JObj [(''attempts_so_far'', JInt (t_attempts t))])"
  have can: "can_transition (t_status t) Queued" using sel by (auto simp: DUE_STATUSES_def can_transition_def)
  obtain s' where s': "set_status cfg t Queued ?ev ?m s = Ok (queued_row t (db_now s)) s'"
    "puts_in_queue cfg t (reattempt_message t) s
       (add_outbox (routing_key_task_created cfg) (reattempt_message t) s')"
    by (rule set_status_Queued [OF can row]) auto
  have ev: "?ev \<in> set TASK_EVENT_TYPES" by (simp add: TASK_EVENT_TYPES_def)
  have ok: "task_ok t" using integrity_task_ok [OF I row] by simp
  have "requeue_due cfg t s = Ok () (add_outbox (routing_key_task_created cfg) (reattempt_message t) s')"
    by (simp add: requeue_due_def s'(1) republish_def)
  then show "\<exists>s' t'. requeue_due cfg t s = Ok () s' \<and> integrity s' \<and> requeued_row t t' \<and> later s s' \<and>
      (\<forall>j. get_task_row j s' = (if j = t_id t then Some t' else get_task_row j s)) \<and>
      publishes cfg s s' [reattempt_message t]"
    using s'(2) queued_requeued [OF ok] integrity_queued [OF I row ev s'(1)]
    unfolding puts_in_queue_def by blast
qed

definition dlq_row :: "task \<Rightarrow> task \<Rightarrow> bool" where
  "dlq_row t t' \<longleftrightarrow> requeued_row (t\<lparr>t_dlq_requeue_count := t_dlq_requeue_count t + 1\<rparr>) t'"

interpretation dlq_loop: requeueing cfg "requeue_dlq cfg" "\<lambda>t. t_status t = DeadLetter" dlq_row for cfg
proof unfold_locales
  fix s t
  assume I: "integrity s" and row: "get_task_row (t_id t) s = Some t" and sel: "t_status t = DeadLetter"
  let ?f = "\<lambda>u. u\<lparr>t_dlq_requeue_count := t_dlq_requeue_count t + 1\<rparr>"
  let ?t = "fst (assign ?f (t, s))" and ?s = "snd (assign ?f (t, s))"
  let ?m = "Some (JObj [(''dlq_requeue_count'', JInt (t_dlq_requeue_count ?t)),
                (''max_cycles'', JInt (dlq_retry_max_cycles cfg))])"
  have t: "t_id ?t = t_id t" "t_status ?t = DeadLetter" "reattempt_message ?t = reattempt_message t"
    using sel by (simp_all add: db_simps reattempt_message_def)
  have row1: "get_task_row (t_id ?t) ?s = Some ?t" unfolding t by (rule get_task_row_assign [OF row]) simp
  have I1: "integrity ?s" by (rule integrity_assign [OF I]) (simp add: keeps_task_def)
  have can: "can_transition (t_status ?t) Queued" unfolding t by (simp add: can_transition_def)
  obtain s' where s': "set_status cfg ?t Queued ''task.dlq_requeued'' ?m ?s = Ok (queued_row ?t (db_now ?s)) s'"
    "puts_in_queue cfg ?t (reattempt_message t) ?s
       (add_outbox (routing_key_task_created cfg) (reattempt_message t) s')"
    by (rule set_status_Queued [OF can row1]) auto
  have ev: "''task.dlq_requeued'' \<in> set TASK_EVENT_TYPES" by (simp add: TASK_EVENT_TYPES_def)
  let ?s' = "add_outbox (routing_key_task_created cfg) (reattempt_message t) s'"
  have call: "requeue_dlq cfg t s = Ok () ?s'"
    using s'(1) t(3) by (simp add: requeue_dlq_def republish_def case_prod_beta Let_def)
  have "task_ok ?t" using integrity_task_ok [OF I1 row1] by simp
  then have "requeued_row ?t (queued_row ?t (db_now ?s))" by (rule queued_requeued)
  then have out: "dlq_row t (queued_row ?t (db_now ?s))"
    by (auto simp: dlq_row_def requeued_row_def queued_row_def db_simps)
  have rows: "get_task_row j ?s' = (if j = t_id t then Some (queued_row ?t (db_now ?s)) else get_task_row j s)" for j
    using s'(2) get_task_row_assign_other [of ?f j t s] t(1) by (simp add: puts_in_queue_def)
  have pub: "publishes cfg s ?s' [reattempt_message t]"
    using s'(2) by (auto simp: puts_in_queue_def intro: publishes_cong)
  have "integrity ?s'" "later ?s ?s'" by (rule integrity_queued [OF I1 row1 ev s'(1)])+
  moreover have "later s ?s" by (simp add: later_def db_simps)
  ultimately show "\<exists>s' t'. requeue_dlq cfg t s = Ok () s' \<and> integrity s' \<and> dlq_row t t' \<and> later s s' \<and>
      (\<forall>j. get_task_row j s' = (if j = t_id t then Some t' else get_task_row j s)) \<and>
      publishes cfg s s' [reattempt_message t]"
    using call out rows pub later_trans by blast
qed

section \<open>Expired leases\<close>

lemma recover_running_effect:
  assumes "integrity s" "get_task_row (t_id t) s = Some t" "t_status t = Running"
  obtains s' where "recover_running cfg now t s = Ok (queued_row t (db_now s)) s'" "integrity s'" "later s s'"
    "\<And>j. get_task_row j s' = (if j = t_id t then Some (queued_row t (db_now s)) else get_task_row j s)"
    "outbox s' = outbox s"
    "attempts s' = (case running_attempt (t_id t) s of None \<Rightarrow> attempts s
       | Some a \<Rightarrow> update_row a_id (a_id a) (\<lambda>a. a\<lparr>a_status := AFailed,
           a_error_message := Some lease_expired_message, a_finished_at := Some now\<rparr>) (attempts s))"
proof -
  let ?f = "\<lambda>a. a\<lparr>a_status := AFailed, a_error_message := Some lease_expired_message, a_finished_at := Some now\<rparr>"
  let ?a = "running_attempt (t_id t) s"
  let ?s = "case ?a of None \<Rightarrow> s | Some a \<Rightarrow> set_attempt (a_id a) ?f s"
  let ?m = "Some (JObj [(''reason'', JStr ''lease_expired''),
      (''lease_owner'', json_of_option JStr (t_lease_owner t)),
      (''attempt_number'', json_of_option (\<lambda>a. JInt (a_attempt_number a)) ?a)])"
  have I: "integrity ?s"
    using integrity_set_attempt [OF assms(1), of ?f] assms(1) by (simp add: lease_expired_message_def split: option.split)
  have frame: "tasks ?s = tasks s" "outbox ?s = outbox s" "db_now ?s = db_now s" "seq_task ?s = seq_task s"
    "seq_attempt ?s = seq_attempt s"
    by (simp_all add: set_attempt_def split: option.split)
  have row: "get_task_row (t_id t) ?s = Some t" "get_task_row j ?s = get_task_row j s" for j
    using assms(2) frame(1) by (simp_all add: get_task_row_def)
  have can: "can_transition (t_status t) Queued" by (simp add: assms(3) can_transition_def)
  obtain s' where s': "set_status cfg t Queued ''task.requeued'' ?m ?s = Ok (queued_row t (db_now ?s)) s'"
    "attempts s' = attempts ?s"
    by (rule set_status_Queued [OF can row(1)]) auto
  obtain s'' where s'': "set_status cfg t Queued ''task.requeued'' ?m ?s = Ok (fst (local_transition t Queued ''task.requeued'' ?m ?s)) s''"
    "\<And>j. get_task_row j s'' = (if j = t_id t
       then Some (status_assignments t Queued (transition_time t Queued ?s) (db_now ?s) t) else get_task_row j ?s)"
    "outbox s'' = outbox ?s"
    by (rule set_status_effect [OF can _ row(1)]) auto
  have same: "s'' = s'" using s'(1) s''(1) by simp
  have "integrity s'" "later ?s s'"
    using integrity_set_status_row [OF I row(1), of "''task.requeued''" Queued cfg ?m]
      later_set_status [of ?s cfg t Queued "''task.requeued''" ?m] s'(1)
    by (simp_all add: TASK_EVENT_TYPES_def)
  moreover have "recover_running cfg now t s = Ok (queued_row t (db_now s)) s'"
    using s'(1) frame(3) by (simp add: recover_running_def Let_def)
  moreover have "attempts ?s = (case ?a of None \<Rightarrow> attempts s | Some a \<Rightarrow> update_row a_id (a_id a) ?f (attempts s))"
    by (simp add: set_attempt_def split: option.split)
  ultimately show ?thesis
    using that [of s'] s'(2) s''(2,3) frame row(2) unfolding same status_assignments_Queued later_def by simp
qed

interpretation recovery_loop: requeueing cfg "recover_one cfg now"
  "\<lambda>t. t_lease_expires_at t \<noteq> None" requeued_row for cfg now
proof unfold_locales
  fix s t
  assume I: "integrity s" and row: "get_task_row (t_id t) s = Some t" and sel: "t_lease_expires_at t \<noteq> None"
  have ok: "task_ok t" using integrity_task_ok [OF I row] by simp
  then have run: "t_status t = Running" using sel by (simp add: task_ok_def)
  obtain s' where s': "recover_running cfg now t s = Ok (queued_row t (db_now s)) s'" "integrity s'" "later s s'"
    "\<And>j. get_task_row j s' = (if j = t_id t then Some (queued_row t (db_now s)) else get_task_row j s)"
    "outbox s' = outbox s"
    by (rule recover_running_effect [OF I row run]) blast
  let ?s' = "republish cfg (queued_row t (db_now s)) s'"
  have "recover_one cfg now t s = Ok () ?s'" by (simp add: recover_one_def run s'(1))
  moreover have "integrity ?s'" by (simp add: republish_def integrity_add_outbox s'(2))
  moreover have "later s ?s'" using s'(3) by (simp add: republish_def later_def db_simps)
  moreover have "get_task_row j ?s' = (if j = t_id t then Some (queued_row t (db_now s)) else get_task_row j s)" for j
    using s'(4) by (simp add: republish_def db_simps)
  moreover have "publishes cfg s ?s' [reattempt_message t]"
    using publishes_outbox [OF s'(5), of cfg "reattempt_message t"] by (simp add: republish_def)
  ultimately show "\<exists>s' t'. recover_one cfg now t s = Ok () s' \<and> integrity s' \<and> requeued_row t t' \<and> later s s' \<and>
      (\<forall>j. get_task_row j s' = (if j = t_id t then Some t' else get_task_row j s)) \<and>
      publishes cfg s s' [reattempt_message t]"
    using queued_requeued [OF ok] by blast
qed

section \<open>The transactions\<close>

definition takes_to_queue ::
    "settings \<Rightarrow> (task \<Rightarrow> task \<Rightarrow> bool) \<Rightarrow> task list \<Rightarrow> db \<Rightarrow> db \<Rightarrow> bool" where
  \<comment> \<open>every task of the list is queued and published once, in order; no other task changes\<close>
  "takes_to_queue cfg becomes ts s s' \<longleftrightarrow>
     (\<forall>t\<in>set ts. \<exists>t'. get_task_row (t_id t) s' = Some t' \<and> becomes t t') \<and>
     (\<forall>j. j \<notin> t_id ` set ts \<longrightarrow> get_task_row j s' = get_task_row j s) \<and>
     publishes cfg s s' (map reattempt_message ts)"

definition due_tasks :: "nat \<Rightarrow> db \<Rightarrow> task list" where
  "due_tasks limit s = order_limit (\<lambda>t. time_or_0 (t_scheduled_at t)) limit
     (filter (due (clock s (ticks s))) (tasks s))"

definition dlq_due_tasks :: "settings \<Rightarrow> nat \<Rightarrow> db \<Rightarrow> task list" where
  "dlq_due_tasks cfg limit s = order_limit (\<lambda>t. time_or_0 (t_dlq_retry_at t)) limit
     (filter (dlq_due cfg (clock s (ticks s))) (tasks s))"

definition expired_tasks :: "nat \<Rightarrow> db \<Rightarrow> task list" where
  "expired_tasks limit s = order_limit (\<lambda>t. time_or_0 (t_lease_expires_at t)) limit
     (filter (stuck (clock s (ticks s))) (tasks s))"

lemma takes_to_queue_tick:
  assumes "\<forall>t\<in>set ts. \<exists>t'. get_task_row (t_id t) s' = Some t' \<and> becomes t t'"
    and "\<forall>j. j \<notin> t_id ` set ts \<longrightarrow> get_task_row j s' = get_task_row j s1"
    and "publishes cfg s1 s' (map reattempt_message ts)" and "tasks s1 = tasks s" "outbox s1 = outbox s"
  shows "takes_to_queue cfg becomes ts s s'"
  using assms by (simp add: takes_to_queue_def get_task_row_def publishes_def)

lemma requeue_due_tasks_effect:
  assumes "integrity s"
  obtains s' where "requeue_due_tasks cfg limit s = Ok (length (due_tasks limit s)) s'" "integrity s'" "later s s'"
    "takes_to_queue cfg requeued_row (due_tasks limit s) s s'"
proof -
  let ?s = "s\<lparr>ticks := Suc (ticks s)\<rparr>"
  obtain s' where s': "for_each (requeue_due cfg) (due_tasks limit s) ?s = Ok () s'" "integrity s'" "later ?s s'"
    "\<forall>t\<in>set (due_tasks limit s). \<exists>t'. get_task_row (t_id t) s' = Some t' \<and> requeued_row t t'"
    "\<forall>j. j \<notin> t_id ` set (due_tasks limit s) \<longrightarrow> get_task_row j s' = get_task_row j ?s"
    "publishes cfg ?s s' (map reattempt_message (due_tasks limit s))"
    by (rule due_loop.selected_loop [OF assms integrity_ticks [OF assms] _ _ due_tasks_def])
      (auto simp: due_def)
  have "requeue_due_tasks cfg limit s = Ok (length (due_tasks limit s)) s'"
    using s'(1) by (simp add: requeue_due_tasks_def now_utc_def due_tasks_def Let_def)
  moreover have "takes_to_queue cfg requeued_row (due_tasks limit s) s s'"
    by (rule takes_to_queue_tick [OF s'(4-6)]) simp_all
  ultimately show ?thesis using that s'(2,3) by (simp add: later_def)
qed

lemma requeue_dlq_tasks_effect:
  assumes "integrity s" "dlq_retry_enabled cfg"
  obtains s' where "requeue_dlq_tasks cfg limit s = Ok (length (dlq_due_tasks cfg limit s)) s'" "integrity s'"
    "later s s'" "takes_to_queue cfg dlq_row (dlq_due_tasks cfg limit s) s s'"
proof -
  let ?s = "s\<lparr>ticks := Suc (ticks s)\<rparr>" and ?ts = "dlq_due_tasks cfg limit s"
  obtain s' where s': "for_each (requeue_dlq cfg) ?ts ?s = Ok () s'" "integrity s'" "later ?s s'"
    "\<forall>t\<in>set ?ts. \<exists>t'. get_task_row (t_id t) s' = Some t' \<and> dlq_row t t'"
    "\<forall>j. j \<notin> t_id ` set ?ts \<longrightarrow> get_task_row j s' = get_task_row j ?s"
    "publishes cfg ?s s' (map reattempt_message ?ts)"
    by (rule dlq_loop.selected_loop [OF assms(1) integrity_ticks [OF assms(1)] _ _ dlq_due_tasks_def])
      (auto simp: dlq_due_def)
  have "requeue_dlq_tasks cfg limit s = Ok (length ?ts) s'"
    using s'(1) assms(2) by (simp add: requeue_dlq_tasks_def now_utc_def dlq_due_tasks_def Let_def)
  moreover have "takes_to_queue cfg dlq_row ?ts s s'"
    by (rule takes_to_queue_tick [OF s'(4-6)]) simp_all
  ultimately show ?thesis using that s'(2,3) by (simp add: later_def)
qed

lemma recover_stuck_tasks_effect:
  assumes "integrity s"
  obtains s' where "recover_stuck_tasks cfg limit s = Ok (length (expired_tasks limit s)) s'" "integrity s'"
    "later s s'" "takes_to_queue cfg requeued_row (expired_tasks limit s) s s'"
proof -
  let ?now = "clock s (ticks s)"
  let ?s = "snd (mark_dead (?now - timedelta_seconds (worker_heartbeat_timeout_seconds cfg)) (s\<lparr>ticks := Suc (ticks s)\<rparr>))"
  let ?ts = "expired_tasks limit s"
  have I: "integrity ?s" by (rule integrity_frame [OF assms]) (simp_all add: mark_dead_def Let_def)
  obtain s' where s': "for_each (recover_one cfg ?now) ?ts ?s = Ok () s'" "integrity s'" "later ?s s'"
    "\<forall>t\<in>set ?ts. \<exists>t'. get_task_row (t_id t) s' = Some t' \<and> requeued_row t t'"
    "\<forall>j. j \<notin> t_id ` set ?ts \<longrightarrow> get_task_row j s' = get_task_row j ?s"
    "publishes cfg ?s s' (map reattempt_message ?ts)"
    by (rule recovery_loop.selected_loop [OF assms I _ _ expired_tasks_def])
      (auto simp: stuck_def mark_dead_def Let_def)
  have "recover_stuck_tasks cfg limit s = Ok (length ?ts) s'"
    using s'(1) by (simp add: recover_stuck_tasks_def now_utc_def expired_tasks_def Let_def case_prod_beta mark_dead_def)
  moreover have "takes_to_queue cfg requeued_row ?ts s s'"
    by (rule takes_to_queue_tick [OF s'(4-6)]) (simp_all add: mark_dead_def Let_def)
  ultimately show ?thesis using that s'(2,3) by (simp add: later_def mark_dead_def Let_def)
qed

section \<open>Purge\<close>

definition old_enough :: "settings \<Rightarrow> time \<Rightarrow> task \<Rightarrow> bool" where
  "old_enough cfg now t \<longleftrightarrow>
     retention_done_tasks_days cfg > 0 \<and>
       optional_until (now - timedelta_days (retention_done_tasks_days cfg)) (t_finished_at t) \<or>
     retention_dlq_tasks_days cfg > 0 \<and> t_status t = DeadLetter \<and> t_dlq_retry_at t = None \<and>
       optional_until (now - timedelta_days (retention_dlq_tasks_days cfg)) (t_finished_at t)"

lemma purge_tasks_removed:
  assumes "distinct (map t_id (tasks s))" "t \<in> set (tasks s)" "t \<notin> set (tasks (snd (purge_tasks P limit s)))"
  shows "P t"
proof -
  let ?sel = "order_limit t_id limit (filter P (tasks s))"
  have sel: "set ?sel \<subseteq> {t \<in> set (tasks s). P t}" using set_order_limit [of t_id limit "filter P (tasks s)"] by auto
  have "t_id t \<in> t_id ` set ?sel"
    using assms(2,3) by (auto simp: purge_tasks_def Let_def delete_tasks_def)
  then obtain t' where t': "t' \<in> set ?sel" "t_id t' = t_id t" by auto
  then have "t' = t" using assms(1,2) sel by (auto simp: distinct_map dest: inj_onD)
  then show ?thesis using t'(1) sel by auto
qed

lemma purge_tasks_kept: "t \<in> set (tasks (snd (purge_tasks P limit s))) \<Longrightarrow> t \<in> set (tasks s)"
  by (auto simp: purge_tasks_def Let_def delete_tasks_def)

lemma purge_tasks_distinct:
  "distinct (map t_id (tasks s)) \<Longrightarrow> distinct (map t_id (tasks (snd (purge_tasks P limit s))))"
  by (auto simp: purge_tasks_def Let_def delete_tasks_def distinct_map_filter)

lemma delete_old_tasks_frame [simp]:
  "tasks (snd (delete_old_outbox c limit s)) = tasks s"
  "tasks (snd (delete_old_audit c limit s)) = tasks s"
  by (simp_all add: delete_old_outbox_def delete_old_audit_def Let_def)

lemma purge_when_removed:
  assumes "distinct (map t_id (tasks s))" "t \<in> set (tasks s)"
    and "t \<notin> set (tasks (snd (if c then purge_tasks P limit s else (0, s))))"
  shows "c \<and> P t"
  using assms purge_tasks_removed [OF assms(1,2)] by (auto split: if_splits)

lemma purge_effect:
  assumes "distinct (map t_id (tasks s))"
  shows "set (tasks (snd (purge_old_data cfg limit_arg s))) \<subseteq> set (tasks s)"
    and "t \<in> set (tasks s) \<Longrightarrow> t \<notin> set (tasks (snd (purge_old_data cfg limit_arg s))) \<Longrightarrow>
      old_enough cfg (clock s (ticks s)) t"
proof -
  let ?limit = "case limit_arg of Some (Suc n) \<Rightarrow> Suc n | _ \<Rightarrow> retention_cleanup_batch_size cfg"
  let ?now = "clock s (ticks s)" and ?s = "s\<lparr>ticks := Suc (ticks s)\<rparr>"
  let ?P = "\<lambda>t. optional_until (?now - timedelta_days (retention_done_tasks_days cfg)) (t_finished_at t)"
  let ?Q = "\<lambda>t. t_status t = DeadLetter \<and> t_dlq_retry_at t = None \<and>
    optional_until (?now - timedelta_days (retention_dlq_tasks_days cfg)) (t_finished_at t)"
  let ?s1 = "snd (if retention_done_tasks_days cfg > 0 then purge_tasks ?P ?limit ?s else (0, ?s))"
  let ?s2 = "snd (if retention_dlq_tasks_days cfg > 0 then purge_tasks ?Q ?limit ?s1 else (0, ?s1))"
  have tasks: "tasks (snd (purge_old_data cfg limit_arg s)) = tasks ?s2"
    by (simp add: purge_old_data_def now_utc_def Let_def case_prod_beta)
  have d1: "distinct (map t_id (tasks ?s1))" using assms by (simp add: purge_tasks_distinct)
  show "set (tasks (snd (purge_old_data cfg limit_arg s))) \<subseteq> set (tasks s)"
    unfolding tasks by (auto dest!: purge_tasks_kept split: if_splits)
  assume "t \<in> set (tasks s)" and gone: "t \<notin> set (tasks (snd (purge_old_data cfg limit_arg s)))"
  then have here: "t \<in> set (tasks ?s)" by simp
  show "old_enough cfg ?now t"
  proof (cases "t \<in> set (tasks ?s1)")
    case True
    from purge_when_removed [OF d1 True, of "retention_dlq_tasks_days cfg > 0" ?Q ?limit]
    show ?thesis using gone unfolding tasks old_enough_def by blast
  next
    case False
    from purge_when_removed [of ?s t "retention_done_tasks_days cfg > 0" ?P ?limit]
    show ?thesis using here assms False unfolding old_enough_def by auto
  qed
qed

end
