(* ===== verification/Webhooks.thy ===== *)
theory Webhooks
  imports Integrity Audit_Log
begin

text \<open>
  Webhooks: the signature and the sending of a notification and the dispatch of due deliveries
  (\<open>app/services/webhooks.py\<close>), the validation of the events of a subscription and its changes
  (\<open>app/api/routes/webhooks.py\<close>). The enqueueing is in \<open>Task_State\<close>. Outside the repository, so
  parameters: \<open>json.dumps\<close> and HMAC-SHA256 (\<open>dumps\<close>, \<open>hmac_hex\<close>) and the HTTP client (\<open>http\<close>).
\<close>

section \<open>Sending\<close>

record http_request =
  r_url :: string
  r_body :: string
  r_headers :: "(string \<times> string) list"

datatype http_result = Response int string | HTTPError string | OtherError string string

definition sign :: "(string \<Rightarrow> string \<Rightarrow> string) \<Rightarrow> string option \<Rightarrow> string \<Rightarrow> string" where
  "sign hmac_hex secret body =
     ''sha256='' @ hmac_hex (case secret of None \<Rightarrow> [] | Some k \<Rightarrow> k) body"

definition is_success :: "int \<Rightarrow> bool" where
  "is_success code \<longleftrightarrow> 200 \<le> code \<and> code \<le> 299"

definition request_for ::
    "(json \<Rightarrow> string) \<Rightarrow> (string \<Rightarrow> string \<Rightarrow> string) \<Rightarrow> subscription \<Rightarrow> json \<Rightarrow> http_request" where
  "request_for dumps hmac_hex sub payload =
     (let body = dumps payload in
      \<lparr>r_url = s_url sub, r_body = body,
       r_headers =
         [(''Content-Type'', ''application/json''),
          (''X-Platform-Event'', (case json_get payload ''event'' of Some (JStr e) \<Rightarrow> e | _ \<Rightarrow> [])),
          (''X-Platform-Signature'', sign hmac_hex (s_secret sub) body),
          (''X-Platform-Integration'', ''DistributedTaskPlatform'')]\<rparr>)"

definition send_now ::
    "(json \<Rightarrow> string) \<Rightarrow> (string \<Rightarrow> string \<Rightarrow> string) \<Rightarrow> (http_request \<Rightarrow> http_result) \<Rightarrow>
     subscription \<Rightarrow> json \<Rightarrow> bool \<times> int option \<times> string" where
  "send_now dumps hmac_hex http sub payload =
     (case http (request_for dumps hmac_hex sub payload) of
        Response code body \<Rightarrow>
          if is_success code then (True, Some code, [])
          else (False, Some code, ''HTTP '' @ show_int code @ '': '' @ take 500 body)
      | HTTPError exc \<Rightarrow> (False, None, ''HTTPError: '' @ exc)
      | OtherError name exc \<Rightarrow> (False, None, name @ '': '' @ exc))"

section \<open>Dispatch\<close>

type_synonym sender = "subscription \<Rightarrow> json \<Rightarrow> bool \<times> int option \<times> string"

definition retry_delay :: "settings \<Rightarrow> int \<Rightarrow> time" where
  "retry_delay cfg attempts_so_far =
     timedelta_seconds (webhook_retry_backoff_seconds cfg * (2 powi (attempts_so_far - 1)))"

definition subscription_gone :: string where
  "subscription_gone = ''Pidpysku vydaleno abo deaktyvovano''"

text \<open>The delivery row after one attempt at it; \<open>sub\<close> is its subscription's row, if any.\<close>

definition attempt_delivery :: "settings \<Rightarrow> sender \<Rightarrow> time \<Rightarrow> subscription option \<Rightarrow> delivery \<Rightarrow> delivery" where
  "attempt_delivery cfg send now sub d =
     (case sub of
        None \<Rightarrow> d\<lparr>w_status := DELIVERY_FAILED, w_last_error := Some subscription_gone\<rparr>
      | Some sub \<Rightarrow>
          if \<not> s_is_active sub then d\<lparr>w_status := DELIVERY_FAILED, w_last_error := Some subscription_gone\<rparr>
          else case send sub (w_payload d) of (ok, code, err) \<Rightarrow>
            if ok then d\<lparr>w_status := DELIVERY_SENT, w_last_error := None\<rparr>
            else
              let d = d\<lparr>w_attempts := w_attempts d + 1, w_last_error := Some (take 1000 err)\<rparr> in
              if w_attempts d \<ge> webhook_max_attempts cfg then d\<lparr>w_status := DELIVERY_FAILED\<rparr>
              else d\<lparr>w_next_retry_at := now + retry_delay cfg (w_attempts d)\<rparr>)"

definition dispatch_one :: "settings \<Rightarrow> sender \<Rightarrow> time \<Rightarrow> delivery \<Rightarrow> db \<Rightarrow> db" where
  "dispatch_one cfg send now d s =
     s\<lparr>deliveries := update_row w_id (w_id d)
         (attempt_delivery cfg send now (find_row s_id (w_subscription_id d) (subscriptions s))) (deliveries s)\<rparr>"

definition delivery_due :: "time \<Rightarrow> delivery \<Rightarrow> bool" where
  "delivery_due now d \<longleftrightarrow> w_status d = DELIVERY_PENDING \<and> w_next_retry_at d \<le> now"

definition dispatch_due :: "settings \<Rightarrow> sender \<Rightarrow> nat \<Rightarrow> db \<Rightarrow> nat \<times> db" where
  "dispatch_due cfg send limit s =
     (let (now, s) = now_utc s;
          dues = order_limit w_id limit (filter (delivery_due now) (deliveries s))
      in (length dues, fold (dispatch_one cfg send now) dues s))"

section \<open>Subscriptions\<close>

definition validate_events :: "string list \<Rightarrow> bool" where
  "validate_events evs \<longleftrightarrow> filter (\<lambda>e. e \<notin> set TASK_EVENT_TYPES \<union> {''*''}) evs = []"

record webhook_update =
  u_name :: "string option"
  u_url :: "string option"
  u_secret :: "string option"
  u_events :: "string list option"
  u_is_active :: "bool option"

definition webhook_changes :: "webhook_update \<Rightarrow> subscription \<Rightarrow> subscription" where
  "webhook_changes body sub =
     sub\<lparr>s_events := (case u_events body of None \<Rightarrow> s_events sub | Some x \<Rightarrow> x),
         s_name := (case u_name body of None \<Rightarrow> s_name sub | Some x \<Rightarrow> x),
         s_url := (case u_url body of None \<Rightarrow> s_url sub | Some x \<Rightarrow> x),
         s_is_active := (case u_is_active body of None \<Rightarrow> s_is_active sub | Some x \<Rightarrow> x),
         s_secret := (case u_secret body of None \<Rightarrow> s_secret sub | Some x \<Rightarrow> Some x)\<rparr>"

definition create_webhook ::
    "actor \<Rightarrow> string option \<Rightarrow> string \<Rightarrow> string \<Rightarrow> string option \<Rightarrow> string list \<Rightarrow> db \<Rightarrow>
     subscription response \<times> db" where
  "create_webhook admin ip name url secret evs s =
     (if \<not> validate_events evs then (Status 400, s)
      else
        let sub = \<lparr>s_id = seq_subscription s, s_name = name, s_url = url, s_secret = secret,
                   s_events = evs, s_is_active = True\<rparr>;
            s = s\<lparr>subscriptions := subscriptions s @ [sub], seq_subscription := seq_subscription s + 1\<rparr>
        in (Reply sub, audit admin ''webhook.create'' ''webhook'' (Some (show_int (s_id sub))) None ip s))"

definition update_webhook ::
    "actor \<Rightarrow> string option \<Rightarrow> int \<Rightarrow> webhook_update \<Rightarrow> db \<Rightarrow> subscription response \<times> db" where
  "update_webhook admin ip wid body s =
     (case find_row s_id wid (subscriptions s) of
        None \<Rightarrow> (Status 404, s)
      | Some sub \<Rightarrow>
          if (case u_events body of None \<Rightarrow> False | Some evs \<Rightarrow> \<not> validate_events evs) then (Status 400, s)
          else
            let s = s\<lparr>subscriptions := update_row s_id wid (webhook_changes body) (subscriptions s)\<rparr>
            in (Reply (webhook_changes body sub),
                audit admin ''webhook.update'' ''webhook'' (Some (show_int wid)) None ip s))"

text \<open>Deleting a subscription deletes its deliveries (\<open>ON DELETE CASCADE\<close>).\<close>

definition delete_webhook :: "actor \<Rightarrow> string option \<Rightarrow> int \<Rightarrow> db \<Rightarrow> unit response \<times> db" where
  "delete_webhook admin ip wid s =
     (case find_row s_id wid (subscriptions s) of
        None \<Rightarrow> (Status 404, s)
      | Some sub \<Rightarrow>
          let s = audit admin ''webhook.delete'' ''webhook'' (Some (show_int wid)) None ip s in
          (Reply (), s\<lparr>subscriptions := filter (\<lambda>sub. s_id sub \<noteq> wid) (subscriptions s),
                       deliveries := filter (\<lambda>d. w_subscription_id d \<noteq> wid) (deliveries s)\<rparr>))"

definition test_payload :: "subscription \<Rightarrow> time \<Rightarrow> json" where
  "test_payload sub now =
     JObj [(''event'', JStr ''test.ping''), (''subscription_id'', JInt (s_id sub)), (''delivery_id'', JInt 0),
           (''timestamp'', JIso now),
           (''task'', JObj [(''id'', JInt 0), (''task_type'', JStr ''none''), (''status'', JStr ''none''),
                            (''priority'', JStr ''normal''), (''attempts'', JInt 0), (''task_id'', JInt 0)])]"

definition test_webhook ::
    "sender \<Rightarrow> actor \<Rightarrow> string option \<Rightarrow> int \<Rightarrow> db \<Rightarrow> (bool \<times> string \<times> int option) response \<times> db" where
  "test_webhook send admin ip wid s =
     (case find_row s_id wid (subscriptions s) of
        None \<Rightarrow> (Status 404, s)
      | Some sub \<Rightarrow>
          (case now_utc s of (now, s) \<Rightarrow>
             case send sub (test_payload sub now) of (ok, code, err) \<Rightarrow>
               (Reply (ok, if err = [] then ''ok'' else err, code),
                audit admin ''webhook.test'' ''webhook'' (Some (show_int wid))
                  (Some (JObj [(''ok'', JBool ok)])) ip s)))"

definition list_webhooks :: "db \<Rightarrow> subscription list" where
  "list_webhooks s = rev (sort_key s_id (subscriptions s))"

fun delivery_status_name :: "delivery_status \<Rightarrow> string" where
  "delivery_status_name DELIVERY_PENDING = ''pending''"
| "delivery_status_name DELIVERY_SENT = ''sent''"
| "delivery_status_name DELIVERY_FAILED = ''failed''"

definition delivery_filters :: "int option \<Rightarrow> string option \<Rightarrow> delivery \<Rightarrow> bool" where
  "delivery_filters sid st d \<longleftrightarrow>
     (case sid of None \<Rightarrow> True | Some i \<Rightarrow> w_subscription_id d = i) \<and>
     (case st of None \<Rightarrow> True | Some x \<Rightarrow> x = [] \<or> delivery_status_name (w_status d) = x)"

definition list_deliveries :: "int option \<Rightarrow> string option \<Rightarrow> nat \<Rightarrow> nat \<Rightarrow> db \<Rightarrow> delivery list" where
  "list_deliveries sid st limit offset s = page w_id limit offset (filter (delivery_filters sid st) (deliveries s))"

definition count_deliveries :: "int option \<Rightarrow> string option \<Rightarrow> db \<Rightarrow> nat" where
  "count_deliveries sid st s = length (filter (delivery_filters sid st) (deliveries s))"

interpretation delivery_listing: paged_listing "list_deliveries sid st" "count_deliveries sid st"
  "\<lambda>s. filter (delivery_filters sid st) (deliveries s)" w_id for sid st
  by unfold_locales (simp_all add: list_deliveries_def count_deliveries_def)

section \<open>What a dispatch pass does\<close>

lemma attempt_delivery_id [simp]: "w_id (attempt_delivery cfg send now sub d) = w_id d"
  by (simp add: attempt_delivery_def Let_def split: option.split prod.split)

definition due_deliveries :: "nat \<Rightarrow> db \<Rightarrow> delivery list" where
  "due_deliveries limit s = order_limit w_id limit (filter (delivery_due (clock s (ticks s))) (deliveries s))"

lemma fold_dispatch_one:
  "fold (dispatch_one cfg send now) ds s =
   s\<lparr>deliveries := fold (\<lambda>d. update_row w_id (w_id d)
       (attempt_delivery cfg send now (find_row s_id (w_subscription_id d) (subscriptions s)))) ds (deliveries s)\<rparr>"
  by (induction ds arbitrary: s) (simp_all add: dispatch_one_def)

lemma dispatch_due_effect:
  assumes "distinct (map w_id (deliveries s))"
  shows "dispatch_due cfg send limit s =
    (length (due_deliveries limit s),
     s\<lparr>ticks := Suc (ticks s),
       deliveries := map (\<lambda>d. if d \<in> set (due_deliveries limit s)
         then attempt_delivery cfg send (clock s (ticks s)) (find_row s_id (w_subscription_id d) (subscriptions s)) d
         else d) (deliveries s)\<rparr>)"
proof -
  let ?now = "clock s (ticks s)" and ?ds = "due_deliveries limit s"
  have "set ?ds \<subseteq> set (deliveries s)"
    unfolding due_deliveries_def using set_order_limit [of w_id limit "filter (delivery_due ?now) (deliveries s)"] by auto
  moreover have "distinct (map w_id ?ds)"
    unfolding due_deliveries_def by (intro distinct_order_limit distinct_map_filter assms)
  ultimately have "fold (\<lambda>d. update_row w_id (w_id d)
       (attempt_delivery cfg send ?now (find_row s_id (w_subscription_id d) (subscriptions s)))) ?ds (deliveries s) =
     map (\<lambda>d. if d \<in> set ?ds
       then attempt_delivery cfg send ?now (find_row s_id (w_subscription_id d) (subscriptions s)) d else d) (deliveries s)"
    using assms by (intro fold_update_row) simp_all
  then show ?thesis
    by (simp add: dispatch_due_def now_utc_def fold_dispatch_one due_deliveries_def Let_def)
qed

definition delivery_ok :: "settings \<Rightarrow> delivery \<Rightarrow> bool" where
  \<comment> \<open>a pending delivery has attempts left, none is attempted more often than the limit, and the
    error fits its column\<close>
  "delivery_ok cfg d \<longleftrightarrow>
     0 \<le> w_attempts d \<and> w_attempts d \<le> webhook_max_attempts cfg \<and>
     (w_status d = DELIVERY_PENDING \<longrightarrow> w_attempts d < webhook_max_attempts cfg) \<and>
     fits_width 1000 (w_last_error d)"

lemma delivery_ok_attempt:
  "delivery_ok cfg d \<Longrightarrow> w_status d = DELIVERY_PENDING \<Longrightarrow>
   delivery_ok cfg (attempt_delivery cfg send now sub d)"
  by (auto simp: delivery_ok_def attempt_delivery_def subscription_gone_def Let_def split: option.split prod.split)

section \<open>What the enqueueing does\<close>

definition new_delivery :: "string \<Rightarrow> task \<Rightarrow> delivery \<Rightarrow> bool" where
  "new_delivery ev obj d \<longleftrightarrow>
     w_event_type d = ev \<and> w_task_id d = Some (t_id obj) \<and> w_status d = DELIVERY_PENDING \<and> w_attempts d = 0 \<and>
     json_get (w_payload d) ''event'' = Some (JStr ev) \<and>
     json_get (w_payload d) ''delivery_id'' = Some (JInt (w_id d)) \<and>
     json_get (w_payload d) ''subscription_id'' = Some (JInt (w_subscription_id d)) \<and>
     json_get (w_payload d) ''task'' = Some (task_payload obj)"

lemma enqueue_all_effect:
  "\<exists>new. deliveries (enqueue_all ev obj now subs s) = deliveries s @ new \<and>
     map w_subscription_id new = map s_id (filter (\<lambda>sub. matches sub ev) subs) \<and>
     (\<forall>d\<in>set new. new_delivery ev obj d)"
proof (induction subs arbitrary: s)
  case (Cons sub subs)
  show ?case
  proof (cases "matches sub ev")
    case False
    then show ?thesis using Cons.IH [of s] by simp
  next
    case True
    obtain new where new: "deliveries (enqueue_all ev obj now subs (enqueue_delivery ev obj now sub s)) =
        deliveries (enqueue_delivery ev obj now sub s) @ new"
      "map w_subscription_id new = map s_id (filter (\<lambda>sub. matches sub ev) subs)"
      "\<forall>d\<in>set new. new_delivery ev obj d"
      using Cons.IH [of "enqueue_delivery ev obj now sub s"] by blast
    obtain d where d: "deliveries (enqueue_delivery ev obj now sub s) = deliveries s @ [d]"
      "w_subscription_id d = s_id sub" "new_delivery ev obj d"
      by (auto simp: enqueue_delivery_def new_delivery_def)
    show ?thesis
      using True new d by (intro exI [of _ "d # new"]) simp
  qed
qed simp

lemma enqueue_for_effect:
  obtains new where "deliveries (enqueue_for ev obj s) = deliveries s @ new"
    "map w_subscription_id new = map s_id (filter (\<lambda>sub. s_is_active sub \<and> matches sub ev) (subscriptions s))"
    "\<forall>d\<in>set new. new_delivery ev obj d"
proof (cases "filter s_is_active (subscriptions s) = []")
  case True
  then have "filter (\<lambda>sub. s_is_active sub \<and> matches sub ev) (subscriptions s) = []"
    by (auto simp: filter_empty_conv)
  then show ?thesis using that [of "[]"] True by (simp add: enqueue_for_def)
next
  case False
  then show ?thesis
    using enqueue_all_effect [of ev obj "fst (now_utc s)" "filter s_is_active (subscriptions s)" "snd (now_utc s)"] that
    by (auto simp: enqueue_for_def now_utc_def conj_commute)
qed

end
