(* ===== verification/Registry.thy ===== *)
theory Registry
  imports Scheduler Listing
begin

text \<open>
  The registry of workers (\<open>app/services/workers.py\<close>), the heartbeat of a worker process
  (\<open>run_heartbeat\<close> of \<open>app/worker/main.py\<close>) and the statistics (\<open>app/services/stats.py\<close>).
\<close>

section \<open>Workers\<close>

definition find_worker :: "string \<Rightarrow> db \<Rightarrow> worker option" where
  "find_worker wid s = List.find (\<lambda>w. k_worker_id w = wid) (workers s)"

definition update_worker :: "string \<Rightarrow> (worker \<Rightarrow> worker) \<Rightarrow> db \<Rightarrow> db" where
  "update_worker wid f s =
     s\<lparr>workers := map (\<lambda>w. if k_worker_id w = wid then f w else w) (workers s)\<rparr>"

definition register_worker :: "string \<Rightarrow> string \<Rightarrow> int \<Rightarrow> db \<Rightarrow> worker \<times> db" where
  "register_worker wid hostname pid s =
     (let found = find_worker wid s; (now, s) = now_utc s in
      case found of
        None \<Rightarrow>
          let w = \<lparr>k_id = seq_worker s, k_worker_id = wid, k_hostname = hostname, k_pid = pid,
                   k_status = WORKER_ALIVE, k_started_at = now, k_last_heartbeat_at = now\<rparr>
          in (w, s\<lparr>workers := workers s @ [w], seq_worker := seq_worker s + 1\<rparr>)
      | Some w \<Rightarrow>
          let f = (\<lambda>w. w\<lparr>k_status := WORKER_ALIVE, k_pid := pid, k_hostname := hostname,
                         k_started_at := now, k_last_heartbeat_at := now\<rparr>)
          in (f w, update_worker wid f s))"

definition heartbeat :: "string \<Rightarrow> db \<Rightarrow> worker option \<times> db" where
  "heartbeat wid s =
     (case find_worker wid s of
        None \<Rightarrow> (None, s)
      | Some w \<Rightarrow>
          (case now_utc s of (now, s) \<Rightarrow>
             let f = (\<lambda>w. w\<lparr>k_last_heartbeat_at := now, k_status := WORKER_ALIVE\<rparr>)
             in (Some (f w), update_worker wid f s)))"

definition mark_dead_workers :: "time \<Rightarrow> db \<Rightarrow> nat \<times> db" where
  "mark_dead_workers stale_before s =
     (case mark_dead stale_before s of (ids, s) \<Rightarrow> (length ids, s))"

definition list_workers :: "db \<Rightarrow> worker list" where
  "list_workers s = rev (sort_key k_last_heartbeat_at (workers s))"

text \<open>One turn of the heartbeat loop: whether the worker had to be registered.\<close>

definition heartbeat_tick :: "string \<Rightarrow> string \<Rightarrow> int \<Rightarrow> db \<Rightarrow> bool \<times> db" where
  "heartbeat_tick wid hostname pid s =
     (case heartbeat wid s of
        (None, s) \<Rightarrow> (True, snd (register_worker wid hostname pid s))
      | (Some w, s) \<Rightarrow> (False, s))"

definition workers_ok :: "db \<Rightarrow> bool" where
  "workers_ok s \<longleftrightarrow> distinct (map k_worker_id (workers s))"

lemma find_worker_None: "find_worker wid s = None \<longleftrightarrow> wid \<notin> k_worker_id ` set (workers s)"
  by (auto simp: find_worker_def find_None_iff)

lemma find_worker_SomeD: "find_worker wid s = Some w \<Longrightarrow> w \<in> set (workers s) \<and> k_worker_id w = wid"
  by (auto simp: find_worker_def find_Some_iff)

lemma find_worker_append:
  "List.find P (xs @ ys) = (case List.find P xs of None \<Rightarrow> List.find P ys | Some x \<Rightarrow> Some x)"
  by (induction xs) auto

lemma find_worker_update:
  assumes "\<And>w. k_worker_id (f w) = k_worker_id w"
  shows "find_worker v (update_worker wid f s) =
    (if v = wid then map_option f (find_worker v s) else find_worker v s)"
proof -
  have "List.find (\<lambda>w. k_worker_id w = v) (map (\<lambda>w. if k_worker_id w = wid then f w else w) ws) =
    (if v = wid then map_option f (List.find (\<lambda>w. k_worker_id w = v) ws)
     else List.find (\<lambda>w. k_worker_id w = v) ws)" for ws
    using assms by (induction ws) auto
  then show ?thesis by (simp add: find_worker_def update_worker_def)
qed

lemma workers_ok_update:
  assumes "\<And>w. k_worker_id (f w) = k_worker_id w"
  shows "workers_ok (update_worker wid f s) \<longleftrightarrow> workers_ok s"
proof -
  have "map k_worker_id (map (\<lambda>w. if k_worker_id w = wid then f w else w) ws) = map k_worker_id ws" for ws
    using assms by (induction ws) auto
  then show ?thesis by (simp add: workers_ok_def update_worker_def del: map_map)
qed

lemma heartbeat_tick_effect:
  assumes "workers_ok s"
  obtains w where "find_worker wid (snd (heartbeat_tick wid hostname pid s)) = Some w"
    and "k_status w = WORKER_ALIVE" "k_last_heartbeat_at w = clock s (ticks s)"
    and "workers_ok (snd (heartbeat_tick wid hostname pid s))"
    and "\<And>v. v \<noteq> wid \<Longrightarrow> find_worker v (snd (heartbeat_tick wid hostname pid s)) = find_worker v s"
proof (cases "find_worker wid s")
  case (Some w)
  let ?f = "\<lambda>w. w\<lparr>k_last_heartbeat_at := clock s (ticks s), k_status := WORKER_ALIVE\<rparr>"
  have tick: "snd (heartbeat_tick wid hostname pid s) = update_worker wid ?f (s\<lparr>ticks := Suc (ticks s)\<rparr>)"
    using Some by (simp add: heartbeat_tick_def heartbeat_def now_utc_def Let_def)
  have same: "find_worker v (s\<lparr>ticks := n\<rparr>) = find_worker v s" "workers_ok (s\<lparr>ticks := n\<rparr>) = workers_ok s" for v n
    by (simp_all add: find_worker_def workers_ok_def)
  show ?thesis
    by (rule that [of "?f w"]) (use Some assms in \<open>simp_all add: tick find_worker_update workers_ok_update same\<close>)
next
  case None
  let ?w = "\<lparr>k_id = seq_worker s, k_worker_id = wid, k_hostname = hostname, k_pid = pid,
     k_status = WORKER_ALIVE, k_started_at = clock s (ticks s), k_last_heartbeat_at = clock s (ticks s)\<rparr>"
  have tick: "snd (heartbeat_tick wid hostname pid s) =
      s\<lparr>ticks := Suc (ticks s), workers := workers s @ [?w], seq_worker := seq_worker s + 1\<rparr>"
    using None by (simp add: heartbeat_tick_def heartbeat_def register_worker_def now_utc_def Let_def)
  have "find_worker v (snd (heartbeat_tick wid hostname pid s)) = (if v = wid then Some ?w else find_worker v s)" for v
    using None unfolding tick by (auto simp: find_worker_def find_worker_append split: option.split)
  moreover have "workers_ok (snd (heartbeat_tick wid hostname pid s))"
    using None assms unfolding tick find_worker_None by (simp add: workers_ok_def)
  ultimately show ?thesis by (intro that [of ?w]) simp_all
qed

lemma mark_dead_find:
  "find_worker wid (snd (mark_dead cutoff s)) =
   map_option (\<lambda>w. if k_last_heartbeat_at w < cutoff \<and> k_status w = WORKER_ALIVE
                   then w\<lparr>k_status := WORKER_DEAD\<rparr> else w) (find_worker wid s)"
proof -
  have "List.find (\<lambda>w. k_worker_id w = wid) (map (\<lambda>w. if Q w then w\<lparr>k_status := WORKER_DEAD\<rparr> else w) ws) =
    map_option (\<lambda>w. if Q w then w\<lparr>k_status := WORKER_DEAD\<rparr> else w) (List.find (\<lambda>w. k_worker_id w = wid) ws)"
    for Q ws by (induction ws) auto
  then show ?thesis by (simp add: find_worker_def mark_dead_def Let_def)
qed

section \<open>Statistics\<close>

definition counts_by :: "('r \<Rightarrow> 'k) \<Rightarrow> 'k list \<Rightarrow> 'r list \<Rightarrow> ('k \<times> nat) list" where
  \<comment> \<open>a count for every label of the list, zero for one no row has\<close>
  "counts_by label labels rows = map (\<lambda>k. (k, length (filter (\<lambda>r. label r = k) rows))) labels"

record stats =
  st_tasks_total :: nat
  st_by_status :: "(task_status \<times> nat) list"
  st_by_priority :: "(task_priority \<times> nat) list"
  st_by_type :: "(string \<times> nat) list"
  st_attempts_total :: nat
  st_attempts_by_status :: "(attempt_status \<times> nat) list"
  st_workers_total :: nat
  st_workers_by_status :: "(worker_status \<times> nat) list"

definition build_stats :: "db \<Rightarrow> stats" where
  "build_stats s =
     (let by_status = counts_by t_status TASK_STATUSES (tasks s);
          by_priority = counts_by t_priority TASK_PRIORITIES (tasks s);
          by_type = counts_by t_task_type (remdups (map t_task_type (tasks s))) (tasks s);
          attempt_statuses = counts_by a_status ATTEMPT_STATUSES (attempts s);
          worker_counts = counts_by k_status WORKER_STATUSES (workers s)
      in \<lparr>st_tasks_total = sum_list (map snd by_status), st_by_status = by_status,
          st_by_priority = by_priority, st_by_type = by_type,
          st_attempts_total = sum_list (map snd attempt_statuses),
          st_attempts_by_status = attempt_statuses,
          st_workers_total = sum_list (map snd worker_counts), st_workers_by_status = worker_counts\<rparr>)"

lemma sum_counts_by:
  assumes "distinct labels" "label ` set rows \<subseteq> set labels"
  shows "sum_list (map snd (counts_by label labels rows)) = length rows"
  using assms(2)
proof (induction rows)
  case Nil
  then show ?case by (simp add: counts_by_def comp_def)
next
  case (Cons r rows)
  have "length (filter (\<lambda>r. label r = k) (r # rows)) =
      (if label r = k then 1 else 0) + length (filter (\<lambda>r. label r = k) rows)" for k
    by simp
  then have "sum_list (map snd (counts_by label labels (r # rows))) =
      sum_list (map (\<lambda>k. (if label r = k then 1 else 0) + length (filter (\<lambda>r. label r = k) rows)) labels)"
    by (simp only: counts_by_def map_map comp_def snd_conv)
  also have "\<dots> = sum_list (map (\<lambda>k. if label r = k then 1 else 0) labels) + length rows"
    using Cons by (simp add: sum_list_addf counts_by_def comp_def)
  also have "sum_list (map (\<lambda>k. if label r = k then 1 else (0::nat)) labels) = 1"
    using assms(1) Cons.prems by (simp add: sum_list_distinct_conv_sum_set)
  finally show ?case by simp
qed

lemma stats_totals:
  "st_tasks_total (build_stats s) = length (tasks s)"
  "sum_list (map snd (st_by_priority (build_stats s))) = length (tasks s)"
  "sum_list (map snd (st_by_type (build_stats s))) = length (tasks s)"
  "st_attempts_total (build_stats s) = length (attempts s)"
  "st_workers_total (build_stats s) = length (workers s)"
proof -
  have st: "distinct TASK_STATUSES" by (simp add: TASK_STATUSES_def)
  have pr: "distinct TASK_PRIORITIES" "p \<in> set TASK_PRIORITIES" for p
    by (simp_all add: TASK_PRIORITIES_def) (cases p, simp_all)
  have at: "distinct ATTEMPT_STATUSES" "a \<in> set ATTEMPT_STATUSES" for a
    by (simp_all add: ATTEMPT_STATUSES_def) (cases a, simp_all)
  have wk: "distinct WORKER_STATUSES" "w \<in> set WORKER_STATUSES" for w
    by (simp_all add: WORKER_STATUSES_def) (cases w, simp_all)
  show "st_tasks_total (build_stats s) = length (tasks s)"
    by (simp add: build_stats_def Let_def sum_counts_by [OF st] image_subset_iff)
  show "sum_list (map snd (st_by_priority (build_stats s))) = length (tasks s)"
    using pr(2) by (simp add: build_stats_def Let_def sum_counts_by [OF pr(1)] image_subset_iff)
  show "sum_list (map snd (st_by_type (build_stats s))) = length (tasks s)"
    using sum_counts_by [of "remdups (map t_task_type (tasks s))" t_task_type "tasks s"]
    by (simp add: build_stats_def Let_def)
  show "st_attempts_total (build_stats s) = length (attempts s)"
    using at(2) by (simp add: build_stats_def Let_def sum_counts_by [OF at(1)] image_subset_iff)
  show "st_workers_total (build_stats s) = length (workers s)"
    using wk(2) by (simp add: build_stats_def Let_def sum_counts_by [OF wk(1)] image_subset_iff)
qed

end
