(* ===== verification/Messages.thy ===== *)
theory Messages
  imports Task_Routes Scheduler_Correct Webhooks Registry
begin

text \<open>
  What the operations do to the two message streams of the database, the outbox and the webhook
  deliveries. The locale \<open>message_invariant\<close> is the interface: a property that survives the
  appending of a message and of a delivery survives every operation. It is interpreted on the
  growth of the sequences, on the integrity of the streams and on the permanence of messages:
  only the relay and the purge change a message once written. No operation of tasks, batches, webhooks or workers touches the
  users and their tokens.
\<close>

section \<open>The interface\<close>

text \<open>The users and their tokens, with their sequences.\<close>

definition accounts :: "db \<Rightarrow> user list \<times> refresh_token list \<times> api_token list \<times> int \<times> int \<times> int" where
  "accounts s = (users s, refresh_tokens s, api_tokens s, seq_user s, seq_refresh s, seq_token s)"

declare accounts_def [simp]

locale message_invariant =
  fixes I :: "db \<Rightarrow> bool"
  assumes frame: "I s \<Longrightarrow> outbox s' = outbox s \<Longrightarrow> deliveries s' = deliveries s \<Longrightarrow>
      accounts s' = accounts s \<Longrightarrow>
      seq_outbox s \<le> seq_outbox s' \<Longrightarrow> seq_delivery s \<le> seq_delivery s' \<Longrightarrow> I s'"
    and message: "I s \<Longrightarrow> I (add_outbox k p s)"
    and enqueued: "I s \<Longrightarrow> I (enqueue_for ev obj s)"
begin

lemma same: "I s \<Longrightarrow> outbox s' = outbox s \<Longrightarrow> deliveries s' = deliveries s \<Longrightarrow>
    accounts s' = accounts s \<Longrightarrow>
    seq_outbox s' = seq_outbox s \<Longrightarrow> seq_delivery s' = seq_delivery s \<Longrightarrow> I s'"
  by (rule frame [of s s']) simp_all

lemma local_step: "I s \<Longrightarrow> I (snd (local_transition obj new ev m s))"
  by (erule same) (simp_all add: db_simps)

lemma cascade: "cascade_invariant I"
  by unfold_locales (simp_all add: local_step enqueued message)

lemma status: "I s \<Longrightarrow> I (final_state (set_status cfg obj new ev m s))"
proof (cases "can_transition (t_status obj) new")
  case True
  assume I: "I s"
  show ?thesis
    by (rule set_status_final [OF True], rule cascade_invariant.after_fuel [OF cascade], rule local_step [OF I])
qed (simp add: set_status_not_allowed)

lemma assigned: "I s \<Longrightarrow> I (snd (assign f (obj, s)))"
  by (erule same) (simp_all add: db_simps)

lemma logged: "I s \<Longrightarrow> I (record_event obj ev st m s)"
  by (erule same) (simp_all add: db_simps)

lemma ticked: "I s \<Longrightarrow> I (s\<lparr>ticks := n\<rparr>)"
  by (erule same) simp_all

lemma attempted: "I s \<Longrightarrow> I (set_attempt aid f s)"
  by (erule same) (simp_all add: set_attempt_def)

lemma audited: "I s \<Longrightarrow> I (audit u a r i d ip s)"
  by (erule same) (simp_all add: db_simps)

lemma queued_new: "I s \<Longrightarrow> I (final_state (enqueue_new cfg t s))"
  unfolding enqueue_new_def by (intro final_state_bindI [where P = I] status) (simp_all add: message)

lemma registered: "I s \<Longrightarrow> I (final_state (register_dependencies tid ps s))"
  by (cases rule: register_dependencies_cases [of tid ps s]) (auto elim: same)

lemma rest_created: "I s \<Longrightarrow> I (final_state (create_rest cfg spec t s))"
proof -
  assume I: "I s"
  have "I (final_state (bind_o (register_dependencies (t_id t) ps s) (\<lambda>_ s. Ok t (record_event t ev st m s))))"
    for ps ev st m
    by (intro final_state_bindI [where P = I] registered I) (simp add: logged)
  moreover have "I (final_state (case now_utc s of (now, s) \<Rightarrow> if run_at > now
      then (case assign (\<lambda>t. t\<lparr>t_scheduled_at := Some run_at\<rparr>) (t, s) of (t, s) \<Rightarrow>
              set_status cfg t Scheduled ev m s)
      else enqueue_new cfg t s))" for run_at ev m
    using I by (auto simp: now_utc_def case_prod_beta intro: status assigned ticked queued_new)
  ultimately show ?thesis
    by (simp add: create_rest_def queued_new I split: option.split list.split)
qed

lemma created: "I s \<Longrightarrow> I (final_state (create_task cfg spec s))"
proof (cases rule: insert_task_cases [of spec s cfg])
  case inserted
  assume "I s"
  then have "I (s\<lparr>seq_task := seq_task s + 1, tasks := tasks s @ [new_task cfg spec s]\<rparr>)" by (rule same) simp_all
  then show ?thesis by (simp add: create_task_def inserted rest_created logged)
qed (auto simp: create_task_def elim: same)

lemma retried: "I s \<Longrightarrow> I (final_state (manual_retry cfg tid s))"
  unfolding manual_retry_def
  by (auto intro!: final_state_bindI [where P = I] status message split: option.split)

lemma cancelled: "I s \<Longrightarrow> I (final_state (cancel_task cfg tid s))"
  unfolding cancel_task_def
  by (auto intro!: final_state_bindI [where P = I] status split: option.split)

lemma started: "I s \<Longrightarrow> I (final_state (start_attempt cfg obj s))"
proof -
  assume I: "I s"
  have new: "I (snd (insert_attempt o1 n now s1))" if "I s1" for o1 n now s1
    by (rule same [OF that]) (simp_all add: insert_attempt_def)
  show ?thesis
    unfolding start_attempt_def
    by (rule final_state_bindI [where P = I], rule status [OF I])
      (auto simp: Let_def case_prod_beta now_utc_def intro!: logged new ticked assigned)
qed

lemma claimed: "I s \<Longrightarrow> I (final_state (claim cfg w tid s))"
proof (cases rule: try_acquire_lease_cases [of tid s w "task_lease_seconds cfg"])
  case (acquired t)
  assume I: "I s"
  then have "I (s\<lparr>ticks := n, tasks := ts\<rparr>)" for n ts by (rule same) simp_all
  then show ?thesis
    unfolding claim_def acquired(4)
    by (auto intro!: final_state_bindI [where P = I] started attempted split: option.split)
qed (simp add: claim_def ticked)

lemma succeeded: "I s \<Longrightarrow> I (final_state (record_success cfg obj aid r s))"
  by (auto simp: record_success_def now_utc_def close_attempt_def case_prod_beta Let_def
      intro!: status assigned ticked attempted)

lemma retry_scheduled: "I s \<Longrightarrow> I (final_state (schedule_retry cfg obj n s))"
  by (auto simp: schedule_retry_def now_utc_def case_prod_beta Let_def intro!: status assigned ticked)

lemma dlq_time_set: "I s \<Longrightarrow> I (snd (set_dlq_retry cfg obj s))"
  by (auto simp: set_dlq_retry_def now_utc_def intro!: assigned ticked)

lemma ended_in_failure: "I s \<Longrightarrow> I (final_state (end_in_failure cfg obj n e retryable s))"
  unfolding end_in_failure_def
  by (rule final_state_bindI [where P = I], erule status) (auto simp: case_prod_beta intro: dlq_time_set)

lemma failed: "I s \<Longrightarrow> I (final_state (record_failure cfg obj aid e retryable s))"
  by (auto simp: record_failure_def now_utc_def close_attempt_def case_prod_beta Let_def
      intro!: retry_scheduled ended_in_failure assigned ticked attempted)

lemma finished: "I s \<Longrightarrow> I (final_state (finish cfg obj aid outcome s))"
  by (cases outcome) (simp_all add: finish_def succeeded failed)

lemma renewed: "I s \<Longrightarrow> I (snd (renew_lease tid w n s))"
  by (auto simp: renew_lease_def now_utc_def Let_def split: option.split elim: same)

lemma republished: "I s \<Longrightarrow> I (republish cfg t s)"
  by (simp add: republish_def message)

lemma for_all:
  assumes "\<And>t s. I s \<Longrightarrow> I (final_state (body t s))"
  shows "I s \<Longrightarrow> I (final_state (for_each body ts s))"
proof (induction ts arbitrary: s)
  case (Cons t ts)
  then show ?case
    unfolding for_each.simps by (intro final_state_bindI [where P = I] assms) auto
qed simp

lemma due_requeued: "I s \<Longrightarrow> I (final_state (requeue_due_tasks cfg limit s))"
  unfolding requeue_due_tasks_def requeue_due_def
  by (auto simp: now_utc_def Let_def
      intro!: final_state_bindI [where P = I] for_all status republished ticked)

lemma dlq_requeued: "I s \<Longrightarrow> I (final_state (requeue_dlq_tasks cfg limit s))"
  unfolding requeue_dlq_tasks_def requeue_dlq_def
  by (auto simp: now_utc_def Let_def case_prod_beta
      intro!: final_state_bindI [where P = I] for_all status republished ticked assigned)

lemma recovered: "I s \<Longrightarrow> I (final_state (recover_stuck_tasks cfg limit s))"
proof -
  assume I: "I s"
  have one: "I (final_state (recover_one cfg now t s))" if "I s" for now t s
    unfolding recover_one_def recover_running_def
    by (rule final_state_bindI [where P = I])
      (use that in \<open>auto simp: Let_def case_prod_beta intro!: status attempted assigned republished split: option.split\<close>)
  have "I (snd (mark_dead c s1))" if "I s1" for c s1
    by (rule same [OF that]) (simp_all add: mark_dead_def Let_def)
  then show ?thesis
    using I unfolding recover_stuck_tasks_def
    by (auto simp: now_utc_def Let_def case_prod_beta
        intro!: final_state_bindI [where P = I] for_all one ticked)
qed

lemma orphans_republished: "I s \<Longrightarrow> I (final_state (requeue_orphaned_queued_tasks cfg limit s))"
proof -
  have "I s1 \<Longrightarrow> I (foldl (\<lambda>s t. republish cfg t s) s1 ts)" for s1 ts
    by (induction ts arbitrary: s1) (simp_all add: republished)
  then show "I s \<Longrightarrow> ?thesis"
    by (simp add: requeue_orphaned_queued_tasks_def now_utc_def Let_def ticked)
qed

lemma batch_created: "I s \<Longrightarrow> I (final_state (create_batch cfg name specs u s))"
proof -
  assume I: "I s"
  have all: "I s \<Longrightarrow> I (final_state (create_all cfg specs s))" for specs s
  proof (induction specs arbitrary: s)
    case (Cons spec specs)
    then show ?case
      unfolding create_all.simps by (intro final_state_bindI [where P = I] created) auto
  qed simp
  have "I (s\<lparr>batches := bs, seq_batch := n\<rparr>)" for bs n by (rule same [OF I]) simp_all
  then show ?thesis
    using I unfolding create_batch_def
    by (auto simp: Let_def intro!: final_state_bindI [where P = I] all)
qed

lemma each_cancelled: "I s \<Longrightarrow> I (final_state (cancel_batch cfg bid s))"
  by (auto simp: cancel_batch_def intro!: cancel_each_invariant [where I = I] cancelled split: option.split)

lemma heartbeat_taken: "I s \<Longrightarrow> I (snd (heartbeat_tick wid hostname pid s))"
  by (erule same)
    (auto simp: heartbeat_tick_def heartbeat_def register_worker_def now_utc_def update_worker_def Let_def split: option.split)

end

section \<open>The sequences grow, so a rollback is harmless\<close>

text \<open>No operation on tasks, batches, webhooks or workers touches the accounts.\<close>

definition grows :: "db \<Rightarrow> db \<Rightarrow> bool" where
  "grows s s' \<longleftrightarrow> seq_outbox s \<le> seq_outbox s' \<and> seq_delivery s \<le> seq_delivery s' \<and> accounts s' = accounts s"

lemma grows_refl [simp]: "grows s s"
  by (simp add: grows_def)

lemma enqueue_all_seq: "seq_delivery s \<le> seq_delivery (enqueue_all ev obj now subs s)"
proof (induction subs arbitrary: s)
  case (Cons sub subs)
  have "seq_delivery s \<le> seq_delivery (enqueue_delivery ev obj now sub s)" by (simp add: enqueue_delivery_def)
  then show ?case using Cons.IH order_trans by auto
qed simp

interpretation seqs_grow: message_invariant "grows s0" for s0
proof unfold_locales
  fix s :: db and ev obj
  assume "grows s0 s"
  then show "grows s0 (enqueue_for ev obj s)"
    using enqueue_all_seq [of "snd (now_utc s)" ev obj "fst (now_utc s)" "filter s_is_active (subscriptions s)"]
    by (auto simp: grows_def enqueue_for_def Let_def now_utc_def db_simps)
qed (auto simp: grows_def add_outbox_def)

context message_invariant begin

lemma rolled_back:
  "I s \<Longrightarrow> grows s s' \<Longrightarrow> I (rollback_to s s')"
  by (erule frame) (simp_all add: rollback_to_def grows_def)

lemma bulk_looped:
  assumes "\<And>tid s. I s \<Longrightarrow> I (final_state (operation tid s))"
  shows "I s \<Longrightarrow> I (final_state (bulk_loop operation ids s))"
  by (rule bulk_loop_invariant [where I = I]) (rule assms)

lemma bulk_created: "I s \<Longrightarrow> I (final_state (bulk_create cfg specs s))"
proof (induction specs arbitrary: s)
  case (Cons spec specs)
  have one: "I (final_state (create_task cfg spec s))" by (rule created [OF Cons.prems])
  have undone: "I (rollback_to s (final_state (create_task cfg spec s)))"
    using seqs_grow.created [where s0 = s and s = s] by (intro rolled_back [OF Cons.prems]) simp
  have rest: "I (final_state (bind_o (bulk_create cfg specs s') f))"
    if "I s'" "\<And>x s'. final_state (f x s') = s'"
    for s' and f :: "_ \<Rightarrow> db \<Rightarrow> (task list \<times> task_spec list) result"
    using Cons.IH [OF that(1)] that(2) by (cases "bulk_create cfg specs s'") auto
  show ?case
  proof (cases "create_task cfg spec s")
    case (Ok t s')
    then show ?thesis using one by (auto intro!: rest)
  next
    case (Raise e s')
    then show ?thesis using undone by (cases e) (auto intro!: rest)
  qed
qed simp

end

end
