(* ===== verification/Rate_Limit.thy ===== *)
theory Rate_Limit
  imports Platform_Data
begin

text \<open>
  Rate limiting (\<open>app/core/rate_limit.py\<close>) and the two in-process limiters of the auth routes
  (\<open>app/services/auth.py\<close>). Readings of \<open>time.monotonic\<close> and \<open>time.time\<close> are arguments. The
  Redis server is outside the repository: its sorted-set commands are a parameter of the Lua
  script, with their documented behaviour as hypothesis. What all these limiters promise is
  one contract, the locale \<open>sliding_window\<close>.
\<close>

section \<open>The contract\<close>

text \<open>\<open>hits s\<close> are the accepted calls a state remembers.\<close>

fun accepted :: "(rat \<Rightarrow> 's \<Rightarrow> bool \<times> 's) \<Rightarrow> rat list \<Rightarrow> 's \<Rightarrow> rat list \<times> 's" where
  \<comment> \<open>the accepted calls of a sequence of calls, and the state they leave\<close>
  "accepted allow [] s = ([], s)"
| "accepted allow (now # ts) s =
     (case allow now s of (ok, s) \<Rightarrow>
        case accepted allow ts s of (acc, s) \<Rightarrow> ((if ok then now # acc else acc), s))"

definition in_window :: "rat \<Rightarrow> rat \<Rightarrow> rat \<Rightarrow> bool" where
  "in_window window t a \<longleftrightarrow> t - window < a \<and> a \<le> t"

locale sliding_window =
  fixes allow :: "rat \<Rightarrow> 's \<Rightarrow> bool \<times> 's" and hits :: "'s \<Rightarrow> rat multiset"
    and max_requests :: int and window :: rat
  assumes admits: "fst (allow now s) \<longleftrightarrow> int (size (filter_mset (\<lambda>t. t > now - window) (hits s))) < max_requests"
    and remembers: "filter_mset (\<lambda>t. t > now - window) (hits (snd (allow now s))) =
      filter_mset (\<lambda>t. t > now - window) (hits s + (if fst (allow now s) then {#now#} else {#}))"
begin

lemma accepted_append:
  "accepted allow (ts @ us) s =
     (case accepted allow ts s of (acc, s1) \<Rightarrow> case accepted allow us s1 of (acc', s2) \<Rightarrow> (acc @ acc', s2))"
  by (induction ts arbitrary: s) (auto split: prod.splits)

lemma remembers_later:
  assumes "now - window \<le> c"
  shows "filter_mset (\<lambda>t. t > c) (hits (snd (allow now s))) =
    filter_mset (\<lambda>t. t > c) (hits s + (if fst (allow now s) then {#now#} else {#}))"
proof -
  have "filter_mset (\<lambda>t. t > c) M = filter_mset (\<lambda>t. t > c) (filter_mset (\<lambda>t. t > now - window) M)" for M
    using assms by (auto simp: filter_filter_mset intro: filter_mset_cong)
  then show ?thesis by (metis remembers)
qed

lemma remembered:
  assumes "sorted ts" "hits s0 = {#}" "accepted allow ts s0 = (acc, s)" "ts \<noteq> [] \<Longrightarrow> last ts - window \<le> c"
  shows "filter_mset (\<lambda>t. t > c) (hits s) = filter_mset (\<lambda>t. t > c) (mset acc)"
  using assms(1,3,4)
proof (induction ts arbitrary: acc s rule: rev_induct)
  case Nil
  then show ?case using assms(2) by simp
next
  case (snoc now ts)
  obtain acc1 s1 where before: "accepted allow ts s0 = (acc1, s1)" by (cases "accepted allow ts s0")
  have s: "s = snd (allow now s1)" "acc = acc1 @ (if fst (allow now s1) then [now] else [])"
    using snoc.prems(2) by (auto simp: accepted_append before split: prod.splits if_splits)
  have "last ts - window \<le> c" if "ts \<noteq> []"
    using snoc.prems(1,3) that by (auto simp: sorted_append) (metis diff_right_mono last_in_set order_trans)
  then have "filter_mset (\<lambda>t. t > c) (hits s1) = filter_mset (\<lambda>t. t > c) (mset acc1)"
    using snoc.IH [OF _ before] snoc.prems(1) by (simp add: sorted_append)
  moreover have "now - window \<le> c" using snoc.prems(3) by simp
  ultimately show ?case unfolding s by (subst remembers_later) auto
qed

lemma accepted_subset: "set (fst (accepted allow ts s)) \<subseteq> set ts"
proof (induction ts arbitrary: s)
  case (Cons now ts)
  show ?case
    using Cons.IH [of "snd (allow now s)"] by (auto simp: case_prod_beta)
qed simp

text \<open>At most \<open>max_requests\<close> accepted calls in any window, for readings that never go back.\<close>

lemma window_bound:
  assumes "sorted ts" "hits s0 = {#}"
  shows "int (length (filter (in_window window t) (fst (accepted allow ts s0)))) \<le> max 0 max_requests"
  using assms(1)
proof (induction ts rule: rev_induct)
  case (snoc now ts)
  obtain acc s where before: "accepted allow ts s0 = (acc, s)" by (cases "accepted allow ts s0")
  have sorted: "sorted ts" "\<forall>a\<in>set ts. a \<le> now" using snoc.prems by (simp_all add: sorted_append)
  have acc: "\<forall>a\<in>set acc. a \<le> now" using accepted_subset [of ts s0] before sorted(2) by auto
  have IH: "int (length (filter (in_window window t) acc)) \<le> max 0 max_requests"
    using snoc.IH sorted(1) before by simp
  have step: "fst (accepted allow (ts @ [now]) s0) = acc @ (if fst (allow now s) then [now] else [])"
    by (auto simp: accepted_append before split: prod.splits)
  show ?case
  proof (cases "fst (allow now s) \<and> in_window window t now")
    case False
    then show ?thesis using IH by (auto simp: step)
  next
    case True
    then have t: "now \<le> t" "t - window < now" by (simp_all add: in_window_def)
    have "last ts - window \<le> now - window" if "ts \<noteq> []" using sorted(2) that by simp
    then have "filter_mset (\<lambda>a. a > now - window) (hits s) = filter_mset (\<lambda>a. a > now - window) (mset acc)"
      by (rule remembered [OF sorted(1) assms(2) before])
    then have "int (size (filter_mset (\<lambda>a. a > now - window) (mset acc))) < max_requests"
      using True admits [of now s] by simp
    then have "int (length (filter (\<lambda>a. a > now - window) acc)) < max_requests"
      by (simp flip: mset_filter)
    moreover have "length (filter (in_window window t) acc) \<le> length (filter (\<lambda>a. a > now - window) acc)"
    proof -
      have "filter (in_window window t) acc = filter (in_window window t) (filter (\<lambda>a. a > now - window) acc)"
        using t by (auto simp: in_window_def intro: filter_cong)
      then show ?thesis by (metis length_filter_le)
    qed
    ultimately show ?thesis using True by (simp add: step)
  qed
qed simp

end

section \<open>The in-process limiter\<close>

record local_limiter =
  max_requests :: int
  window_seconds :: rat
  hits_of :: "string \<Rightarrow> rat list option"

definition LocalRateLimiter :: "int \<Rightarrow> rat \<Rightarrow> local_limiter" where
  "LocalRateLimiter n w = \<lparr>max_requests = n, window_seconds = w, hits_of = (\<lambda>_. None)\<rparr>"

definition recent :: "rat \<Rightarrow> rat list option \<Rightarrow> rat list" where
  "recent cutoff stored = filter (\<lambda>t. t > cutoff) (case stored of None \<Rightarrow> [] | Some l \<Rightarrow> l)"

definition local_allow :: "string \<Rightarrow> rat \<Rightarrow> local_limiter \<Rightarrow> bool \<times> local_limiter" where
  "local_allow key now l =
     (let timestamps = recent (now - window_seconds l) (hits_of l key) in
      if int (length timestamps) \<ge> max_requests l
      then (False, l\<lparr>hits_of := (hits_of l)(key \<mapsto> timestamps)\<rparr>)
      else (True, l\<lparr>hits_of := (hits_of l)(key \<mapsto> timestamps @ [now])\<rparr>))"

definition local_reset :: "string option \<Rightarrow> local_limiter \<Rightarrow> local_limiter" where
  "local_reset key l =
     (case key of
        None \<Rightarrow> l\<lparr>hits_of := (\<lambda>_. None)\<rparr>
      | Some k \<Rightarrow> l\<lparr>hits_of := (hits_of l)(k := None)\<rparr>)"

text \<open>The calls for one key, over the timestamps the limiter keeps under that key.\<close>

definition key_allow :: "int \<Rightarrow> rat \<Rightarrow> rat \<Rightarrow> rat list option \<Rightarrow> bool \<times> rat list option" where
  "key_allow n w now stored =
     (let timestamps = recent (now - w) stored in
      if int (length timestamps) \<ge> n then (False, Some timestamps) else (True, Some (timestamps @ [now])))"

lemma local_allow_key:
  "local_allow key now l =
     (case key_allow (max_requests l) (window_seconds l) now (hits_of l key) of
        (ok, stored) \<Rightarrow> (ok, l\<lparr>hits_of := (hits_of l)(key := stored)\<rparr>))"
  by (simp add: local_allow_def key_allow_def Let_def)

definition stored_hits :: "rat list option \<Rightarrow> rat multiset" where
  "stored_hits stored = (case stored of None \<Rightarrow> {#} | Some l \<Rightarrow> mset l)"

lemma mset_recent: "mset (recent c stored) = filter_mset (\<lambda>t. t > c) (stored_hits stored)"
  by (simp add: recent_def stored_hits_def split: option.split)

interpretation local_window: sliding_window "key_allow n w" stored_hits n w for n w
proof unfold_locales
  fix now stored
  let ?r = "recent (now - w) stored"
  have size: "size (filter_mset (\<lambda>t. t > now - w) (stored_hits stored)) = length ?r"
    by (simp flip: mset_recent)
  show "fst (key_allow n w now stored) \<longleftrightarrow>
      int (size (filter_mset (\<lambda>t. t > now - w) (stored_hits stored))) < n"
    unfolding size by (auto simp: key_allow_def Let_def)
  have idem: "filter_mset (\<lambda>t. t > now - w) (mset ?r) = filter_mset (\<lambda>t. t > now - w) (stored_hits stored)"
    by (simp add: mset_recent filter_filter_mset)
  show "filter_mset (\<lambda>t. t > now - w) (stored_hits (snd (key_allow n w now stored))) =
      filter_mset (\<lambda>t. t > now - w)
        (stored_hits stored + (if fst (key_allow n w now stored) then {#now#} else {#}))"
    using idem by (simp add: key_allow_def Let_def stored_hits_def [of "Some _"])
qed

section \<open>The limiters of the auth routes\<close>

text \<open>A refused call leaves the window as it was; the failures of a client are recorded apart.\<close>

definition auth_rate_limiter :: "int \<Rightarrow> rat \<Rightarrow> rat \<Rightarrow> rat list option \<Rightarrow> bool \<times> rat list option" where
  "auth_rate_limiter auth_max auth_minutes now stored =
     (let window = now - auth_minutes * 60; timestamps = recent window stored in
      if int (length timestamps) \<ge> auth_max then (False, stored) else (True, Some (timestamps @ [now])))"

interpretation auth_window: sliding_window "auth_rate_limiter n m" stored_hits n "m * 60" for n m
proof unfold_locales
  fix now stored
  let ?r = "recent (now - m * 60) stored"
  have size: "size (filter_mset (\<lambda>t. t > now - m * 60) (stored_hits stored)) = length ?r"
    by (simp flip: mset_recent)
  show "fst (auth_rate_limiter n m now stored) \<longleftrightarrow>
      int (size (filter_mset (\<lambda>t. t > now - m * 60) (stored_hits stored))) < n"
    unfolding size by (auto simp: auth_rate_limiter_def Let_def)
  have idem: "filter_mset (\<lambda>t. t > now - m * 60) (mset ?r) = filter_mset (\<lambda>t. t > now - m * 60) (stored_hits stored)"
    by (simp add: mset_recent filter_filter_mset)
  show "filter_mset (\<lambda>t. t > now - m * 60) (stored_hits (snd (auth_rate_limiter n m now stored))) =
      filter_mset (\<lambda>t. t > now - m * 60)
        (stored_hits stored + (if fst (auth_rate_limiter n m now stored) then {#now#} else {#}))"
    using idem by (simp add: auth_rate_limiter_def Let_def stored_hits_def [of "Some _"])
qed

type_synonym failures = "string \<Rightarrow> rat list option"

definition login_failure_limiter :: "int \<Rightarrow> rat \<Rightarrow> string \<Rightarrow> rat \<Rightarrow> failures \<Rightarrow> bool" where
  \<comment> \<open>whether a login may be tried\<close>
  "login_failure_limiter auth_max auth_minutes client now fs =
     (int (length (recent (now - auth_minutes * 60) (fs client))) < auth_max)"

definition record_login_failure :: "rat \<Rightarrow> string \<Rightarrow> rat \<Rightarrow> failures \<Rightarrow> failures" where
  "record_login_failure auth_minutes client_ip now fs =
     fs(client_ip \<mapsto> recent (now - auth_minutes * 60) (fs client_ip) @ [now])"

definition clear_login_failures :: "string \<Rightarrow> failures \<Rightarrow> failures" where
  "clear_login_failures client_ip fs = fs(client_ip := None)"

section \<open>The Redis limiter\<close>

text \<open>The commands the script sends, on a store \<open>'r\<close>.\<close>

record 'r redis_api =
  zremrangebyscore :: "string \<Rightarrow> rat \<Rightarrow> 'r \<Rightarrow> 'r"
  zcard :: "string \<Rightarrow> 'r \<Rightarrow> nat"
  zadd :: "string \<Rightarrow> rat \<Rightarrow> string \<Rightarrow> 'r \<Rightarrow> 'r"
  pexpire :: "string \<Rightarrow> rat \<Rightarrow> 'r \<Rightarrow> 'r"

definition sliding_window_script ::
    "'r redis_api \<Rightarrow> string \<Rightarrow> rat \<Rightarrow> rat \<Rightarrow> int \<Rightarrow> string \<Rightarrow> 'r \<Rightarrow> int \<times> 'r" where
  "sliding_window_script api key now window maximum member r =
     (let r = zremrangebyscore api key (now - window) r;
          count = zcard api key r in
      if int count \<ge> maximum then (0, r)
      else
        let r = zadd api key now member r;
            r = pexpire api key (window * 1000) r
        in (1, r))"

text \<open>
  The documented behaviour of the commands, through \<open>scores\<close>, the scores of a key's members:
  the removal takes those up to a bound, the addition of a member the set does not have adds
  its score (\<open>fresh\<close> says it has not), an expiry leaves the set.
\<close>

definition redis_documented ::
    "'r redis_api \<Rightarrow> ('r \<Rightarrow> string \<Rightarrow> rat multiset) \<Rightarrow> (string \<Rightarrow> string \<Rightarrow> 'r \<Rightarrow> bool) \<Rightarrow> bool" where
  "redis_documented api scores fresh \<longleftrightarrow>
     (\<forall>key bound r. scores (zremrangebyscore api key bound r) key = filter_mset (\<lambda>x. x > bound) (scores r key)) \<and>
     (\<forall>key r. zcard api key r = size (scores r key)) \<and>
     (\<forall>key score member r. fresh key member r \<longrightarrow>
        scores (zadd api key score member r) key = add_mset score (scores r key)) \<and>
     (\<forall>key bound member r. fresh key member r \<longrightarrow> fresh key member (zremrangebyscore api key bound r)) \<and>
     (\<forall>key ms r. scores (pexpire api key ms r) key = scores r key)"

definition redis_key :: "string \<Rightarrow> string" where
  "redis_key key = ''rl:'' @ key"

lemma script_like_local:
  assumes "redis_documented api scores fresh" "fresh key member r" "scores r key = stored_hits stored"
  shows "fst (sliding_window_script api key now w n member r) = (if fst (key_allow n w now stored) then 1 else 0)"
    and "scores (snd (sliding_window_script api key now w n member r)) key = stored_hits (snd (key_allow n w now stored))"
proof -
  let ?r = "zremrangebyscore api key (now - w) r"
  have s: "scores ?r key = mset (recent (now - w) stored)"
    using assms(1,3) by (simp add: redis_documented_def mset_recent)
  have c: "zcard api key ?r = length (recent (now - w) stored)"
    using assms(1) s by (simp add: redis_documented_def)
  have "fresh key member ?r" using assms(1,2) by (simp add: redis_documented_def)
  then have a: "scores (pexpire api key (w * 1000) (zadd api key now member ?r)) key =
      mset (recent (now - w) stored @ [now])"
    using assms(1) s by (simp add: redis_documented_def)
  show "fst (sliding_window_script api key now w n member r) = (if fst (key_allow n w now stored) then 1 else 0)"
    by (simp add: sliding_window_script_def key_allow_def Let_def c)
  show "scores (snd (sliding_window_script api key now w n member r)) key = stored_hits (snd (key_allow n w now stored))"
    by (simp add: sliding_window_script_def key_allow_def Let_def c s a stored_hits_def)
qed

section \<open>The limiter with its fallback\<close>

text \<open>
  \<open>answer\<close> is what the evaluation of the script gives, None when it raises; \<open>now\<close> and \<open>later\<close> are
  the readings of the monotonic clock before it and after it.
\<close>

definition redis_available :: "rat option \<Rightarrow> rat \<Rightarrow> bool" where
  "redis_available last_failure now = (case last_failure of None \<Rightarrow> True | Some f \<Rightarrow> now - f > 30)"

definition redis_allow :: "int option \<Rightarrow> rat \<Rightarrow> rat \<Rightarrow> rat option \<Rightarrow> bool option \<times> rat option" where
  "redis_allow answer now later last_failure =
     (if \<not> redis_available last_failure now then (None, last_failure)
      else case answer of
        Some n \<Rightarrow> (Some (n \<noteq> 0), last_failure)
      | None \<Rightarrow> (None, Some later))"

record rate_limiter =
  rl_local :: local_limiter
  rl_last_failure :: "rat option"

definition RateLimiter :: "int \<Rightarrow> rat \<Rightarrow> rate_limiter" where
  "RateLimiter n w = \<lparr>rl_local = LocalRateLimiter n w, rl_last_failure = None\<rparr>"

definition limiter_allow ::
    "bool \<Rightarrow> int option \<Rightarrow> rat \<Rightarrow> rat \<Rightarrow> rat \<Rightarrow> string \<Rightarrow> rate_limiter \<Rightarrow> bool \<times> rate_limiter" where
  "limiter_allow redis_enabled answer now later local_now key l =
     (let (result, failure) =
            (if redis_enabled then redis_allow answer now later (rl_last_failure l) else (None, rl_last_failure l));
          l = l\<lparr>rl_last_failure := failure\<rparr>
      in case result of
           Some ok \<Rightarrow> (ok, l)
         | None \<Rightarrow> (case local_allow key local_now (rl_local l) of (ok, loc) \<Rightarrow> (ok, l\<lparr>rl_local := loc\<rparr>)))"

definition limiter_reset :: "string option \<Rightarrow> rate_limiter \<Rightarrow> rate_limiter" where
  "limiter_reset key l = l\<lparr>rl_local := local_reset key (rl_local l), rl_last_failure := None\<rparr>"

text \<open>The limiters of the process, one per configuration, made on first use.\<close>

type_synonym limiters = "int \<times> rat \<Rightarrow> rate_limiter option"

definition limiter_for :: "int \<times> rat \<Rightarrow> limiters \<Rightarrow> rate_limiter" where
  "limiter_for cfg_key ls = (case ls cfg_key of Some l \<Rightarrow> l | None \<Rightarrow> RateLimiter (fst cfg_key) (snd cfg_key))"

definition limited ::
    "bool \<Rightarrow> int option \<Rightarrow> rat \<Rightarrow> rat \<Rightarrow> rat \<Rightarrow> int \<times> rat \<Rightarrow> string \<Rightarrow> limiters \<Rightarrow> bool \<times> limiters" where
  "limited redis_enabled answer now later local_now cfg_key key ls =
     (case limiter_allow redis_enabled answer now later local_now key (limiter_for cfg_key ls) of
        (ok, l) \<Rightarrow> (ok, ls(cfg_key \<mapsto> l)))"

definition ws_key :: "string \<Rightarrow> string" where
  "ws_key key = ''ws:'' @ key"

definition create_key :: "string \<Rightarrow> string" where
  "create_key client_ip = ''create:'' @ client_ip"

definition reset_rate_limits :: "limiters \<Rightarrow> limiters" where
  "reset_rate_limits ls = map_option (limiter_reset None) \<circ> ls"

text \<open>
  The key of a request. \<open>decode\<close> gives the claims of a token, None when PyJWT raises; \<open>as_text\<close> is
  the formatting of a claim. The result is None when a valid access token has no subject: the
  \<open>KeyError\<close> is not caught.
\<close>

definition lower_char :: "char \<Rightarrow> char" where
  "lower_char c = (let n = (of_char c :: nat) in if 65 \<le> n \<and> n \<le> 90 then char_of (n + 32) else c)"

definition client_key ::
    "(string \<Rightarrow> claims option) \<Rightarrow> (json \<Rightarrow> string) \<Rightarrow> (string \<times> string) list \<Rightarrow> string option \<Rightarrow> string option" where
  "client_key decode as_text headers client =
     (let by_ip = ''ip:'' @ (case client of Some ip \<Rightarrow> ip | None \<Rightarrow> ''unknown'') in
      case map_of headers ''authorization'' of
        None \<Rightarrow> Some by_ip
      | Some auth_header \<Rightarrow>
          if map lower_char (take 7 auth_header) = ''bearer ''
          then (case decode (drop 7 auth_header) of
                  None \<Rightarrow> Some by_ip
                | Some payload \<Rightarrow>
                    if map_of payload ''type'' = Some (JStr ''access'')
                    then map_option (\<lambda>sub. ''user:'' @ as_text sub) (map_of payload ''sub'')
                    else Some by_ip)
          else Some by_ip)"

definition SKIP_PATHS :: "string list" where
  "SKIP_PATHS = [''/'', ''/health'', ''/metrics'', ''/docs'', ''/openapi.json'', ''/redoc'']"

text \<open>
  The middleware for an HTTP request: None passes it on, otherwise the status and the seconds
  of the \<open>Retry-After\<close> header.
\<close>

definition rate_limit_middleware ::
    "(limiters \<Rightarrow> bool \<times> limiters) \<Rightarrow> rat \<Rightarrow> string \<Rightarrow> limiters \<Rightarrow> (int \<times> int) option \<times> limiters" where
  "rate_limit_middleware allow window path ls =
     (if path \<in> set SKIP_PATHS then (None, ls)
      else case allow ls of (ok, ls) \<Rightarrow>
        (if ok then (None, ls) else (Some (429, if 0 \<le> window then \<lfloor>window\<rfloor> else \<lceil>window\<rceil>), ls)))"

section \<open>Facts\<close>

lemma keys_apart: "ws_key a \<noteq> create_key b" "redis_key a = redis_key b \<longleftrightarrow> a = b"
  by (simp_all add: ws_key_def create_key_def redis_key_def)

lemma local_allow_other: "k \<noteq> key \<Longrightarrow> hits_of (snd (local_allow key now l)) k = hits_of l k"
  by (simp add: local_allow_def Let_def)

lemma limiter_allow_redis_down:
  assumes "redis_enabled \<longrightarrow> \<not> redis_available (rl_last_failure l) now \<or> answer = None"
  shows "fst (limiter_allow redis_enabled answer now later local_now key l) = fst (local_allow key local_now (rl_local l))"
  using assms by (auto simp: limiter_allow_def redis_allow_def split: prod.split)

lemma failure_pauses_redis:
  assumes "redis_enabled" "redis_available (rl_last_failure l) now" "answer = None" "later \<le> now'" "now' \<le> later + 30"
  shows "\<not> redis_available (rl_last_failure (snd (limiter_allow redis_enabled answer now later local_now key l))) now'"
  using assms by (auto simp: limiter_allow_def redis_allow_def redis_available_def split: prod.split)

text \<open>The accepted calls of a sequence of calls for several keys, in any interleaving.\<close>

fun served :: "(string \<times> rat) list \<Rightarrow> local_limiter \<Rightarrow> (string \<times> rat) list" where
  "served [] l = []"
| "served ((key, now) # calls) l =
     (case local_allow key now l of (ok, l) \<Rightarrow> (if ok then (key, now) # served calls l else served calls l))"

definition times_of :: "string \<Rightarrow> (string \<times> rat) list \<Rightarrow> rat list" where
  "times_of key calls = map snd (filter (\<lambda>(k, _). k = key) calls)"

lemma served_by_key:
  "times_of key (served calls l) =
   fst (accepted (key_allow (max_requests l) (window_seconds l)) (times_of key calls) (hits_of l key))"
proof (induction calls arbitrary: l)
  case (Cons call calls)
  obtain k now where call: "call = (k, now)" by fastforce
  obtain ok stored where a: "key_allow (max_requests l) (window_seconds l) now (hits_of l k) = (ok, stored)" by fastforce
  show ?case
    using Cons [of "l\<lparr>hits_of := (hits_of l)(k := stored)\<rparr>"] a
    by (auto simp: call local_allow_key times_of_def split: prod.split)
qed (simp add: times_of_def)

lemma served_bound:
  assumes "sorted (times_of key calls)"
  shows "int (length (filter (in_window w t) (times_of key (served calls (LocalRateLimiter n w))))) \<le> max 0 n"
  using local_window.window_bound [OF assms, where ?s0.0 = None and n = n and w = w and t = t]
  by (simp add: served_by_key LocalRateLimiter_def stored_hits_def)

end
