(* ===== verification/Auth.thy ===== *)
theory Auth
  imports Audit_Log Rate_Limit "HOL-Library.Sublist"
begin

text \<open>
  Users, JWTs, refresh tokens and roles (\<open>app/services/auth.py\<close>), API tokens
  (\<open>app/services/api_tokens.py\<close>), the authentication routes (\<open>app/api/routes/auth.py\<close>) and the
  admission of a WebSocket (\<open>app/api/routes/ws.py\<close>). bcrypt, PyJWT, SHA-256 and \<open>int\<close> on a text
  are the record \<open>auth_api\<close>; what \<open>uuid4\<close>, \<open>gensalt\<close> and \<open>token_hex\<close> give are arguments. A decoding
  takes one reading of the clock.
\<close>

section \<open>What the code uses of other libraries\<close>

record auth_api =
  hashpw :: "string \<Rightarrow> string \<Rightarrow> string"
  checkpw :: "string \<Rightarrow> string \<Rightarrow> bool option"
  jwt_encode :: "claims \<Rightarrow> string"
  jwt_decode :: "time \<Rightarrow> string \<Rightarrow> claims option"
  sha256_hex :: "string \<Rightarrow> string"
  int_of_text :: "string \<Rightarrow> int option"

section \<open>Passwords and JWTs\<close>

definition hash_password :: "auth_api \<Rightarrow> string \<Rightarrow> string \<Rightarrow> string" where
  "hash_password api salt password = hashpw api salt password"

definition verify_password :: "auth_api \<Rightarrow> string \<Rightarrow> string \<Rightarrow> bool" where
  "verify_password api password password_hash =
     (case checkpw api password password_hash of None \<Rightarrow> False | Some ok \<Rightarrow> ok)"

definition TOKEN_TYPE_ACCESS :: string where "TOKEN_TYPE_ACCESS = ''access''"

definition TOKEN_TYPE_REFRESH :: string where "TOKEN_TYPE_REFRESH = ''refresh''"

definition token_claims :: "int \<Rightarrow> string \<Rightarrow> string \<Rightarrow> time \<Rightarrow> time \<Rightarrow> claims" where
  "token_claims subject token_type jti expires_delta now =
     [(''sub'', JStr (show_int subject)), (''type'', JStr token_type), (''jti'', JStr jti),
      (''iat'', JIso now), (''exp'', JIso (now + expires_delta))]"

definition jwt_token :: "auth_api \<Rightarrow> int \<Rightarrow> string \<Rightarrow> string \<Rightarrow> time \<Rightarrow> db \<Rightarrow> string \<times> db" where
  "jwt_token api subject token_type jti expires_delta s =
     (case now_utc s of (now, s) \<Rightarrow> (jwt_encode api (token_claims subject token_type jti expires_delta now), s))"

definition create_access_token :: "settings \<Rightarrow> auth_api \<Rightarrow> string \<Rightarrow> int \<Rightarrow> db \<Rightarrow> string \<times> db" where
  "create_access_token cfg api jti uid s =
     jwt_token api uid TOKEN_TYPE_ACCESS jti (timedelta_minutes (access_token_expire_minutes cfg)) s"

definition create_refresh_token :: "settings \<Rightarrow> auth_api \<Rightarrow> string \<Rightarrow> int \<Rightarrow> db \<Rightarrow> string \<times> db" where
  "create_refresh_token cfg api jti uid s =
     jwt_token api uid TOKEN_TYPE_REFRESH jti (timedelta_days (refresh_token_expire_days cfg)) s"

definition decode_token :: "auth_api \<Rightarrow> string \<Rightarrow> db \<Rightarrow> claims option \<times> db" where
  "decode_token api token s = (case now_utc s of (now, s) \<Rightarrow> (jwt_decode api now token, s))"

text \<open>
  \<open>int(payload["sub"])\<close>: \<open>Inl\<close> is the status an exception leads to. A missing claim and an unreadable
  text are caught (401); a value \<open>int\<close> does not take raises a \<open>TypeError\<close> that is not (500).
\<close>

definition subject_of :: "auth_api \<Rightarrow> claims \<Rightarrow> int + int" where
  "subject_of api payload =
     (case map_of payload ''sub'' of
        None \<Rightarrow> Inl 401
      | Some (JStr w) \<Rightarrow> (case int_of_text api w of None \<Rightarrow> Inl 401 | Some n \<Rightarrow> Inr n)
      | Some (JInt n) \<Rightarrow> Inr n
      | Some (JBool b) \<Rightarrow> Inr (if b then 1 else 0)
      | Some (JNum x) \<Rightarrow> Inr (if 0 \<le> x then \<lfloor>x\<rfloor> else \<lceil>x\<rceil>)
      | Some _ \<Rightarrow> Inl 500)"

text \<open>The claims of a token of the type asked for, and its subject.\<close>

definition checked_claims :: "auth_api \<Rightarrow> string \<Rightarrow> claims option \<Rightarrow> int + claims \<times> int" where
  "checked_claims api token_type payload =
     (case payload of
        None \<Rightarrow> Inl 401
      | Some payload \<Rightarrow>
          if map_of payload ''type'' \<noteq> Some (JStr token_type) then Inl 401
          else case subject_of api payload of Inl c \<Rightarrow> Inl c | Inr uid \<Rightarrow> Inr (payload, uid))"

section \<open>Refresh tokens\<close>

fun from_timestamp :: "json \<Rightarrow> time option" where
  \<comment> \<open>\<open>datetime.fromtimestamp\<close> of a number of seconds\<close>
  "from_timestamp (JInt n) = Some (n * 1000000)"
| "from_timestamp (JNum x) = Some (round_half_even (x * 1000000))"
| "from_timestamp _ = None"

definition insert_refresh :: "int \<Rightarrow> string \<Rightarrow> time \<Rightarrow> db \<Rightarrow> refresh_token result" where
  "insert_refresh uid jti expires s =
     (let row = \<lparr>r_id = seq_refresh s, r_user_id = uid, r_jti = jti, r_expires_at = expires, r_revoked_at = None\<rparr>;
          s1 = s\<lparr>seq_refresh := seq_refresh s + 1\<rparr>
      in if jti \<in> r_jti ` set (refresh_tokens s) then Raise IntegrityError s1
         else Ok row (s1\<lparr>refresh_tokens := refresh_tokens s @ [row]\<rparr>))"

definition persist_refresh_token :: "int \<Rightarrow> claims \<Rightarrow> db \<Rightarrow> refresh_token result" where
  "persist_refresh_token uid payload s =
     (case map_of payload ''jti'' of
        Some (JStr jti) \<Rightarrow>
          if jti = [] then Raise (PythonError ''ValueError'') s
          else (case map_of payload ''exp'' of
                  None \<Rightarrow> Raise (PythonError ''KeyError'') s
                | Some e \<Rightarrow> (case from_timestamp e of
                    None \<Rightarrow> Raise (PythonError ''TypeError'') s
                  | Some t \<Rightarrow> insert_refresh uid jti t s))
      | _ \<Rightarrow> Raise (PythonError ''ValueError'') s)"

definition stored_refresh :: "string \<Rightarrow> db \<Rightarrow> refresh_token option" where
  "stored_refresh jti s = List.find (\<lambda>r. r_jti r = jti) (refresh_tokens s)"

definition claims_jti :: "claims \<Rightarrow> string" where
  "claims_jti payload = (case map_of payload ''jti'' of Some (JStr j) \<Rightarrow> j | _ \<Rightarrow> [])"

definition refresh_is_valid :: "claims \<Rightarrow> db \<Rightarrow> refresh_token option \<times> db" where
  "refresh_is_valid payload s =
     (case stored_refresh (claims_jti payload) s of
        None \<Rightarrow> (None, s)
      | Some stored \<Rightarrow>
          if r_revoked_at stored \<noteq> None then (None, s)
          else (case now_utc s of (now, s) \<Rightarrow>
                  if r_expires_at stored \<le> now then (None, s) else (Some stored, s)))"

definition revoke_refresh :: "refresh_token \<Rightarrow> db \<Rightarrow> db" where
  "revoke_refresh stored s =
     (case now_utc s of (now, s) \<Rightarrow>
        s\<lparr>refresh_tokens := update_row r_id (r_id stored) (\<lambda>r. r\<lparr>r_revoked_at := Some now\<rparr>) (refresh_tokens s)\<rparr>)"

definition active_refresh :: "int \<Rightarrow> refresh_token \<Rightarrow> bool" where
  "active_refresh uid r \<longleftrightarrow> r_user_id r = uid \<and> r_revoked_at r = None"

definition revoke_all_refresh_tokens :: "int \<Rightarrow> db \<Rightarrow> nat \<times> db" where
  "revoke_all_refresh_tokens uid s =
     (case now_utc s of (now, s) \<Rightarrow>
        (length (filter (active_refresh uid) (refresh_tokens s)),
         s\<lparr>refresh_tokens := map (\<lambda>r. if active_refresh uid r then r\<lparr>r_revoked_at := Some now\<rparr> else r)
             (refresh_tokens s)\<rparr>))"

section \<open>Users\<close>

definition ROLES :: "string list" where
  "ROLES = [''admin'', ''operator'', ''viewer'']"

definition get_user_by_id :: "db \<Rightarrow> int \<Rightarrow> user option" where
  "get_user_by_id s uid = find_row u_id uid (users s)"

definition get_user_by_username :: "db \<Rightarrow> string \<Rightarrow> user option" where
  "get_user_by_username s name = List.find (\<lambda>u. u_username u = name \<and> u_active u) (users s)"

definition insert_user :: "string \<Rightarrow> string \<Rightarrow> string \<Rightarrow> db \<Rightarrow> user result" where
  "insert_user name password_hash role s =
     (let u = \<lparr>u_id = seq_user s, u_username = name, u_password_hash = password_hash, u_role = role,
               u_active = True, u_last_login_at = None\<rparr>;
          s1 = s\<lparr>seq_user := seq_user s + 1\<rparr>
      in if name \<in> u_username ` set (users s) then Raise IntegrityError s1
         else Ok u (s1\<lparr>users := users s @ [u]\<rparr>))"

definition update_user :: "int \<Rightarrow> (user \<Rightarrow> user) \<Rightarrow> db \<Rightarrow> db" where
  "update_user uid f s = s\<lparr>users := update_row u_id uid f (users s)\<rparr>"

definition bootstrap_admin :: "settings \<Rightarrow> auth_api \<Rightarrow> string \<Rightarrow> db \<Rightarrow> db" where
  "bootstrap_admin cfg api salt s =
     (if users s \<noteq> [] then s
      else final_state (insert_user (admin_username cfg) (hash_password api salt (admin_password cfg)) ''admin'' s))"

definition actor_of :: "user \<Rightarrow> actor" where
  "actor_of u = (u_id u, u_username u)"

section \<open>API tokens\<close>

definition is_api_token :: "settings \<Rightarrow> string \<Rightarrow> bool" where
  "is_api_token cfg token \<longleftrightarrow> prefix (api_token_prefix cfg) token"

definition generate_token :: "settings \<Rightarrow> string \<Rightarrow> string" where
  "generate_token cfg hex = api_token_prefix cfg @ hex"

definition create_token ::
    "settings \<Rightarrow> auth_api \<Rightarrow> string \<Rightarrow> int \<Rightarrow> string \<Rightarrow> int option \<Rightarrow> db \<Rightarrow> (string \<times> api_token) result" where
  "create_token cfg api hex uid name ttl_days s =
     (let token = generate_token cfg hex;
          days = (case ttl_days of Some d \<Rightarrow> if d > 0 then d else api_token_expire_days cfg
                  | None \<Rightarrow> api_token_expire_days cfg);
          (expires_at, s) =
            (if days > 0 then (case now_utc s of (now, s) \<Rightarrow> (Some (now + timedelta_days days), s)) else (None, s));
          row = \<lparr>p_id = seq_token s, p_name = name, p_user_id = uid, p_token_hash = sha256_hex api token,
                 p_last_used_at = None, p_expires_at = expires_at, p_revoked_at = None, p_is_active = True\<rparr>;
          s1 = s\<lparr>seq_token := seq_token s + 1\<rparr>
      in if sha256_hex api token \<in> p_token_hash ` set (api_tokens s) then Raise IntegrityError s1
         else Ok (token, row) (s1\<lparr>api_tokens := api_tokens s @ [row]\<rparr>))"

definition revoke_token :: "int \<Rightarrow> int \<Rightarrow> bool \<Rightarrow> db \<Rightarrow> bool \<times> db" where
  "revoke_token tid uid admin s =
     (case List.find (\<lambda>p. p_id p = tid \<and> (admin \<or> p_user_id p = uid)) (api_tokens s) of
        None \<Rightarrow> (False, s)
      | Some p \<Rightarrow>
          if p_revoked_at p = None
          then (case now_utc s of (now, s) \<Rightarrow>
                  (True, s\<lparr>api_tokens := update_row p_id (p_id p) (\<lambda>p. p\<lparr>p_revoked_at := Some now\<rparr>) (api_tokens s)\<rparr>))
          else (True, s))"

definition token_filter :: "int option \<Rightarrow> api_token \<Rightarrow> bool" where
  "token_filter uid p \<longleftrightarrow> (case uid of None \<Rightarrow> True | Some i \<Rightarrow> p_user_id p = i)"

definition list_tokens :: "int option \<Rightarrow> nat \<Rightarrow> nat \<Rightarrow> db \<Rightarrow> api_token list" where
  "list_tokens uid limit offset s = page p_id limit offset (filter (token_filter uid) (api_tokens s))"

definition count_tokens :: "int option \<Rightarrow> db \<Rightarrow> nat" where
  "count_tokens uid s = length (filter (token_filter uid) (api_tokens s))"

interpretation token_listing: paged_listing "list_tokens uid" "count_tokens uid"
  "\<lambda>s. filter (token_filter uid) (api_tokens s)" p_id for uid
  by unfold_locales (simp_all add: list_tokens_def count_tokens_def)

definition find_token :: "auth_api \<Rightarrow> string \<Rightarrow> db \<Rightarrow> api_token option" where
  "find_token api token s = List.find (\<lambda>p. p_token_hash p = sha256_hex api token) (api_tokens s)"

definition authenticate :: "auth_api \<Rightarrow> string \<Rightarrow> db \<Rightarrow> api_token option \<times> db" where
  "authenticate api token s =
     (case find_token api token s of
        None \<Rightarrow> (None, s)
      | Some p \<Rightarrow>
          (case now_utc s of (now, s) \<Rightarrow>
             if p_revoked_at p \<noteq> None \<or> \<not> p_is_active p \<or> (case p_expires_at p of None \<Rightarrow> False | Some e \<Rightarrow> e \<le> now)
             then (None, s) else (Some p, s)))"

definition authenticate_api_token :: "auth_api \<Rightarrow> string \<Rightarrow> db \<Rightarrow> user option \<times> db" where
  "authenticate_api_token api token s =
     (case authenticate api token s of
        (None, s) \<Rightarrow> (None, s)
      | (Some p, s) \<Rightarrow>
          (case get_user_by_id s (p_user_id p) of
             None \<Rightarrow> (None, s)
           | Some u \<Rightarrow>
               if \<not> u_active u then (None, s)
               else (case now_utc s of (now, s) \<Rightarrow>
                       (Some u, s\<lparr>api_tokens := update_row p_id (p_id p) (\<lambda>p. p\<lparr>p_last_used_at := Some now\<rparr>)
                                    (api_tokens s)\<rparr>))))"

section \<open>The current user\<close>

definition get_current_user :: "settings \<Rightarrow> auth_api \<Rightarrow> string option \<Rightarrow> db \<Rightarrow> user response \<times> db" where
  "get_current_user cfg api credentials s =
     (case credentials of
        None \<Rightarrow> (Status 401, s)
      | Some token \<Rightarrow>
          if is_api_token cfg token
          then (case authenticate_api_token api token s of
                  (None, s) \<Rightarrow> (Status 401, s)
                | (Some u, s) \<Rightarrow> (Reply u, s))
          else (case decode_token api token s of (payload, s) \<Rightarrow>
                  case checked_claims api TOKEN_TYPE_ACCESS payload of
                    Inl c \<Rightarrow> (Status c, s)
                  | Inr (_, uid) \<Rightarrow>
                      (case get_user_by_id s uid of
                         None \<Rightarrow> (Status 401, s)
                       | Some u \<Rightarrow> if \<not> u_active u then (Status 401, s) else (Reply u, s))))"

definition require_roles :: "string list \<Rightarrow> user response \<Rightarrow> user response" where
  "require_roles allowed who =
     (case who of
        Status c \<Rightarrow> Status c
      | Reply u \<Rightarrow> if u_role u \<notin> set allowed then Status 403 else Reply u)"

section \<open>Registration and login\<close>

definition valid_register :: "string \<Rightarrow> string \<Rightarrow> bool" where
  "valid_register username password \<longleftrightarrow>
     3 \<le> length username \<and> length username \<le> 100 \<and> 8 \<le> length password \<and> length password \<le> 128"

definition register_route ::
    "auth_api \<Rightarrow> bool \<Rightarrow> string \<Rightarrow> string \<Rightarrow> string \<Rightarrow> string option \<Rightarrow> db \<Rightarrow> user response \<times> db" where
  "register_route api allowed salt username password ip s =
     (if \<not> allowed then (Status 429, s)
      else if username \<in> u_username ` set (users s) then (Status 409, s)
      else case insert_user username (hash_password api salt password) ''viewer'' s of
        Raise e s' \<Rightarrow> (Status 500, rollback_to s s')
      | Ok u s' \<Rightarrow> (Reply u, audit (actor_of u) ''user.register'' ''user'' (Some (show_int (u_id u))) None ip s'))"

record token_response =
  access_token :: string
  refresh_token :: string
  token_user :: user

text \<open>
  A session's new refresh token: created, decoded again and stored. None is an exception no
  handler catches, with the state it leaves.
\<close>

definition issue_refresh ::
    "settings \<Rightarrow> auth_api \<Rightarrow> string \<Rightarrow> int \<Rightarrow> db \<Rightarrow> string option \<times> db" where
  "issue_refresh cfg api jti uid s =
     (case create_refresh_token cfg api jti uid s of (refresh, s) \<Rightarrow>
        case decode_token api refresh s of
          (None, s) \<Rightarrow> (None, s)
        | (Some payload, s) \<Rightarrow>
            (case persist_refresh_token uid payload s of
               Raise e s' \<Rightarrow> (None, s')
             | Ok _ s' \<Rightarrow> (Some refresh, s')))"

definition login_route ::
    "settings \<Rightarrow> auth_api \<Rightarrow> rat \<Rightarrow> rat \<Rightarrow> string \<Rightarrow> string \<Rightarrow> string \<Rightarrow> string \<Rightarrow> string option \<Rightarrow>
     failures \<Rightarrow> db \<Rightarrow> token_response response \<times> failures \<times> db" where
  "login_route cfg api now1 now2 jti_refresh jti_access username password ip fs s =
     (let client = (case ip of Some host \<Rightarrow> host | None \<Rightarrow> ''unknown'') in
      if \<not> login_failure_limiter (auth_rate_limit_max cfg) (auth_rate_limit_minutes cfg) client now1 fs
      then (Status 429, fs, s)
      else case get_user_by_username s username of
        None \<Rightarrow> (Status 401, record_login_failure (auth_rate_limit_minutes cfg) client now2 fs, s)
      | Some u \<Rightarrow>
          if \<not> verify_password api password (u_password_hash u)
          then (Status 401, record_login_failure (auth_rate_limit_minutes cfg) client now2 fs, s)
          else
            let fs = clear_login_failures client fs;
                (now, s1) = now_utc s;
                u' = u\<lparr>u_last_login_at := Some now\<rparr>;
                s1 = update_user (u_id u) (\<lambda>u. u\<lparr>u_last_login_at := Some now\<rparr>) s1
            in case issue_refresh cfg api jti_refresh (u_id u) s1 of
                 (None, s2) \<Rightarrow> (Status 500, fs, rollback_to s s2)
               | (Some refresh, s2) \<Rightarrow>
                   let s3 = audit (actor_of u') ''auth.login'' ''user'' (Some (show_int (u_id u))) None (Some client) s2;
                       (access, s4) = create_access_token cfg api jti_access (u_id u) s3
                   in (Reply \<lparr>access_token = access, refresh_token = refresh, token_user = u'\<rparr>, fs, s4))"

section \<open>Rotation and logout\<close>

definition refresh_route ::
    "settings \<Rightarrow> auth_api \<Rightarrow> bool \<Rightarrow> string \<Rightarrow> string \<Rightarrow> string \<Rightarrow> db \<Rightarrow> token_response response \<times> db" where
  "refresh_route cfg api allowed jti_refresh jti_access token s =
     (if \<not> allowed then (Status 429, s)
      else case decode_token api token s of (payload, s1) \<Rightarrow>
        case checked_claims api TOKEN_TYPE_REFRESH payload of
          Inl c \<Rightarrow> (Status c, s1)
        | Inr (payload, uid) \<Rightarrow>
            (case refresh_is_valid payload s1 of
               (None, s2) \<Rightarrow> (Status 401, s2)
             | (Some stored, s2) \<Rightarrow>
                 (case get_user_by_id s2 uid of
                    None \<Rightarrow> (Status 401, s2)
                  | Some u \<Rightarrow>
                      if \<not> u_active u then (Status 401, s2)
                      else case issue_refresh cfg api jti_refresh (u_id u) (revoke_refresh stored s2) of
                        (None, s3) \<Rightarrow> (Status 500, rollback_to s2 s3)
                      | (Some refresh, s3) \<Rightarrow>
                          (case create_access_token cfg api jti_access (u_id u) s3 of (access, s4) \<Rightarrow>
                             (Reply \<lparr>access_token = access, refresh_token = refresh, token_user = u\<rparr>, s4)))))"

definition logout_route :: "auth_api \<Rightarrow> bool \<Rightarrow> string \<Rightarrow> db \<Rightarrow> unit response \<times> db" where
  "logout_route api allowed token s =
     (if \<not> allowed then (Status 429, s)
      else case decode_token api token s of (payload, s1) \<Rightarrow>
        case payload of
          None \<Rightarrow> (Status 401, s1)
        | Some payload \<Rightarrow>
            if map_of payload ''type'' \<noteq> Some (JStr TOKEN_TYPE_REFRESH) then (Status 401, s1)
            else case refresh_is_valid payload s1 of
              (None, s2) \<Rightarrow> (Reply (), s2)
            | (Some stored, s2) \<Rightarrow> (Reply (), revoke_refresh stored s2))"

section \<open>Accounts\<close>

definition valid_change_password :: "string \<Rightarrow> string \<Rightarrow> bool" where
  "valid_change_password current_pw new_pw \<longleftrightarrow>
     1 \<le> length current_pw \<and> length current_pw \<le> 128 \<and> 8 \<le> length new_pw \<and> length new_pw \<le> 128"

definition change_password_route ::
    "auth_api \<Rightarrow> string \<Rightarrow> user \<Rightarrow> string \<Rightarrow> string \<Rightarrow> string option \<Rightarrow> db \<Rightarrow> user response \<times> db" where
  "change_password_route api salt who current_pw new_pw ip s =
     (case get_user_by_id s (u_id who) of
        None \<Rightarrow> (Status 401, s)
      | Some u \<Rightarrow>
          if \<not> u_active u then (Status 401, s)
          else if \<not> verify_password api current_pw (u_password_hash u) then (Status 400, s)
          else if current_pw = new_pw then (Status 400, s)
          else
            let f = (\<lambda>u. u\<lparr>u_password_hash := hash_password api salt new_pw\<rparr>);
                (revoked, s1) = revoke_all_refresh_tokens (u_id u) (update_user (u_id u) f s)
            in (Reply (f u),
                audit (actor_of u) ''user.change_password'' ''user'' (Some (show_int (u_id u)))
                  (Some (JObj [(''revoked_refresh'', JInt revoked)])) ip s1))"

definition set_active_route ::
    "actor \<Rightarrow> int \<Rightarrow> bool \<Rightarrow> string option \<Rightarrow> db \<Rightarrow> user response \<times> db" where
  "set_active_route admin uid active ip s =
     (case get_user_by_id s uid of
        None \<Rightarrow> (Status 404, s)
      | Some u \<Rightarrow>
          let f = (\<lambda>u. u\<lparr>u_active := active\<rparr>);
              s1 = update_user uid f s;
              (revoked, s2) = (if active then (0, s1) else revoke_all_refresh_tokens uid s1)
          in (Reply (f u),
              audit admin ''user.set_active'' ''user'' (Some (show_int uid))
                (Some (JObj [(''is_active'', JBool active), (''revoked_refresh'', JInt revoked)])) ip s2))"

text \<open>The pattern of the request is searched for, not matched against the whole role.\<close>

definition valid_role_change :: "string \<Rightarrow> bool" where
  "valid_role_change role \<longleftrightarrow> (\<exists>r\<in>set ROLES. sublist r role)"

definition set_role_route ::
    "actor \<Rightarrow> int \<Rightarrow> string \<Rightarrow> string option \<Rightarrow> db \<Rightarrow> user response \<times> db" where
  "set_role_route admin uid role ip s =
     (case get_user_by_id s uid of
        None \<Rightarrow> (Status 404, s)
      | Some u \<Rightarrow>
          let f = (\<lambda>u. u\<lparr>u_role := role\<rparr>)
          in (Reply (f u),
              audit admin ''user.role_change'' ''user'' (Some (show_int uid))
                (Some (JObj [(''old_role'', JStr (u_role u)), (''new_role'', JStr role)])) ip (update_user uid f s)))"

section \<open>API token routes\<close>

definition valid_api_token_create :: "string \<Rightarrow> bool" where
  "valid_api_token_create name \<longleftrightarrow> 1 \<le> length name \<and> length name \<le> 100"

definition create_api_token_route ::
    "settings \<Rightarrow> auth_api \<Rightarrow> string \<Rightarrow> user \<Rightarrow> string \<Rightarrow> string option \<Rightarrow> db \<Rightarrow> (string \<times> api_token) response \<times> db" where
  "create_api_token_route cfg api hex who name ip s =
     (case create_token cfg api hex (u_id who) name None s of
        Raise e s' \<Rightarrow> (Status 500, rollback_to s s')
      | Ok (token, p) s' \<Rightarrow>
          (Reply (token, p),
           audit (actor_of who) ''api_token.create'' ''api_token'' (Some (show_int (p_id p)))
             (Some (JObj [(''name'', JStr name)])) ip s'))"

definition list_api_tokens_route :: "user \<Rightarrow> db \<Rightarrow> nat \<times> api_token list" where
  "list_api_tokens_route who s =
     (let rows = list_tokens (Some (u_id who)) 500 0 s in (length rows, rows))"

definition revoke_api_token_route :: "user \<Rightarrow> int \<Rightarrow> string option \<Rightarrow> db \<Rightarrow> unit response \<times> db" where
  "revoke_api_token_route who tid ip s =
     (case revoke_token tid (u_id who) (u_role who = ''admin'') s of
        (False, s) \<Rightarrow> (Status 404, s)
      | (True, s) \<Rightarrow>
          (Reply (), audit (actor_of who) ''api_token.revoke'' ''api_token'' (Some (show_int tid)) None ip s))"

section \<open>WebSockets\<close>

definition authenticate_ws :: "auth_api \<Rightarrow> string \<Rightarrow> db \<Rightarrow> int option \<times> db" where
  "authenticate_ws api token s =
     (case decode_token api token s of (payload, s) \<Rightarrow>
        ((case checked_claims api TOKEN_TYPE_ACCESS payload of
            Inl _ \<Rightarrow> None
          | Inr (_, uid) \<Rightarrow>
              (case get_user_by_id s uid of
                 None \<Rightarrow> None
               | Some u \<Rightarrow> if \<not> u_active u then None else Some (u_id u))), s))"

datatype ws_outcome = Closed int | Streaming

definition ws_events :: "int option \<Rightarrow> (string \<Rightarrow> bool) \<Rightarrow> ws_outcome" where
  \<comment> \<open>\<open>allowed\<close> is the answer of the connection limiter for a user\<close>
  "ws_events user_id allowed =
     (case user_id of
        None \<Rightarrow> Closed 4401
      | Some uid \<Rightarrow> if \<not> allowed (show_int uid) then Closed 4429 else Streaming)"

end
