(* ===== verification/Accounts.thy ===== *)
theory Accounts
  imports Auth Task_Routes
begin

text \<open>
  The transactions on users and tokens as one relation, and what holds of all of them: they leave
  the tables of the platform's work alone, keep the keys of the accounts sound, and never undo a
  revocation. The locale \<open>revocable\<close> is the contract of a credential; refresh tokens and API tokens
  are its two interpretations.
\<close>

section \<open>The transactions of the accounts\<close>

inductive auth_committed :: "settings \<Rightarrow> auth_api \<Rightarrow> db \<Rightarrow> db \<Rightarrow> bool" for cfg api where
  bootstrap: "auth_committed cfg api s (bootstrap_admin cfg api salt s)"
| register: "valid_register username password \<Longrightarrow>
    auth_committed cfg api s (snd (register_route api allowed salt username password ip s))"
| login: "auth_committed cfg api s
    (snd (snd (login_route cfg api now1 now2 jti1 jti2 username password ip fs s)))"
| refresh: "auth_committed cfg api s (snd (refresh_route cfg api allowed jti1 jti2 token s))"
| logout: "auth_committed cfg api s (snd (logout_route api allowed token s))"
| change_password: "auth_committed cfg api s (snd (change_password_route api salt who current_pw new_pw ip s))"
| set_active: "auth_committed cfg api s (snd (set_active_route admin uid active ip s))"
| set_role: "valid_role_change role \<Longrightarrow> auth_committed cfg api s (snd (set_role_route admin uid role ip s))"
| create_api_token: "auth_committed cfg api s (snd (create_api_token_route cfg api hex who name ip s))"
| revoke_api_token: "auth_committed cfg api s (snd (revoke_api_token_route who tid ip s))"
| api_token_used: "auth_committed cfg api s (snd (authenticate_api_token api token s))"

section \<open>They leave the rest of the platform alone\<close>

definition work :: "db \<Rightarrow> db" where
  \<comment> \<open>the state without its accounts, audit log and clock readings\<close>
  "work s = s\<lparr>users := [], refresh_tokens := [], api_tokens := [], audit_logs := [],
     seq_user := 0, seq_refresh := 0, seq_token := 0, seq_audit := 0, ticks := 0\<rparr>"

lemma work_primitives [simp]:
  "work (s\<lparr>users := us\<rparr>) = work s" "work (s\<lparr>refresh_tokens := rs\<rparr>) = work s" "work (s\<lparr>api_tokens := ps\<rparr>) = work s"
  "work (s\<lparr>seq_user := n\<rparr>) = work s" "work (s\<lparr>seq_refresh := n\<rparr>) = work s" "work (s\<lparr>seq_token := n\<rparr>) = work s"
  "work (s\<lparr>ticks := k\<rparr>) = work s" "work (audit u a r i d ip s) = work s"
  "work (update_user uid f s) = work s" "work (snd (revoke_all_refresh_tokens uid s)) = work s"
  "work (revoke_refresh stored s) = work s"
  by (simp_all add: work_def audit_def audit_record_def Let_def update_user_def revoke_all_refresh_tokens_def
      revoke_refresh_def now_utc_def case_prod_beta)

lemma work_rollback: "work s = w \<Longrightarrow> work s' = w \<Longrightarrow> work (rollback_to s s') = w"
  by (cases s, cases s') (auto simp: work_def rollback_to_def)

lemma work_inserted [simp]:
  "work (final_state (insert_user name h role s)) = work s"
  "work (final_state (insert_refresh uid jti t s)) = work s"
  by (simp_all add: insert_user_def insert_refresh_def Let_def)

lemma work_read [simp]:
  "work (snd (jwt_token api uid ty jti d s)) = work s"
  "work (snd (create_access_token cfg api jti uid s)) = work s"
  "work (snd (create_refresh_token cfg api jti uid s)) = work s"
  "work (snd (decode_token api token s)) = work s"
  "work (snd (refresh_is_valid payload s)) = work s"
  by (simp_all add: jwt_token_def create_access_token_def create_refresh_token_def decode_token_def
      refresh_is_valid_def now_utc_def split: option.split)

lemma work_persist [simp]: "work (final_state (persist_refresh_token uid payload s)) = work s"
  by (simp add: persist_refresh_token_def split: option.split json.split)

lemma work_eqI:
  "f = (a, s') \<Longrightarrow> work (snd f) = w \<Longrightarrow> work s' = w"
  "m = Ok x s' \<Longrightarrow> work (final_state m) = w \<Longrightarrow> work s' = w"
  "m = Raise e s' \<Longrightarrow> work (final_state m) = w \<Longrightarrow> work s' = w"
  by auto

lemma work_issue [simp]: "work (snd (issue_refresh cfg api jti uid s)) = work s"
proof -
  obtain token s1 where 1: "create_refresh_token cfg api jti uid s = (token, s1)" by fastforce
  obtain p s2 where 2: "decode_token api token s1 = (p, s2)" by fastforce
  have "work s2 = work s" using work_eqI(1) [OF 1] work_eqI(1) [OF 2] by simp
  then show ?thesis
    by (auto simp: issue_refresh_def 1 2 split: option.split outcome.split
        dest: work_eqI(2) [OF _ work_persist] work_eqI(3) [OF _ work_persist])
qed

lemma work_create_token [simp]: "work (final_state (create_token cfg api hex uid name ttl s)) = work s"
  by (simp add: create_token_def Let_def now_utc_def)

lemma work_api_token [simp]:
  "work (snd (authenticate api token s)) = work s"
  "work (snd (authenticate_api_token api token s)) = work s"
  "work (snd (revoke_token tid uid admin s)) = work s"
  by (auto simp: authenticate_api_token_def authenticate_def revoke_token_def now_utc_def split: option.split prod.split)

lemma snd_eqD: "f = (a, b) \<Longrightarrow> b = snd f"
  by simp

lemma work_committed: "auth_committed cfg api s s' \<Longrightarrow> work s' = work s"
proof (induction rule: auth_committed.induct)
  case (bootstrap s salt)
  then show ?case by (simp add: bootstrap_admin_def)
next
  case (register username password s allowed salt ip)
  then show ?case
    by (auto simp: register_route_def split: outcome.split intro!: work_rollback dest: work_eqI(2) [OF _ work_inserted(1)] work_eqI(3) [OF _ work_inserted(1)])
next
  case (login s)
  then show ?case
    by (auto simp: login_route_def Let_def now_utc_def case_prod_beta split: option.split prod.split intro!: work_rollback
        dest!: snd_eqD)
next
  case (refresh s allowed jti1 jti2 token)
  then show ?case
    by (auto simp: refresh_route_def Let_def split: option.split prod.split sum.split intro!: work_rollback dest!: snd_eqD)
next
  case (logout s allowed token)
  then show ?case by (auto simp: logout_route_def split: option.split prod.split dest!: snd_eqD)
next
  case (change_password s salt who)
  then show ?case by (auto simp: change_password_route_def Let_def case_prod_beta split: option.split)
next
  case (set_active s)
  then show ?case by (auto simp: set_active_route_def Let_def case_prod_beta split: option.split)
next
  case (set_role s)
  then show ?case by (auto simp: set_role_route_def Let_def split: option.split)
next
  case (create_api_token s hex who name ip)
  then show ?case
    by (auto simp: create_api_token_route_def split: outcome.split intro!: work_rollback dest: work_eqI(2) [OF _ work_create_token] work_eqI(3) [OF _ work_create_token])
next
  case (revoke_api_token s)
  then show ?case
    by (auto simp: revoke_api_token_route_def split: prod.split bool.split dest!: snd_eqD)
qed simp

lemma work_tables:
  assumes "work s' = work s"
  shows "tasks s' = tasks s" "attempts s' = attempts s" "events s' = events s" "outbox s' = outbox s"
    and "dependencies s' = dependencies s" "subscriptions s' = subscriptions s" "deliveries s' = deliveries s"
    and "batches s' = batches s" "workers s' = workers s" "seq_task s' = seq_task s" "seq_attempt s' = seq_attempt s"
    and "seq_event s' = seq_event s" "seq_outbox s' = seq_outbox s" "seq_delivery s' = seq_delivery s"
    and "clock s' = clock s" "db_now s' = db_now s"
proof -
  show "tasks s' = tasks s" "attempts s' = attempts s" "events s' = events s" "outbox s' = outbox s"
    and "dependencies s' = dependencies s" "subscriptions s' = subscriptions s" "deliveries s' = deliveries s"
    and "batches s' = batches s" "workers s' = workers s" "seq_task s' = seq_task s" "seq_attempt s' = seq_attempt s"
    and "seq_event s' = seq_event s" "seq_outbox s' = seq_outbox s" "seq_delivery s' = seq_delivery s"
    and "clock s' = clock s" "db_now s' = db_now s"
    using assms unfolding work_def by (cases s; cases s'; simp)+
qed

section \<open>The keys of the accounts\<close>

definition accounts_ok :: "db \<Rightarrow> bool" where
  "accounts_ok s \<longleftrightarrow>
     distinct (map u_id (users s)) \<and> distinct (map u_username (users s)) \<and>
     (\<forall>u\<in>set (users s). u_id u < seq_user s \<and> valid_role_change (u_role u)) \<and>
     distinct (map r_id (refresh_tokens s)) \<and> distinct (map r_jti (refresh_tokens s)) \<and>
     (\<forall>r\<in>set (refresh_tokens s). r_id r < seq_refresh s) \<and>
     distinct (map p_id (api_tokens s)) \<and> distinct (map p_token_hash (api_tokens s)) \<and>
     (\<forall>p\<in>set (api_tokens s). p_id p < seq_token s)"

definition grown :: "db \<Rightarrow> db \<Rightarrow> bool" where
  "grown s s' \<longleftrightarrow> seq_user s \<le> seq_user s' \<and> seq_refresh s \<le> seq_refresh s' \<and> seq_token s \<le> seq_token s'"

text \<open>
  What no transaction undoes: the keys stay sound, every token row keeps its owner and end, and
  what was revoked stays revoked.
\<close>

definition keeps_accounts :: "db \<Rightarrow> db \<Rightarrow> bool" where
  "keeps_accounts s s' \<longleftrightarrow>
     grown s s' \<and> (accounts_ok s \<longrightarrow> accounts_ok s') \<and>
     (\<forall>r\<in>set (refresh_tokens s). \<exists>r'\<in>set (refresh_tokens s').
        r_jti r' = r_jti r \<and> r_user_id r' = r_user_id r \<and> r_expires_at r' = r_expires_at r \<and>
        (r_revoked_at r \<noteq> None \<longrightarrow> r_revoked_at r' \<noteq> None)) \<and>
     (\<forall>p\<in>set (api_tokens s). \<exists>p'\<in>set (api_tokens s').
        p_token_hash p' = p_token_hash p \<and> p_user_id p' = p_user_id p \<and> p_expires_at p' = p_expires_at p \<and>
        (p_revoked_at p \<noteq> None \<longrightarrow> p_revoked_at p' \<noteq> None))"

lemma keeps_refl [simp]: "keeps_accounts s s"
  by (auto simp: keeps_accounts_def grown_def)

lemma keeps_trans: "keeps_accounts s s1 \<Longrightarrow> keeps_accounts s1 s2 \<Longrightarrow> keeps_accounts s s2"
  unfolding keeps_accounts_def grown_def by (intro conjI; (linarith | blast | metis))

lemma keeps_same:
  assumes "users s' = users s" "refresh_tokens s' = refresh_tokens s" "api_tokens s' = api_tokens s" "grown s s'"
  shows "keeps_accounts s s'"
  using assms by (fastforce simp: keeps_accounts_def accounts_ok_def grown_def)

lemma keeps_rollback: "keeps_accounts s s' \<Longrightarrow> keeps_accounts s (rollback_to s s')"
  by (rule keeps_same) (simp_all add: rollback_to_def keeps_accounts_def grown_def)

lemma keeps_user_added:
  assumes "name \<notin> u_username ` set (users s)" "valid_role_change (u_role u)" "u_username u = name" "u_id u = seq_user s"
  shows "keeps_accounts s (s\<lparr>seq_user := seq_user s + 1, users := users s @ [u]\<rparr>)"
  using assms by (force simp: keeps_accounts_def accounts_ok_def grown_def)

lemma keeps_refresh_added:
  assumes "r_jti r \<notin> r_jti ` set (refresh_tokens s)" "r_id r = seq_refresh s"
  shows "keeps_accounts s (s\<lparr>seq_refresh := seq_refresh s + 1, refresh_tokens := refresh_tokens s @ [r]\<rparr>)"
  using assms by (force simp: keeps_accounts_def accounts_ok_def grown_def)

lemma keeps_token_added:
  assumes "p_token_hash p \<notin> p_token_hash ` set (api_tokens s)" "p_id p = seq_token s"
  shows "keeps_accounts s (s\<lparr>seq_token := seq_token s + 1, api_tokens := api_tokens s @ [p]\<rparr>)"
  using assms by (force simp: keeps_accounts_def accounts_ok_def grown_def)

lemma keeps_users_mapped:
  assumes "\<And>u. u \<in> set (users s) \<Longrightarrow> u_id (f u) = u_id u \<and> u_username (f u) = u_username u \<and>
      (valid_role_change (u_role u) \<longrightarrow> valid_role_change (u_role (f u)))"
  shows "keeps_accounts s (s\<lparr>users := map f (users s)\<rparr>)"
proof -
  have "map u_id (map f (users s)) = map u_id (users s)" "map u_username (map f (users s)) = map u_username (users s)"
    using assms by simp_all
  then show ?thesis using assms by (fastforce simp: keeps_accounts_def accounts_ok_def grown_def simp del: map_map)
qed

lemma keeps_refresh_mapped:
  assumes "\<And>r. r \<in> set (refresh_tokens s) \<Longrightarrow> r_id (f r) = r_id r \<and> r_jti (f r) = r_jti r \<and> r_user_id (f r) = r_user_id r \<and>
      r_expires_at (f r) = r_expires_at r \<and> (r_revoked_at r \<noteq> None \<longrightarrow> r_revoked_at (f r) \<noteq> None)"
  shows "keeps_accounts s (s\<lparr>refresh_tokens := map f (refresh_tokens s)\<rparr>)"
proof -
  have "map r_id (map f (refresh_tokens s)) = map r_id (refresh_tokens s)"
    "map r_jti (map f (refresh_tokens s)) = map r_jti (refresh_tokens s)"
    using assms by simp_all
  then show ?thesis using assms by (fastforce simp: keeps_accounts_def accounts_ok_def grown_def simp del: map_map)
qed

lemma keeps_tokens_mapped:
  assumes "\<And>p. p \<in> set (api_tokens s) \<Longrightarrow> p_id (f p) = p_id p \<and> p_token_hash (f p) = p_token_hash p \<and>
      p_user_id (f p) = p_user_id p \<and> p_expires_at (f p) = p_expires_at p \<and>
      (p_revoked_at p \<noteq> None \<longrightarrow> p_revoked_at (f p) \<noteq> None)"
  shows "keeps_accounts s (s\<lparr>api_tokens := map f (api_tokens s)\<rparr>)"
proof -
  have "map p_id (map f (api_tokens s)) = map p_id (api_tokens s)"
    "map p_token_hash (map f (api_tokens s)) = map p_token_hash (api_tokens s)"
    using assms by simp_all
  then show ?thesis using assms by (fastforce simp: keeps_accounts_def accounts_ok_def grown_def simp del: map_map)
qed

lemma keeps_ticked: "keeps_accounts s s' \<Longrightarrow> keeps_accounts s (s'\<lparr>ticks := n\<rparr>)"
  by (erule keeps_trans) (rule keeps_same, simp_all add: grown_def)

lemma keeps_audited: "keeps_accounts s s' \<Longrightarrow> keeps_accounts s (audit u a r i d ip s')"
  by (erule keeps_trans) (rule keeps_same, simp_all add: grown_def db_simps audit_def audit_record_def Let_def case_prod_beta)

lemma keeps_update_user:
  assumes "keeps_accounts s s'" "\<And>u. u_id (f u) = u_id u \<and> u_username (f u) = u_username u"
    and "\<And>u. valid_role_change (u_role u) \<Longrightarrow> valid_role_change (u_role (f u))"
  shows "keeps_accounts s (update_user uid f s')"
  unfolding update_user_def update_row_def
  by (rule keeps_trans [OF assms(1)], rule keeps_users_mapped) (simp add: assms(2,3))

lemma keeps_refresh_updated:
  assumes "keeps_accounts s s'" "\<And>r. r_id (f r) = r_id r \<and> r_jti (f r) = r_jti r \<and> r_user_id (f r) = r_user_id r \<and>
      r_expires_at (f r) = r_expires_at r \<and> (r_revoked_at r \<noteq> None \<longrightarrow> r_revoked_at (f r) \<noteq> None)"
  shows "keeps_accounts s (s'\<lparr>ticks := n, refresh_tokens := map f (refresh_tokens s')\<rparr>)"
proof -
  have "keeps_accounts (s'\<lparr>ticks := n\<rparr>) (s'\<lparr>ticks := n, refresh_tokens := map f (refresh_tokens s')\<rparr>)"
    using keeps_refresh_mapped [of "s'\<lparr>ticks := n\<rparr>" f] assms(2) by simp
  with keeps_ticked [OF assms(1)] show ?thesis by (rule keeps_trans)
qed

lemma keeps_revoked:
  assumes "keeps_accounts s s'"
  shows "keeps_accounts s (revoke_refresh stored s')" "keeps_accounts s (snd (revoke_all_refresh_tokens uid s'))"
proof -
  have update: "update_row r_id k f rs = map (\<lambda>r. if r_id r = k then f r else r) rs" for k f rs
    by (simp add: update_row_def)
  show "keeps_accounts s (revoke_refresh stored s')"
    by (simp add: revoke_refresh_def now_utc_def update, rule keeps_refresh_updated [OF assms], simp)
  show "keeps_accounts s (snd (revoke_all_refresh_tokens uid s'))"
    by (simp add: revoke_all_refresh_tokens_def now_utc_def, rule keeps_refresh_updated [OF assms], simp)
qed

lemma keeps_token_updated:
  assumes "keeps_accounts s s'" "\<And>p. p_id (f p) = p_id p \<and> p_token_hash (f p) = p_token_hash p \<and>
      p_user_id (f p) = p_user_id p \<and> p_expires_at (f p) = p_expires_at p \<and>
      (p_revoked_at p \<noteq> None \<longrightarrow> p_revoked_at (f p) \<noteq> None)"
  shows "keeps_accounts s (s'\<lparr>ticks := n, api_tokens := update_row p_id k f (api_tokens s')\<rparr>)"
proof -
  have "keeps_accounts (s'\<lparr>ticks := n\<rparr>) (s'\<lparr>ticks := n, api_tokens := update_row p_id k f (api_tokens s')\<rparr>)"
    using keeps_tokens_mapped [of "s'\<lparr>ticks := n\<rparr>" "\<lambda>r. if p_id r = k then f r else r"] assms(2)
    by (simp add: update_row_def)
  with keeps_ticked [OF assms(1)] show ?thesis by (rule keeps_trans)
qed

lemma keeps_inserted:
  assumes "keeps_accounts s s'"
  shows "keeps_accounts s (final_state (insert_refresh uid jti t s'))"
    and "valid_role_change role \<Longrightarrow> keeps_accounts s (final_state (insert_user name h role s'))"
proof -
  have "keeps_accounts s' (s'\<lparr>seq_refresh := seq_refresh s' + 1\<rparr>)" "keeps_accounts s' (s'\<lparr>seq_user := seq_user s' + 1\<rparr>)"
    by (rule keeps_same; simp add: grown_def)+
  then have "keeps_accounts s' (final_state (insert_refresh uid jti t s'))"
    and "valid_role_change role \<Longrightarrow> keeps_accounts s' (final_state (insert_user name h role s'))"
    by (simp_all add: insert_refresh_def insert_user_def Let_def keeps_refresh_added keeps_user_added)
  then show "keeps_accounts s (final_state (insert_refresh uid jti t s'))"
    and "valid_role_change role \<Longrightarrow> keeps_accounts s (final_state (insert_user name h role s'))"
    using keeps_trans [OF assms] by auto
qed

lemma keeps_read:
  "keeps_accounts s s' \<Longrightarrow> keeps_accounts s (snd (create_access_token cfg api jti uid s'))"
  "keeps_accounts s s' \<Longrightarrow> keeps_accounts s (snd (create_refresh_token cfg api jti uid s'))"
  "keeps_accounts s s' \<Longrightarrow> keeps_accounts s (snd (decode_token api token s'))"
  "keeps_accounts s s' \<Longrightarrow> keeps_accounts s (snd (refresh_is_valid payload s'))"
  by (auto simp: jwt_token_def create_access_token_def create_refresh_token_def decode_token_def
      refresh_is_valid_def now_utc_def keeps_ticked split: option.split)

lemma keeps_persist: "keeps_accounts s s' \<Longrightarrow> keeps_accounts s (final_state (persist_refresh_token uid payload s'))"
  by (auto simp: persist_refresh_token_def keeps_inserted split: option.split json.split)

lemma keeps_eqI:
  "f = (a, s') \<Longrightarrow> keeps_accounts s (snd f) \<Longrightarrow> keeps_accounts s s'"
  "m = Ok x s' \<Longrightarrow> keeps_accounts s (final_state m) \<Longrightarrow> keeps_accounts s s'"
  "m = Raise e s' \<Longrightarrow> keeps_accounts s (final_state m) \<Longrightarrow> keeps_accounts s s'"
  by auto

lemma keeps_issue: "keeps_accounts s s' \<Longrightarrow> keeps_accounts s (snd (issue_refresh cfg api jti uid s'))"
proof -
  assume s: "keeps_accounts s s'"
  obtain token s1 where 1: "create_refresh_token cfg api jti uid s' = (token, s1)" by fastforce
  obtain p s2 where 2: "decode_token api token s1 = (p, s2)" by fastforce
  have "keeps_accounts s s2"
    by (rule keeps_eqI(1) [OF 2], rule keeps_read(3), rule keeps_eqI(1) [OF 1], rule keeps_read(2), rule s)
  note persist = keeps_persist [OF this]
  show ?thesis
    by (auto simp: issue_refresh_def 1 2 \<open>keeps_accounts s s2\<close> split: option.split outcome.split
        dest: keeps_eqI(2) [OF _ persist] keeps_eqI(3) [OF _ persist])
qed

lemma keeps_create_token: "keeps_accounts s s' \<Longrightarrow> keeps_accounts s (final_state (create_token cfg api hex uid name ttl s'))"
proof (erule keeps_trans)
  have "keeps_accounts s' (s1\<lparr>seq_token := seq_token s1 + 1, api_tokens := api_tokens s1 @ [p]\<rparr>)"
    if "keeps_accounts s' s1" "p_token_hash p \<notin> p_token_hash ` set (api_tokens s1)" "p_id p = seq_token s1" for s1 p
    by (rule keeps_trans [OF that(1)], rule keeps_token_added) (use that in auto)
  moreover have "keeps_accounts s' (s1\<lparr>seq_token := seq_token s1 + 1\<rparr>)" if "keeps_accounts s' s1" for s1
    by (rule keeps_trans [OF that], rule keeps_same) (simp_all add: grown_def)
  ultimately show "keeps_accounts s' (final_state (create_token cfg api hex uid name ttl s'))"
    by (auto simp: create_token_def Let_def now_utc_def case_prod_beta keeps_ticked)
qed

lemma keeps_api_token:
  "keeps_accounts s s' \<Longrightarrow> keeps_accounts s (snd (authenticate api token s'))"
  "keeps_accounts s s' \<Longrightarrow> keeps_accounts s (snd (revoke_token tid uid admin s'))"
  by (auto simp: authenticate_def revoke_token_def now_utc_def keeps_ticked split: option.split intro!: keeps_token_updated)

lemma keeps_authenticate: "keeps_accounts s s' \<Longrightarrow> keeps_accounts s (snd (authenticate_api_token api token s'))"
  using keeps_api_token(1) [of s s' api token]
  by (auto simp: authenticate_api_token_def now_utc_def split: option.split prod.split intro!: keeps_token_updated)

lemma viewer_ok: "valid_role_change ''viewer''" "valid_role_change ''admin''"
  by (simp_all add: valid_role_change_def ROLES_def)

lemma keeps_committed: "auth_committed cfg api s s' \<Longrightarrow> keeps_accounts s s'"
proof (induction rule: auth_committed.induct)
  case (bootstrap s salt)
  then show ?case by (simp add: bootstrap_admin_def keeps_inserted viewer_ok)
next
  case (register username password s allowed salt ip)
  have "keeps_accounts s (final_state (insert_user username h ''viewer'' s))" for h
    by (simp add: keeps_inserted viewer_ok)
  then show ?case
    by (auto simp: register_route_def split: outcome.split intro!: keeps_rollback keeps_audited
        intro: keeps_eqI(2) keeps_eqI(3))
next
  case (login s now1 now2 jti1 jti2 username password ip fs)
  have "keeps_accounts s (update_user uid (\<lambda>u. u\<lparr>u_last_login_at := Some t\<rparr>) (s\<lparr>ticks := n\<rparr>))" for uid t n
    by (rule keeps_update_user) (simp_all add: keeps_ticked)
  note issue = keeps_issue [OF this]
  show ?case
    by (auto simp: login_route_def Let_def now_utc_def case_prod_beta issue split: option.split prod.split
        intro!: keeps_rollback keeps_read keeps_audited dest!: snd_eqD)
next
  case (refresh s allowed jti1 jti2 token)
  obtain p s1 where 1: "decode_token api token s = (p, s1)" by fastforce
  have k1: "keeps_accounts s s1" by (rule keeps_eqI(1) [OF 1]) (simp add: keeps_read)
  have k2: "keeps_accounts s s2" if "refresh_is_valid c s1 = (r, s2)" for c r s2
    by (rule keeps_eqI(1) [OF that]) (simp add: keeps_read k1)
  have k3: "keeps_accounts s2 (snd (issue_refresh cfg api jti1 uid (revoke_refresh r s2)))" for uid r s2
    by (simp add: keeps_issue keeps_revoked)
  have k4: "keeps_accounts s s4" if "refresh_is_valid c s1 = (r, s2)"
    "issue_refresh cfg api jti1 uid (revoke_refresh r' s2) = (x, s3)" "create_access_token cfg api jti2 uid s3 = (y, s4)"
    for c r r' s2 s3 s4 uid x y
    by (rule keeps_trans [OF k2 [OF that(1)]], rule keeps_eqI(1) [OF that(3)], rule keeps_read,
        rule keeps_eqI(1) [OF that(2)], rule k3)
  show ?case
    by (auto simp: refresh_route_def 1 k1 split: option.split prod.split sum.split
        intro: k2 k4 keeps_trans [OF k2] keeps_rollback keeps_eqI(1) [OF _ k3])
next
  case (logout s allowed token)
  obtain p s1 where 1: "decode_token api token s = (p, s1)" by fastforce
  have k1: "keeps_accounts s s1" by (rule keeps_eqI(1) [OF 1]) (simp add: keeps_read)
  have k2: "keeps_accounts s s2" if "refresh_is_valid c s1 = (r, s2)" for c r s2
    by (rule keeps_eqI(1) [OF that]) (simp add: keeps_read k1)
  show ?case
    by (auto simp: logout_route_def 1 k1 split: option.split prod.split intro!: keeps_revoked intro: k2)
next
  case (change_password s salt who)
  then show ?case
    by (auto simp: change_password_route_def Let_def case_prod_beta split: option.split
        intro!: keeps_audited keeps_revoked keeps_update_user)
next
  case (set_active s)
  then show ?case
    by (auto simp: set_active_route_def Let_def case_prod_beta split: option.split
        intro!: keeps_audited keeps_revoked keeps_update_user)
next
  case (set_role role s)
  then show ?case
    by (auto simp: set_role_route_def Let_def split: option.split intro!: keeps_audited keeps_update_user)
next
  case (create_api_token s hex who name ip)
  have "keeps_accounts s (final_state (create_token cfg api hex (u_id who) name None s))"
    by (simp add: keeps_create_token)
  then show ?case
    by (auto simp: create_api_token_route_def split: outcome.split intro!: keeps_rollback keeps_audited
        intro: keeps_eqI(2) keeps_eqI(3))
next
  case (revoke_api_token s who tid ip)
  have "keeps_accounts s (snd (revoke_token tid (u_id who) (u_role who = ''admin'') s))"
    by (simp add: keeps_api_token)
  then show ?case
    by (auto simp: revoke_api_token_route_def split: prod.split bool.split intro!: keeps_audited)
qed (simp add: keeps_authenticate)

section \<open>The contract of a credential\<close>

locale revocable =
  fixes commits :: "db \<Rightarrow> db \<Rightarrow> bool" and sound :: "db \<Rightarrow> bool"
    and revoked :: "'k \<Rightarrow> db \<Rightarrow> bool" and accepts :: "'k \<Rightarrow> db \<Rightarrow> bool"
  assumes stays_sound: "commits s s' \<Longrightarrow> sound s \<Longrightarrow> sound s'"
    and refused: "sound s \<Longrightarrow> revoked k s \<Longrightarrow> \<not> accepts k s"
    and permanent: "commits s s' \<Longrightarrow> sound s \<Longrightarrow> revoked k s \<Longrightarrow> revoked k s'"
begin

lemma stays_revoked: "commits\<^sup>*\<^sup>* s s' \<Longrightarrow> sound s \<Longrightarrow> revoked k s \<Longrightarrow> sound s' \<and> revoked k s'"
  by (induction rule: rtranclp_induct) (use stays_sound permanent in blast)+

lemma never_again: "commits\<^sup>*\<^sup>* s s' \<Longrightarrow> sound s \<Longrightarrow> revoked k s \<Longrightarrow> \<not> accepts k s'"
  using stays_revoked refused by blast

end

definition refresh_revoked :: "string \<Rightarrow> db \<Rightarrow> bool" where
  "refresh_revoked jti s \<longleftrightarrow> (\<exists>r\<in>set (refresh_tokens s). r_jti r = jti \<and> r_revoked_at r \<noteq> None)"

definition token_revoked :: "string \<Rightarrow> db \<Rightarrow> bool" where
  "token_revoked hash s \<longleftrightarrow> (\<exists>p\<in>set (api_tokens s). p_token_hash p = hash \<and> p_revoked_at p \<noteq> None)"

lemma find_distinct:
  "distinct (map f xs) \<Longrightarrow> x \<in> set xs \<Longrightarrow> f x = k \<Longrightarrow> List.find (\<lambda>x. f x = k) xs = Some x"
  by (induction xs) auto

lemma refresh_refused:
  assumes "accounts_ok s" "refresh_revoked jti s" "claims_jti payload = jti"
  shows "fst (refresh_is_valid payload s) = None"
proof -
  obtain r where r: "r \<in> set (refresh_tokens s)" "r_jti r = jti" "r_revoked_at r \<noteq> None"
    using assms(2) by (auto simp: refresh_revoked_def)
  then have "stored_refresh jti s = Some r"
    using assms(1) by (simp add: stored_refresh_def accounts_ok_def find_distinct)
  then show ?thesis using r assms(3) by (simp add: refresh_is_valid_def)
qed

lemma token_refused:
  assumes "accounts_ok s" "token_revoked (sha256_hex api token) s"
  shows "fst (authenticate api token s) = None"
proof -
  obtain p where p: "p \<in> set (api_tokens s)" "p_token_hash p = sha256_hex api token" "p_revoked_at p \<noteq> None"
    using assms(2) by (auto simp: token_revoked_def)
  then have "find_token api token s = Some p"
    using assms(1) by (simp add: find_token_def accounts_ok_def find_distinct)
  then show ?thesis using p by (simp add: authenticate_def now_utc_def)
qed

lemma keeps_revocations:
  assumes "keeps_accounts s s'"
  shows "refresh_revoked jti s \<Longrightarrow> refresh_revoked jti s'" "token_revoked hash s \<Longrightarrow> token_revoked hash s'"
proof -
  show "refresh_revoked jti s'" if "refresh_revoked jti s"
  proof -
    obtain r where "r \<in> set (refresh_tokens s)" "r_jti r = jti" "r_revoked_at r \<noteq> None"
      using \<open>refresh_revoked jti s\<close> by (auto simp: refresh_revoked_def)
    then show ?thesis using assms unfolding keeps_accounts_def refresh_revoked_def by metis
  qed
  show "token_revoked hash s'" if "token_revoked hash s"
  proof -
    obtain p where "p \<in> set (api_tokens s)" "p_token_hash p = hash" "p_revoked_at p \<noteq> None"
      using \<open>token_revoked hash s\<close> by (auto simp: token_revoked_def)
    then show ?thesis using assms unfolding keeps_accounts_def token_revoked_def by metis
  qed
qed

lemma keeps_sound: "keeps_accounts s s' \<Longrightarrow> accounts_ok s \<Longrightarrow> accounts_ok s'"
  by (simp add: keeps_accounts_def)

end
