(* ===== verification/System.thy ===== *)
theory System
  imports Messages Accounts
begin

text \<open>
  The whole platform as a transition system. A state is the database and the executions the
  workers have in flight, each with the task object and attempt its worker holds since the
  claim. A step is one committed transaction of a route, the coordinator, the relay, the
  webhook dispatcher or a heartbeat, a claim, a finish, the loss of a worker, or the passing of
  time, in any order: so every interleaving of transactions is covered. The invariants hold in
  every reachable state.
\<close>

section \<open>The message streams\<close>

definition outbox_ok :: "db \<Rightarrow> outbox_event \<Rightarrow> bool" where
  "outbox_ok s oe \<longleftrightarrow> o_id oe < seq_outbox s \<and> (o_status oe = OUTBOX_PENDING \<longleftrightarrow> o_processed_at oe = None) \<and>
     fits_width 1000 (o_last_error oe)"

definition streams_ok :: "settings \<Rightarrow> db \<Rightarrow> bool" where
  "streams_ok cfg s \<longleftrightarrow>
     distinct (map o_id (outbox s)) \<and> (\<forall>oe\<in>set (outbox s). outbox_ok s oe) \<and>
     distinct (map w_id (deliveries s)) \<and> (\<forall>d\<in>set (deliveries s). w_id d < seq_delivery s) \<and>
     (0 < webhook_max_attempts cfg \<longrightarrow> (\<forall>d\<in>set (deliveries s). delivery_ok cfg d))"

lemma streams_enqueue_all: "streams_ok cfg s \<Longrightarrow> streams_ok cfg (enqueue_all ev obj now subs s)"
proof (induction subs arbitrary: s)
  case (Cons sub subs)
  have "streams_ok cfg (enqueue_delivery ev obj now sub s)"
    using Cons.prems by (fastforce simp: streams_ok_def outbox_ok_def enqueue_delivery_def delivery_ok_def)
  then show ?case using Cons by simp
qed simp

interpretation streams: message_invariant "streams_ok cfg" for cfg
proof unfold_locales
  fix s s' :: db
  assume "streams_ok cfg s" "outbox s' = outbox s" "deliveries s' = deliveries s"
    "seq_outbox s \<le> seq_outbox s'" "seq_delivery s \<le> seq_delivery s'"
  then show "streams_ok cfg s'" by (fastforce simp: streams_ok_def outbox_ok_def)
next
  fix s :: db and k p
  assume "streams_ok cfg s"
  then show "streams_ok cfg (add_outbox k p s)"
    by (fastforce simp: streams_ok_def outbox_ok_def add_outbox_def)
next
  fix s :: db and ev obj
  assume "streams_ok cfg s"
  then have "streams_ok cfg (enqueue_all ev obj (clock s (ticks s)) (filter s_is_active (subscriptions s)) (s\<lparr>ticks := Suc (ticks s)\<rparr>))"
    by (intro streams_enqueue_all) (simp add: streams_ok_def outbox_ok_def)
  then show "streams_ok cfg (enqueue_for ev obj s)"
    using \<open>streams_ok cfg s\<close> by (simp add: enqueue_for_def now_utc_def Let_def)
qed

section \<open>Transactions\<close>

fun commit :: "db \<Rightarrow> 'a result \<Rightarrow> db" where
  "commit s (Ok x s') = s'"
| "commit s (Raise e s') = rollback_to s s'"

inductive committed :: "settings \<Rightarrow> db \<Rightarrow> db \<Rightarrow> bool" for cfg where
  create: "committed cfg s (snd (create_task_route cfg allowed u ip body s))"
| bulk_create: "committed cfg s (snd (bulk_create_route cfg allowed u ip bodies s))"
| bulk_retry: "committed cfg s (snd (bulk_retry_route cfg u ip ids s))"
| bulk_cancel: "committed cfg s (snd (bulk_cancel_route cfg u ip ids s))"
| retry: "committed cfg s (snd (retry_task_route cfg u ip tid s))"
| cancel: "committed cfg s (snd (cancel_task_route cfg u ip tid s))"
| create_batch: "committed cfg s (snd (create_batch_route cfg u ip name bodies s))"
| cancel_batch: "committed cfg s (snd (cancel_batch_route cfg u ip bid s))"
| create_webhook: "committed cfg s (snd (create_webhook u ip name url secret evs s))"
| update_webhook: "committed cfg s (snd (update_webhook u ip wid changes s))"
| delete_webhook: "committed cfg s (snd (delete_webhook u ip wid s))"
| test_webhook: "committed cfg s (snd (test_webhook send u ip wid s))"
| requeue_due: "committed cfg s (commit s (requeue_due_tasks cfg limit s))"
| requeue_dlq: "committed cfg s (commit s (requeue_dlq_tasks cfg limit s))"
| recover: "committed cfg s (commit s (recover_stuck_tasks cfg limit s))"
| orphans: "committed cfg s (commit s (requeue_orphaned_queued_tasks cfg limit s))"
| purge: "committed cfg s (snd (purge_old_data cfg limit_arg s))"
| renew: "committed cfg s (snd (renew_lease tid w lease_secs s))"
| heartbeat: "committed cfg s (snd (heartbeat_tick wid hostname pid s))"
| relay: "publish_pending_events online broker limit s = Some (n, sent, s') \<Longrightarrow> committed cfg s s'"
| dispatch: "committed cfg s (snd (dispatch_due cfg send limit s))"
| account: "auth_committed cfg api s s' \<Longrightarrow> committed cfg s s'"
| time_passes: "committed cfg s (s\<lparr>db_now := t, clock := c\<rparr>)"

inductive_cases committedE: "committed cfg s s'"

type_synonym platform = "db \<times> (task \<times> int) list"

inductive step :: "settings \<Rightarrow> platform \<Rightarrow> platform \<Rightarrow> bool" for cfg where
  transaction: "committed cfg s s' \<Longrightarrow> step cfg (s, running) (s', running)"
| claimed: "claim cfg w tid s = Ok (Claimed obj aid) s' \<Longrightarrow> step cfg (s, running) (s', (obj, aid) # running)"
| not_claimed: "claim cfg w tid s = r \<Longrightarrow> \<forall>obj aid s'. r \<noteq> Ok (Claimed obj aid) s' \<Longrightarrow>
    step cfg (s, running) (rollback_to s (final_state r), running)"
| finished: "(obj, aid) \<in> set running \<Longrightarrow>
    step cfg (s, running) (commit s (finish cfg obj aid outcome s), remove1 (obj, aid) running)"
| lost: "step cfg (s, running) (s, filter keep running)"

inductive reachable :: "settings \<Rightarrow> platform \<Rightarrow> bool" for cfg where
  start: "reachable cfg (empty_db t c, [])"
| further: "reachable cfg p \<Longrightarrow> step cfg p p' \<Longrightarrow> reachable cfg p'"

section \<open>The contract of an invariant of the platform\<close>

locale platform_invariant =
  fixes cfg :: settings and I :: "db \<Rightarrow> bool" and H :: "task \<Rightarrow> bool"
  assumes initial: "I (empty_db t c)"
    and commits: "I s \<Longrightarrow> committed cfg s s' \<Longrightarrow> I s'"
    and claims: "I s \<Longrightarrow> I (final_state (claim cfg w tid s))"
    and claims_rolled_back: "I s \<Longrightarrow> I (rollback_to s (final_state (claim cfg w tid s)))"
    and holds: "I s \<Longrightarrow> claim cfg w tid s = Ok (Claimed obj aid) s' \<Longrightarrow> H obj"
    and finishes: "I s \<Longrightarrow> H obj \<Longrightarrow> I (commit s (finish cfg obj aid outcome s))"
begin

lemma invariant: "reachable cfg p \<Longrightarrow> I (fst p) \<and> (\<forall>(obj, aid)\<in>set (snd p). H obj)"
proof (induction rule: reachable.induct)
  case (start t c)
  then show ?case by (simp add: initial)
next
  case (further p p')
  from further(2,3) show ?case
  proof (induction rule: step.induct)
    case (transaction s s' running)
    then show ?case by (auto intro: commits)
  next
    case (claimed w tid s obj aid s' running)
    then show ?case using claims [of s w tid] holds by auto
  next
    case (not_claimed w tid s r running)
    then show ?case using claims_rolled_back by auto
  next
    case (finished obj aid running s outcome)
    then show ?case using set_remove1_subset [of "(obj, aid)" running] by (auto intro!: finishes)
  next
    case (lost s running keep)
    then show ?case by auto
  qed
qed

end

section \<open>The integrity of the tasks is such an invariant\<close>

lemma integrity_commit: "integrity s \<Longrightarrow> integrity (final_state m) \<Longrightarrow> later s (final_state m) \<Longrightarrow> integrity (commit s m)"
  by (cases m) (simp_all add: integrity_rollback)

lemma integrity_delete_tasks:
  assumes "integrity s"
  shows "integrity (delete_tasks ids s)"
proof -
  let ?s = "delete_tasks ids s"
  have twice: "filter (\<lambda>x. f x = j) (filter (\<lambda>x. f x \<notin> set ids) xs) = filter (\<lambda>x. f x = j) xs"
    if "j \<notin> set ids" for f :: "'x \<Rightarrow> int" and j xs
    using that by (induction xs) auto
  have hist: "history j ?s = history j s" if "j \<notin> set ids" for j
    by (simp add: history_def delete_tasks_def twice [OF that] del: filter_filter)
  have nums: "attempt_numbers j ?s = attempt_numbers j s" if "j \<notin> set ids" for j
    by (simp add: attempt_numbers_def delete_tasks_def twice [OF that] del: filter_filter)
  have rows: "t \<in> set (tasks s) \<and> t_id t \<notin> set ids" if "t \<in> set (tasks ?s)" for t
    using that by (simp add: delete_tasks_def)
  have "keys_ok ?s"
    using assms by (auto simp: integrity_but_def keys_ok_def delete_tasks_def distinct_map_filter)
  moreover have "chain Created (history (t_id t) ?s) = Some (t_status t) \<and> 0 \<le> t_attempts t \<and>
      attempt_numbers (t_id t) ?s = [1..t_attempts t] \<and> task_ok t" if "t \<in> set (tasks ?s)" for t
    using rows [OF that] hist [of "t_id t"] nums [of "t_id t"] assms
    by (simp add: integrity_but_def history_ok_def attempts_ok_def)
  moreover have "\<forall>e\<in>set (events ?s). e_event_type e \<in> set TASK_EVENT_TYPES"
    using assms by (simp add: delete_tasks_def integrity_but_def history_ok_def)
  moreover have "texts_ok ?s"
    using assms by (auto simp: delete_tasks_def integrity_but_def texts_ok_def)
  ultimately show ?thesis by (simp add: integrity_but_def history_ok_def attempts_ok_def)
qed

lemma later_delete_tasks: "seq_task (delete_tasks ids s) = seq_task s" "seq_attempt (delete_tasks ids s) = seq_attempt s"
  by (simp_all add: delete_tasks_def)

lemma integrity_purge: "integrity s \<Longrightarrow> integrity (snd (purge_old_data cfg limit_arg s))"
proof -
  have tasks: "integrity s \<Longrightarrow> integrity (snd (purge_tasks P limit s))" for P limit s
    by (simp add: purge_tasks_def Let_def integrity_delete_tasks)
  have outbox: "integrity s \<Longrightarrow> integrity (snd (delete_old_outbox c limit s))" for c limit s
    by (erule integrity_frame) (simp_all add: delete_old_outbox_def Let_def)
  have audit: "integrity s \<Longrightarrow> integrity (snd (delete_old_audit c limit s))" for c limit s
    by (erule integrity_frame) (simp_all add: delete_old_audit_def Let_def)
  show "integrity s \<Longrightarrow> ?thesis"
    by (simp add: purge_old_data_def now_utc_def Let_def case_prod_beta tasks outbox audit integrity_ticks)
qed

lemma integrity_publish_one: "integrity (snd acc) \<Longrightarrow> integrity (snd (publish_one send oe acc))"
  by (erule integrity_frame) (simp_all add: publish_one_def now_utc_def case_prod_beta Let_def split: option.split)

lemma integrity_relay:
  assumes "integrity s" "publish_pending_events online send limit s = Some (n, sent, s')"
  shows "integrity s'"
proof -
  have "integrity (snd acc) \<Longrightarrow> integrity (snd (fold (publish_one send) evs acc))" for evs acc
    by (induction evs arbitrary: acc) (simp_all add: integrity_publish_one)
  from this [of "([], s)"] show ?thesis
    using assms by (auto simp: publish_pending_events_def Let_def split: if_splits) (metis snd_conv)
qed

lemma integrity_orphans: "integrity s \<Longrightarrow> integrity (final_state (requeue_orphaned_queued_tasks cfg limit s))"
  and later_orphans: "later s (final_state (requeue_orphaned_queued_tasks cfg limit s))"
proof -
  let ?R = "\<lambda>s ts. foldl (\<lambda>s t. republish cfg t s) s ts"
  have "tasks (?R s ts) = tasks s \<and> events (?R s ts) = events s \<and> attempts (?R s ts) = attempts s \<and>
      dependencies (?R s ts) = dependencies s \<and> seq_task (?R s ts) = seq_task s \<and> seq_attempt (?R s ts) = seq_attempt s"
    for s ts by (induction ts arbitrary: s) (simp_all add: republish_def db_simps)
  note frame = this
  show "integrity s \<Longrightarrow> integrity (final_state (requeue_orphaned_queued_tasks cfg limit s))"
    by (erule integrity_frame) (simp_all add: requeue_orphaned_queued_tasks_def now_utc_def Let_def frame)
  show "later s (final_state (requeue_orphaned_queued_tasks cfg limit s))"
    by (simp add: requeue_orphaned_queued_tasks_def now_utc_def Let_def later_def frame)
qed

lemma integrity_committed: "committed cfg s s' \<Longrightarrow> integrity s \<Longrightarrow> integrity s'"
proof (induction rule: committed.induct)
  case (requeue_due s limit)
  then show ?case by (metis commit.simps(1) requeue_due_tasks_effect)
next
  case (requeue_dlq s limit)
  then show ?case
    by (cases "dlq_retry_enabled cfg") (metis commit.simps(1) requeue_dlq_tasks_effect, simp add: requeue_dlq_tasks_def)
next
  case (recover s limit)
  then show ?case by (metis commit.simps(1) recover_stuck_tasks_effect)
next
  case (orphans s limit)
  then show ?case by (intro integrity_commit integrity_orphans later_orphans)
next
  case (relay online broker limit s n sent s')
  then show ?case by (auto intro: integrity_relay)
next
  case (create_webhook s)
  then show ?case
    by (auto simp: create_webhook_def Let_def intro!: integrity_audit elim: integrity_frame)
next
  case (update_webhook s)
  then show ?case
    by (auto simp: update_webhook_def Let_def split: option.split intro!: integrity_audit elim: integrity_frame)
next
  case (delete_webhook s)
  then show ?case
    by (auto simp: delete_webhook_def Let_def db_simps split: option.split elim: integrity_frame)
next
  case (test_webhook s)
  then show ?case
    by (auto simp: test_webhook_def now_utc_def split: option.split prod.split intro!: integrity_audit integrity_ticks)
next
  case (heartbeat s)
  show ?case
    by (rule integrity_frame [OF heartbeat])
      (auto simp: heartbeat_tick_def heartbeat_def register_worker_def update_worker_def now_utc_def Let_def split: option.split)
next
  case (dispatch s send limit)
  have "integrity_but {} s \<Longrightarrow> integrity (fold (dispatch_one cfg send now) ds s)" for ds now s
    by (erule integrity_frame) (simp_all add: fold_dispatch_one)
  with dispatch show ?case by (simp add: dispatch_due_def now_utc_def Let_def integrity_ticks)
next
  case (account api s s')
  then show ?case
    by (intro integrity_frame [OF account(2)]) (simp_all add: work_tables [OF work_committed])
next
  case (time_passes s t c)
  then show ?case by (elim integrity_frame) simp_all
qed (simp_all add: integrity_create_task_route integrity_bulk_create_route integrity_bulk_retry_route
    integrity_bulk_cancel_route integrity_retry_task_route integrity_cancel_task_route
    integrity_create_batch_route integrity_cancel_batch_route integrity_purge integrity_renew_lease)

lemma later_tick: "later (s\<lparr>ticks := n\<rparr>) s' \<longleftrightarrow> later s s'"
  by (simp add: later_def)

lemma later_assigned: "later (snd (assign f (obj, s))) s' \<longleftrightarrow> later s s'"
  by (simp add: later_def db_simps)

lemma later_set_attempt: "later (set_attempt aid f s) s' \<longleftrightarrow> later s s'"
  by (simp add: later_def set_attempt_def)

lemmas later_writes = later_tick later_assigned later_set_attempt

lemma later_status:
  "later s1 (final_state (set_status cfg obj new ev m s1)) \<Longrightarrow> (\<And>s'. later s1 s' \<longleftrightarrow> later s s') \<Longrightarrow>
   later s (final_state (set_status cfg obj new ev m s1))"
  by blast

lemma later_record_success: "later s (final_state (record_success cfg obj aid r s))"
  by (simp add: record_success_def now_utc_def close_attempt_def case_prod_beta Let_def)
    (auto intro: later_status [OF later_set_status] simp: later_writes, simp_all add: later_def set_attempt_def)

lemma later_record_failure: "later s (final_state (record_failure cfg obj aid e retryable s))"
proof -
  have retry: "later s (final_state (schedule_retry cfg obj n s))" for obj n s
    by (simp add: schedule_retry_def now_utc_def case_prod_beta Let_def)
      (rule later_status [OF later_set_status], simp add: later_writes)
  have "later s (snd (set_dlq_retry cfg obj s))" for obj s
    by (simp add: set_dlq_retry_def now_utc_def later_def db_simps)
  then have ending: "later s (final_state (end_in_failure cfg obj n e retryable s))" for obj n e s
    unfolding end_in_failure_def by (intro later_bind later_set_status) (simp add: case_prod_beta)
  have closed: "later s (final_state (close_attempt aid f (s\<lparr>ticks := n\<rparr>)))" for f n
    by (simp add: close_attempt_def later_def set_attempt_def)
  have noted: "later s s1 \<Longrightarrow> later s (snd (assign g (obj, s1)))" for s1 g
    by (simp add: later_def db_simps)
  note rest = later_trans [OF noted retry] later_trans [OF noted ending]
  show ?thesis
    unfolding record_failure_def now_utc_def Let_def prod.case
    by (rule final_state_bindI [where P = "later s"], rule closed) (auto simp: case_prod_beta intro: rest)
qed

lemma later_finish: "later s (final_state (finish cfg obj aid outcome s))"
  by (cases outcome) (simp_all add: finish_def later_record_success later_record_failure)

lemma later_claim: "integrity s \<Longrightarrow> later s (final_state (claim cfg w tid s))"
  by (cases rule: claim_cases [of s cfg w tid]) (simp_all add: later_def)

lemma integrity_empty: "integrity (empty_db t c)"
  by (simp add: integrity_defs empty_db_def)

lemma claim_held: "integrity s \<Longrightarrow> claim cfg w tid s = Ok (Claimed obj aid) s' \<Longrightarrow> held obj"
  by (cases rule: claim_cases [of s cfg w tid]) auto

interpretation integrity_platform: platform_invariant cfg integrity held for cfg
  by unfold_locales
    (auto simp: integrity_empty integrity_claim claim_held integrity_committed
      intro: integrity_rollback later_claim integrity_commit integrity_finish_transaction later_finish)

section \<open>And so is the soundness of the message streams\<close>

context message_invariant begin

lemma committing:
  assumes "\<And>J. message_invariant J \<Longrightarrow> J s \<Longrightarrow> J (final_state m)" and "I s"
  shows "I (commit s m)"
proof -
  have "I (final_state m)"
    by (rule assms(1) [OF message_invariant_axioms assms(2)])
  moreover have "grows s (final_state m)"
    by (rule assms(1) [OF seqs_grow.message_invariant_axioms]) simp
  ultimately show ?thesis using rolled_back [OF assms(2)] by (cases m) auto
qed

lemma in_route:
  assumes "\<And>J. message_invariant J \<Longrightarrow> J s \<Longrightarrow> J (final_state m)" and "I s"
    and "\<And>x s'. I s' \<Longrightarrow> I (rollback_to s s') \<Longrightarrow> I (snd (reply x s'))"
  shows "I (snd (transaction status s m reply))"
proof -
  have final: "I (final_state m)"
    by (rule assms(1) [OF message_invariant_axioms assms(2)])
  have "I (rollback_to s (final_state m))"
    by (rule rolled_back [OF assms(2)], rule assms(1) [OF seqs_grow.message_invariant_axioms]) simp
  with final show ?thesis using assms(3) by (cases m) auto
qed

lemma create_task_route: "I s \<Longrightarrow> I (snd (create_task_route cfg ok u ip body s))"
  unfolding create_task_route_def
  by (auto split: option.split) (rule in_route, erule (1) message_invariant.created, simp_all add: audited)

lemma bulk_create_route: "I s \<Longrightarrow> I (snd (bulk_create_route cfg ok u ip body s))"
  unfolding bulk_create_route_def Let_def
  by auto (rule in_route, erule (1) message_invariant.bulk_created, simp_all add: audited case_prod_beta)

lemma bulk_ids_route:
  assumes "\<And>J tid s. message_invariant J \<Longrightarrow> J s \<Longrightarrow> J (final_state (operation tid s))"
  shows "I s \<Longrightarrow> I (snd (bulk_ids_route action counter (bulk_loop operation) u ip ids s))"
  unfolding bulk_ids_route_def
  by (rule in_route, rule message_invariant.bulk_looped, assumption, erule (1) assms, simp_all add: audited case_prod_beta)

lemma bulk_retry_route: "I s \<Longrightarrow> I (snd (bulk_retry_route cfg u ip ids s))"
  unfolding bulk_retry_route_def bulk_retry_def by (rule bulk_ids_route, erule (1) message_invariant.retried)

lemma bulk_cancel_route: "I s \<Longrightarrow> I (snd (bulk_cancel_route cfg u ip ids s))"
  unfolding bulk_cancel_route_def bulk_cancel_def by (rule bulk_ids_route, erule (1) message_invariant.cancelled)

lemma retry_task_route: "I s \<Longrightarrow> I (snd (retry_task_route cfg u ip tid s))"
  unfolding retry_task_route_def one_task_route_def
  by (rule in_route, erule (1) message_invariant.retried) (simp_all add: audited split: option.split)

lemma cancel_task_route: "I s \<Longrightarrow> I (snd (cancel_task_route cfg u ip tid s))"
  unfolding cancel_task_route_def one_task_route_def
  by (rule in_route, erule (1) message_invariant.cancelled) (simp_all add: audited split: option.split)

lemma create_batch_route: "I s \<Longrightarrow> I (snd (create_batch_route cfg u ip name body s))"
  unfolding create_batch_route_def Let_def
  by (rule in_route, erule (1) message_invariant.batch_created) (simp_all add: audited case_prod_beta)

lemma cancel_batch_route: "I s \<Longrightarrow> I (snd (cancel_batch_route cfg u ip bid s))"
  unfolding cancel_batch_route_def Let_def
  by (rule in_route, erule (1) message_invariant.each_cancelled) (simp_all add: audited case_prod_beta)

lemma create_webhook: "I s \<Longrightarrow> I (snd (create_webhook u ip name url secret evs s))"
  by (auto simp: create_webhook_def Let_def intro!: audited elim: same)

lemma update_webhook: "I s \<Longrightarrow> I (snd (update_webhook u ip wid changes s))"
  by (auto simp: update_webhook_def Let_def intro!: audited elim: same split: option.split)

lemma test_webhook: "I s \<Longrightarrow> I (snd (test_webhook send u ip wid s))"
  by (auto simp: test_webhook_def now_utc_def intro!: audited ticked split: option.split prod.split)

lemmas committed_routes =
  create_task_route bulk_create_route bulk_retry_route bulk_cancel_route retry_task_route cancel_task_route
  create_batch_route cancel_batch_route create_webhook update_webhook test_webhook renewed heartbeat_taken

lemma committed_passes:
  "I s \<Longrightarrow> I (commit s (requeue_due_tasks cfg limit s))"
  "I s \<Longrightarrow> I (commit s (requeue_dlq_tasks cfg limit s))"
  "I s \<Longrightarrow> I (commit s (recover_stuck_tasks cfg limit s))"
  "I s \<Longrightarrow> I (commit s (requeue_orphaned_queued_tasks cfg limit s))"
  "I s \<Longrightarrow> I (commit s (finish cfg obj aid outcome s))"
  subgoal by (rule committing, erule (1) message_invariant.due_requeued)
  subgoal by (rule committing, erule (1) message_invariant.dlq_requeued)
  subgoal by (rule committing, erule (1) message_invariant.recovered)
  subgoal by (rule committing, erule (1) message_invariant.orphans_republished)
  subgoal by (rule committing, erule (1) message_invariant.finished)
  done

lemma claim_rolled_back: "I s \<Longrightarrow> I (rollback_to s (final_state (claim cfg w tid s)))"
  by (erule rolled_back, rule seqs_grow.claimed) simp

end

lemma streams_outbox_update:
  assumes "streams_ok cfg s" and "\<And>oe. o_id (f oe) = o_id oe"
    and "\<And>oe. outbox_ok s oe \<Longrightarrow> outbox_ok s (f oe)" and "outbox s' = update_row o_id k f (outbox s)"
    and "deliveries s' = deliveries s" "seq_outbox s' = seq_outbox s" "seq_delivery s' = seq_delivery s"
  shows "streams_ok cfg s'"
  using assms(1,3) unfolding streams_ok_def assms(4-7)
  by (auto simp: table_simps assms(2) outbox_ok_def assms(6) elim!: in_update_rowE)

lemma streams_publish_one:
  assumes "streams_ok cfg (snd acc)"
  shows "streams_ok cfg (snd (publish_one send oe acc))"
proof (cases "send oe")
  case None
  let ?f = "\<lambda>e. e\<lparr>o_status := OUTBOX_SENT, o_processed_at := Some (clock (snd acc) (ticks (snd acc))), o_last_error := None, o_attempts := o_attempts e + 1\<rparr>"
  show ?thesis
    by (rule streams_outbox_update [OF assms, where f = ?f and k = "o_id oe"])
      (simp_all add: None publish_one_def now_utc_def case_prod_beta outbox_ok_def)
next
  case (Some err)
  let ?f = "\<lambda>e. e\<lparr>o_attempts := o_attempts e + 1, o_last_error := Some (take 1000 err)\<rparr>"
  show ?thesis
    by (rule streams_outbox_update [OF assms, where f = ?f and k = "o_id oe"])
      (simp_all add: Some publish_one_def case_prod_beta outbox_ok_def)
qed

lemma streams_subset:
  assumes "streams_ok cfg s" "outbox s' = filter P (outbox s)" "deliveries s' = filter Q (deliveries s)"
    and "seq_outbox s' = seq_outbox s" "seq_delivery s' = seq_delivery s"
  shows "streams_ok cfg s'"
  using assms(1) unfolding streams_ok_def assms(2-5) by (auto simp: distinct_map_filter outbox_ok_def assms(4))

lemma streams_purge: "streams_ok cfg s \<Longrightarrow> streams_ok cfg (snd (purge_old_data cfg limit_arg s))"
proof -
  have tasks: "streams_ok cfg s \<Longrightarrow> streams_ok cfg (snd (purge_tasks P limit s))" for P limit s
    by (erule streams.same) (simp_all add: purge_tasks_def delete_tasks_def Let_def)
  have outbox: "streams_ok cfg s \<Longrightarrow> streams_ok cfg (snd (delete_old_outbox c limit s))" for c limit s
    by (erule streams_subset [where Q = "\<lambda>_. True"]) (simp_all add: delete_old_outbox_def Let_def)
  have audit: "streams_ok cfg s \<Longrightarrow> streams_ok cfg (snd (delete_old_audit c limit s))" for c limit s
    by (erule streams.same) (simp_all add: delete_old_audit_def Let_def)
  show "streams_ok cfg s \<Longrightarrow> ?thesis"
    by (simp add: purge_old_data_def now_utc_def Let_def case_prod_beta tasks outbox audit streams.ticked)
qed

lemma streams_dispatch: "streams_ok cfg s \<Longrightarrow> streams_ok cfg (snd (dispatch_due cfg send limit s))"
proof -
  assume ok: "streams_ok cfg s"
  let ?now = "clock s (ticks s)" and ?ds = "due_deliveries limit s"
  let ?g = "\<lambda>d. if d \<in> set ?ds
    then attempt_delivery cfg send ?now (find_row s_id (w_subscription_id d) (subscriptions s)) d else d"
  have dist: "distinct (map w_id (deliveries s))" using ok by (simp add: streams_ok_def)
  have id: "w_id (?g d) = w_id d" for d by simp
  have "set ?ds \<subseteq> set (filter (delivery_due ?now) (deliveries s))"
    unfolding due_deliveries_def by (rule set_order_limit)
  then have due: "w_status d = DELIVERY_PENDING" if "d \<in> set ?ds" for d
    using that by (auto simp: delivery_due_def)
  have keep: "delivery_ok cfg (?g d)" if "delivery_ok cfg d" for d
    using that due [of d] by (simp add: delivery_ok_attempt)
  have new: "deliveries (snd (dispatch_due cfg send limit s)) = map ?g (deliveries s)"
    "outbox (snd (dispatch_due cfg send limit s)) = outbox s"
    "seq_outbox (snd (dispatch_due cfg send limit s)) = seq_outbox s"
    "seq_delivery (snd (dispatch_due cfg send limit s)) = seq_delivery s"
    unfolding dispatch_due_effect [OF dist] by (simp_all del: map_map)
  have "map w_id (map ?g (deliveries s)) = map w_id (deliveries s)" by simp
  moreover have "w_id (?g d) < seq_delivery s" if "d \<in> set (deliveries s)" for d
    using ok that unfolding id streams_ok_def by simp
  moreover have "delivery_ok cfg (?g d)" if "0 < webhook_max_attempts cfg" "d \<in> set (deliveries s)" for d
    using ok that by (intro keep) (simp add: streams_ok_def)
  ultimately show ?thesis
    using ok unfolding streams_ok_def new outbox_ok_def by (simp only: set_map ball_simps) simp
qed

lemma streams_delete_webhook: "streams_ok cfg s \<Longrightarrow> streams_ok cfg (snd (delete_webhook u ip wid s))"
proof -
  have "streams_ok cfg (audit u a r i d ip s) \<Longrightarrow> streams_ok cfg ((audit u a r i d ip s)
      \<lparr>subscriptions := subs, deliveries := filter Q (deliveries (audit u a r i d ip s))\<rparr>)" for a r i d subs Q
    by (erule streams_subset [where P = "\<lambda>_. True"]) simp_all
  then show "streams_ok cfg s \<Longrightarrow> ?thesis"
    by (simp add: delete_webhook_def Let_def streams.audited split: option.split)
qed

lemma streams_relay:
  assumes "streams_ok cfg s" "publish_pending_events online send limit s = Some (n, sent, s')"
  shows "streams_ok cfg s'"
proof -
  have "streams_ok cfg (snd acc) \<Longrightarrow> streams_ok cfg (snd (fold (publish_one send) evs acc))" for evs acc
    by (induction evs arbitrary: acc) (simp_all add: streams_publish_one)
  from this [of "([], s)"] show ?thesis
    using assms by (auto simp: publish_pending_events_def Let_def split: if_splits) (metis snd_conv)
qed

lemma streams_committed: "committed cfg s s' \<Longrightarrow> streams_ok cfg s \<Longrightarrow> streams_ok cfg s'"
proof (induction rule: committed.induct)
  case (relay online broker limit s n sent s')
  then show ?case by (auto intro: streams_relay)
next
  case (account api s s')
  then show ?case by (simp add: streams_ok_def outbox_ok_def work_tables [OF work_committed])
next
  case (time_passes s t c)
  then show ?case by (elim streams.same) simp_all
qed (simp_all only: streams.committed_routes streams.committed_passes streams_delete_webhook streams_purge streams_dispatch)

interpretation streams_platform: platform_invariant cfg "streams_ok cfg" "\<lambda>_. True" for cfg
  by unfold_locales
    (auto simp: streams_committed streams.claimed streams.claim_rolled_back streams.committed_passes,
      simp add: streams_ok_def empty_db_def)

section \<open>No message is lost before it is sent\<close>

definition never_lost :: "outbox_event \<Rightarrow> db \<Rightarrow> bool" where
  "never_lost oe s \<longleftrightarrow> (\<exists>oe'\<in>set (outbox s). key_of oe' = key_of oe)"

interpretation permanence: message_invariant "never_lost oe" for oe
  by unfold_locales (auto simp: never_lost_def add_outbox_def db_simps)

lemma relay_keeps:
  assumes "publish_pending_events online send limit s = Some (n, sent, s')"
  shows "map key_of (outbox s') = map key_of (outbox s)"
  using assms fold_publish_one [of send "pending_events limit s" "[]" s]
  by (auto simp: publish_pending_events_def Let_def split: if_splits)

lemma delete_old_outbox_keeps:
  assumes "streams_ok cfg s" "oe \<in> set (outbox s)" "o_status oe = OUTBOX_PENDING"
  shows "oe \<in> set (outbox (snd (delete_old_outbox cutoff limit s)))"
proof -
  have dist: "inj_on o_id (set (outbox s))" and none: "o_processed_at oe = None"
    using assms by (auto simp: streams_ok_def outbox_ok_def distinct_map)
  let ?rows = "order_limit o_id limit (filter (\<lambda>oe. optional_until cutoff (o_processed_at oe)) (outbox s))"
  have rows: "set ?rows \<subseteq> set (filter (\<lambda>oe. optional_until cutoff (o_processed_at oe)) (outbox s))"
    by (rule set_order_limit)
  have "o_id oe \<notin> o_id ` set ?rows"
  proof
    assume "o_id oe \<in> o_id ` set ?rows"
    then obtain r where r: "r \<in> set ?rows" "o_id r = o_id oe" by auto
    then have "r = oe" using rows assms(2) dist by (auto dest: inj_onD)
    then show False using r(1) rows none by (auto simp: optional_until_def)
  qed
  then show ?thesis using assms(2) by (simp add: delete_old_outbox_def Let_def)
qed

lemma purge_keeps_pending:
  assumes "streams_ok cfg' s" "oe \<in> set (outbox s)" "o_status oe = OUTBOX_PENDING"
  shows "oe \<in> set (outbox (snd (purge_old_data cfg limit_arg s)))"
proof -
  have tasks: "streams_ok cfg' s1 \<Longrightarrow> streams_ok cfg' (snd (purge_tasks P limit s1))"
    "outbox (snd (purge_tasks P limit s1)) = outbox s1" for P limit s1
    by (erule streams.same) (simp_all add: purge_tasks_def delete_tasks_def Let_def)
  have audit: "outbox (snd (delete_old_audit c limit s1)) = outbox s1" for c limit s1
    by (simp add: delete_old_audit_def Let_def)
  have kept: "oe \<in> set (outbox (snd (delete_old_outbox c limit s1)))" if "streams_ok cfg' s1" "outbox s1 = outbox s"
    for c limit s1
    using delete_old_outbox_keeps [OF that(1)] that(2) assms(2,3) by simp
  show ?thesis
    by (simp add: purge_old_data_def now_utc_def Let_def case_prod_beta audit)
      (auto simp: tasks assms(2) intro!: kept tasks streams.ticked assms(1))
qed

lemma same_keys: "map key_of (outbox s') = map key_of (outbox s) \<Longrightarrow> oe \<in> set (outbox s) \<Longrightarrow> never_lost oe s'"
  unfolding never_lost_def by (metis image_iff list.set_map)

lemma committed_never_lost:
  assumes "committed cfg s s'" "streams_ok cfg s" "oe \<in> set (outbox s)" "o_status oe = OUTBOX_PENDING"
  shows "never_lost oe s'"
proof -
  from assms(3) have "never_lost oe s" by (auto simp: never_lost_def)
  from assms(1,2,3,4) this show ?thesis
  proof (induction rule: committed.induct)
    case (relay online broker limit s n sent s')
    then show ?case by (intro same_keys [of _ s] relay_keeps)
  next
    case (purge s limit_arg)
    then show ?case using purge_keeps_pending unfolding never_lost_def by blast
  next
    case (account api s s')
    then show ?case by (simp add: never_lost_def work_tables [OF work_committed])
  next
    case (time_passes s t c)
    then show ?case by (simp add: never_lost_def)
  next
    case (delete_webhook s u ip wid)
    then show ?case by (auto simp: never_lost_def delete_webhook_def Let_def db_simps split: option.split)
  next
    case (dispatch s send limit)
    then show ?case
      by (simp add: never_lost_def dispatch_due_def now_utc_def Let_def fold_dispatch_one)
  qed (simp_all only: permanence.committed_routes permanence.committed_passes)
qed

lemma step_never_lost:
  assumes "step cfg p p'" "streams_ok cfg (fst p)" "oe \<in> set (outbox (fst p))" "o_status oe = OUTBOX_PENDING"
  shows "never_lost oe (fst p')"
proof -
  from assms(3) have "never_lost oe (fst p)" by (auto simp: never_lost_def)
  from assms this show ?thesis
  proof (induction rule: step.induct)
    case (transaction s s' running)
    then show ?case using committed_never_lost by simp
  next
    case (claimed w tid s obj aid s' running)
    then show ?case using permanence.claimed [of oe s cfg w tid] by simp
  qed (simp_all add: permanence.claim_rolled_back permanence.committed_passes)
qed

end
