(* ===== verification/Task_Relations.thy ===== *)
theory Task_Relations
  imports Worker_Correct System
begin

text \<open>
  Relations between the state before and after a transaction that speak of tasks and the outbox.
  One that contains what the operations on a single task do contains what their loops and the
  routes around them do.
\<close>

locale task_relation =
  fixes cfg :: settings and R :: "db \<Rightarrow> db \<Rightarrow> bool"
  assumes trans: "R s s1 \<Longrightarrow> R s1 s2 \<Longrightarrow> R s s2"
    and frame: "tasks s' = tasks s \<Longrightarrow> outbox s' = outbox s \<Longrightarrow> R s s'"
    and republished: "R s (republish cfg t s)"
    and creates: "integrity s \<Longrightarrow> create_task cfg spec s = Ok t s' \<Longrightarrow> R s s'"
    and retries: "integrity s \<Longrightarrow> R s (final_state (manual_retry cfg tid s))"
    and cancels: "integrity s \<Longrightarrow> R s (final_state (cancel_task cfg tid s))"
begin

lemma same [simp]: "R s s"
  by (rule frame) simp_all

lemma rolled_back [simp]: "R s (rollback_to s s')"
  by (rule frame) (simp_all add: rollback_to_def)

lemma before: "R s1 s' \<Longrightarrow> tasks s1 = tasks s \<Longrightarrow> outbox s1 = outbox s \<Longrightarrow> R s s'"
  by (rule trans [OF frame])

lemma audited [simp]: "R s s' \<Longrightarrow> R s (audit u a r i d ip s')"
  by (erule trans) (rule frame, simp_all add: db_simps)

lemma bulk:
  assumes "integrity s" "\<And>tid s. integrity s \<Longrightarrow> R s (final_state (operation tid s))"
    and "\<And>tid s. integrity s \<Longrightarrow> integrity (final_state (operation tid s))"
  shows "R s (final_state (bulk_loop operation ids s))"
proof -
  let ?I = "\<lambda>s'. integrity s' \<and> R s s'"
  have "?I (final_state (bulk_loop operation ids s))"
  proof (rule bulk_loop_invariant)
    show "?I (final_state (operation tid s'))" if "?I s'" for tid s'
      using that assms(2,3) trans [of s s'] by simp
  qed (simp add: assms(1))
  then show ?thesis ..
qed

lemma cancelled_each: "integrity s \<Longrightarrow> R s (final_state (cancel_each cfg ids s))"
proof -
  assume I: "integrity s"
  let ?I = "\<lambda>s'. integrity s' \<and> R s s'"
  have "?I (final_state (cancel_each cfg ids s))"
  proof (rule cancel_each_invariant [where I = ?I])
    show "?I (final_state (cancel_task cfg tid s'))" if "?I s'" for tid s'
      using that integrity_cancel_task cancels trans [of s s'] by simp
  qed (simp add: I)
  then show ?thesis ..
qed

lemma bulk_created:
  "integrity s \<Longrightarrow> bulk_create cfg specs s = Ok x s' \<Longrightarrow> R s s'"
proof (induction specs arbitrary: s x)
  case (Cons spec specs)
  show ?case
  proof (cases "create_task cfg spec s")
    case (Ok t s1)
    have I: "integrity s1" using integrity_create_task [OF Cons.prems(1), of cfg spec] Ok by simp
    have "R s1 s'" using Cons.IH [OF I] Cons.prems(2) Ok by (auto simp: bind_o_Ok_iff)
    then show ?thesis by (rule trans [OF creates [OF Cons.prems(1) Ok]])
  next
    case (Raise e s1)
    have I: "integrity (rollback_to s s1)"
      using integrity_rollback [OF Cons.prems(1) later_create_task [of s cfg spec]] Raise by simp
    have "R (rollback_to s s1) s'"
      using Cons.IH [OF I] Cons.prems(2) Raise by (cases e) (auto simp: bind_o_Ok_iff)
    then show ?thesis by (rule trans [OF rolled_back])
  qed
qed simp

lemma all_created:
  "integrity s \<Longrightarrow> create_all cfg specs s = Ok made s' \<Longrightarrow> R s s'"
proof (induction specs arbitrary: s made)
  case (Cons spec specs)
  obtain t s1 rest where 1: "create_task cfg spec s = Ok t s1" and 2: "create_all cfg specs s1 = Ok rest s'"
    using Cons.prems(2) by (auto simp: bind_o_Ok_iff)
  have I: "integrity s1" using integrity_create_task [OF Cons.prems(1), of cfg spec] 1 by simp
  show ?case by (rule trans [OF creates [OF Cons.prems(1) 1] Cons.IH [OF I 2]])
qed simp

lemma batch_created:
  assumes "integrity s" "create_batch cfg name specs u s = Ok x s'"
  shows "R s s'"
proof -
  let ?s = "s\<lparr>batches := batches s @ [\<lparr>b_id = seq_batch s, b_name = name, b_created_by = u\<rparr>], seq_batch := seq_batch s + 1\<rparr>"
  obtain made where made: "create_all cfg (map (batch_spec (seq_batch s) u) specs) ?s = Ok made s'"
    using assms(2) by (auto simp: create_batch_def Let_def bind_o_Ok_iff split: if_splits)
  have "integrity ?s" by (rule integrity_frame [OF assms(1)]) simp_all
  from all_created [OF this made] show ?thesis by (rule before) simp_all
qed

lemma committing: "R s (final_state m) \<Longrightarrow> R s (commit s m)"
  by (cases m) simp_all

lemma in_route:
  "(\<And>x s'. m = Ok x s' \<Longrightarrow> R s (snd (reply x s'))) \<Longrightarrow> R s (snd (transaction status s m reply))"
  by (cases m) simp_all

lemma one_task:
  "R s (final_state (operation tid s)) \<Longrightarrow> R s (snd (one_task_route action operation u ip tid s))"
  unfolding one_task_route_def by (rule in_route) (simp split: option.split)

lemma bulk_ids:
  "R s (final_state (operation ids s)) \<Longrightarrow> R s (snd (bulk_ids_route action counter operation u ip ids s))"
  unfolding bulk_ids_route_def by (rule in_route) (auto split: prod.split)

lemma routes:
  assumes "integrity s"
  shows "R s (snd (create_task_route cfg allowed u ip body s))"
    and "R s (snd (bulk_create_route cfg allowed u ip bodies s))"
    and "R s (snd (bulk_retry_route cfg u ip ids s))" "R s (snd (bulk_cancel_route cfg u ip ids s))"
    and "R s (snd (retry_task_route cfg u ip tid s))" "R s (snd (cancel_task_route cfg u ip tid s))"
    and "R s (snd (create_batch_route cfg u ip name bodies s))"
    and "R s (snd (cancel_batch_route cfg u ip bid s))"
proof -
  note here = assms
  show "R s (snd (create_task_route cfg allowed u ip body s))"
    by (auto simp: create_task_route_def intro!: in_route dest: creates [OF here] split: option.split)
  show "R s (snd (bulk_create_route cfg allowed u ip bodies s))"
    by (auto simp: bulk_create_route_def Let_def intro!: in_route dest: bulk_created [OF here] split: prod.split)
  show "R s (snd (bulk_retry_route cfg u ip ids s))"
    unfolding bulk_retry_route_def bulk_retry_def by (intro bulk_ids bulk here retries integrity_manual_retry)
  show "R s (snd (bulk_cancel_route cfg u ip ids s))"
    unfolding bulk_cancel_route_def bulk_cancel_def by (intro bulk_ids bulk here cancels integrity_cancel_task)
  show "R s (snd (retry_task_route cfg u ip tid s))"
    unfolding retry_task_route_def by (intro one_task retries here)
  show "R s (snd (cancel_task_route cfg u ip tid s))"
    unfolding cancel_task_route_def by (intro one_task cancels here)
  show "R s (snd (create_batch_route cfg u ip name bodies s))"
    unfolding create_batch_route_def
    by (rule in_route) (auto simp: Let_def dest!: batch_created [OF here] split: prod.split)
  have "R s (final_state (cancel_batch cfg bid s))"
    by (simp add: cancel_batch_def cancelled_each here split: option.split)
  then show "R s (snd (cancel_batch_route cfg u ip bid s))"
    unfolding cancel_batch_route_def by (intro in_route) (auto simp: Let_def split: prod.split)
qed

lemma orphans: "R s (commit s (requeue_orphaned_queued_tasks cfg limit s))"
proof -
  have "R s1 (foldl (\<lambda>s t. republish cfg t s) s1 ts)" for s1 ts
  proof (induction ts arbitrary: s1)
    case (Cons t ts)
    show ?case using trans [OF republished Cons.IH] by simp
  qed simp
  then have "R s (foldl (\<lambda>s t. republish cfg t s) (s\<lparr>ticks := Suc (ticks s)\<rparr>) ts)" for ts
    by (rule before) simp_all
  then show ?thesis by (simp add: requeue_orphaned_queued_tasks_def now_utc_def Let_def)
qed

end

text \<open>The transactions that leave the tasks alone.\<close>

lemma webhooks_leave_tasks:
  "tasks (snd (create_webhook u ip name url secret evs s)) = tasks s"
  "tasks (snd (update_webhook u ip wid changes s)) = tasks s"
  "tasks (snd (delete_webhook u ip wid s)) = tasks s"
  "tasks (snd (test_webhook send u ip wid s)) = tasks s"
  "tasks (snd (dispatch_due cfg send limit s)) = tasks s"
  by (simp_all add: create_webhook_def update_webhook_def delete_webhook_def test_webhook_def dispatch_due_def
      fold_dispatch_one now_utc_def Let_def db_simps split: option.split prod.split)

lemma heartbeat_leaves_tasks: "tasks (snd (heartbeat_tick wid hostname pid s)) = tasks s"
  by (auto simp: heartbeat_tick_def heartbeat_def register_worker_def update_worker_def now_utc_def Let_def split: option.split)

lemma relay_leaves_tasks:
  assumes "publish_pending_events online send limit s = Some (n, sent, s')"
  shows "tasks s' = tasks s"
proof -
  have "tasks (snd (fold (publish_one send) evs acc)) = tasks (snd acc)" for evs acc
    by (induction evs arbitrary: acc) (simp_all add: publish_one_def now_utc_def case_prod_beta Let_def split: option.split)
  from this [of _ "([], s)"] show ?thesis
    using assms by (auto simp: publish_pending_events_def Let_def split: if_splits) (metis snd_conv)
qed

lemma renewal_keeps_status: "status_of j (snd (renew_lease tid w n s)) = status_of j s"
  by (cases "get_task_row j s")
    (auto simp: renew_lease_def now_utc_def Let_def status_of_def get_task_row_def table_simps split: option.splits if_splits)

lemma purged_status:
  assumes "integrity s"
  shows "status_of j (snd (purge_old_data cfg limit_arg s)) = status_of j s \<or>
    status_of j (snd (purge_old_data cfg limit_arg s)) = None \<and> (\<exists>st\<in>set TERMINAL. status_of j s = Some st)"
proof -
  let ?s = "snd (purge_old_data cfg limit_arg s)"
  have dist: "distinct (map t_id (tasks s))" "distinct (map t_id (tasks ?s))"
    using integrity_distinct [OF assms] integrity_distinct [OF integrity_purge [OF assms]] by simp_all
  show ?thesis
  proof (cases "get_task_row j ?s")
    case (Some t)
    then have "t \<in> set (tasks s)" "t_id t = j" using get_task_row_SomeD purge_effect(1) [OF dist(1)] by blast+
    then have "get_task_row j s = Some t" using find_row_distinct [OF dist(1)] by (auto simp: get_task_row_def)
    then show ?thesis using Some by (simp add: status_of_def)
  next
    case None
    show ?thesis
    proof (cases "get_task_row j s")
      case (Some t)
      then have t: "t \<in> set (tasks s)" "t_id t = j" using get_task_row_SomeD by blast+
      have "t \<notin> set (tasks ?s)" using None t(2) find_row_distinct [OF dist(2)] by (auto simp: get_task_row_def)
      then have "old_enough cfg (clock s (ticks s)) t" by (rule purge_effect(2) [OF dist(1) t(1)])
      then have "t_finished_at t \<noteq> None" by (auto simp: old_enough_def optional_until_def split: option.splits)
      moreover have "task_ok t" using t(1) assms by (simp add: integrity_but_def)
      ultimately show ?thesis using None Some by (simp add: status_of_def task_ok_def)
    qed (simp add: None status_of_def)
  qed
qed

end
