(* ===== verification/Announcements.thy ===== *)
theory Announcements
  imports Task_Relations
begin

text \<open>
  The transactional outbox end to end. A transaction that puts a task into the queue leaves a
  pending message for it, in the same transaction; and a pending message is enough: a pass of
  the relay hands it to the broker, and a worker that takes it executes the task.
\<close>

section \<open>Announced changes\<close>

definition usable_message :: "settings \<Rightarrow> outbox_event \<Rightarrow> bool" where
  \<comment> \<open>the workers' queue is bound to its key, and they can read a task from it\<close>
  "usable_message cfg oe \<longleftrightarrow> o_routing_key oe = routing_key_task_created cfg \<and> (\<exists>tid. message_for tid oe)"

definition announces :: "settings \<Rightarrow> db \<Rightarrow> db \<Rightarrow> bool" where
  \<comment> \<open>usable messages are appended, and every task that was not queued before has one\<close>
  "announces cfg s s' \<longleftrightarrow>
     (\<exists>new. outbox s' = outbox s @ new \<and> (\<forall>oe\<in>set new. usable_message cfg oe) \<and>
        (\<forall>j. status_of j s' = Some Queued \<longrightarrow> status_of j s = Some Queued \<or>
           (\<exists>oe\<in>set new. o_status oe = OUTBOX_PENDING \<and> message_for j oe)))"

lemma announces_trans:
  assumes "announces cfg s s1" "announces cfg s1 s2"
  shows "announces cfg s s2"
proof -
  obtain new1 where 1: "outbox s1 = outbox s @ new1" "\<forall>oe\<in>set new1. usable_message cfg oe"
      "\<And>j. status_of j s1 = Some Queued \<Longrightarrow>
        status_of j s = Some Queued \<or> (\<exists>oe\<in>set new1. o_status oe = OUTBOX_PENDING \<and> message_for j oe)"
    using assms(1) by (auto simp: announces_def)
  obtain new2 where 2: "outbox s2 = outbox s1 @ new2" "\<forall>oe\<in>set new2. usable_message cfg oe"
      "\<And>j. status_of j s2 = Some Queued \<Longrightarrow>
        status_of j s1 = Some Queued \<or> (\<exists>oe\<in>set new2. o_status oe = OUTBOX_PENDING \<and> message_for j oe)"
    using assms(2) by (auto simp: announces_def)
  have "\<exists>oe\<in>set (new1 @ new2). o_status oe = OUTBOX_PENDING \<and> message_for j oe"
    if "status_of j s2 = Some Queued" "status_of j s \<noteq> Some Queued" for j
    using 1(3) [of j] 2(3) [of j] that by auto
  moreover have "outbox s2 = outbox s @ (new1 @ new2)" "\<forall>oe\<in>set (new1 @ new2). usable_message cfg oe"
    using 1(1,2) 2(1,2) by auto
  ultimately show ?thesis unfolding announces_def by blast
qed

lemma announces_quiet:
  assumes "outbox s' = outbox s" "\<And>j. status_of j s' = Some Queued \<Longrightarrow> status_of j s = Some Queued"
  shows "announces cfg s s'"
  using assms by (auto simp: announces_def)

lemma announces_frame: "tasks s' = tasks s \<Longrightarrow> outbox s' = outbox s \<Longrightarrow> announces cfg s s'"
  by (rule announces_quiet) (simp_all add: status_of_def get_task_row_def)

lemma announces_refl [simp]: "announces cfg s s"
  by (rule announces_frame) simp_all

text \<open>Messages for exactly the tasks that become queued.\<close>

lemma announces_publishes:
  assumes "publishes cfg s s' ms" "\<And>m. m \<in> set ms \<Longrightarrow> \<exists>tid. json_get m ''task_id'' = Some (JInt tid)"
    and "\<And>j. status_of j s' = Some Queued \<Longrightarrow> status_of j s \<noteq> Some Queued \<Longrightarrow>
      \<exists>m\<in>set ms. json_get m ''task_id'' = Some (JInt j)"
  shows "announces cfg s s'"
proof -
  obtain new where new: "outbox s' = outbox s @ new" "map o_payload new = ms"
    "\<forall>oe\<in>set new. o_status oe = OUTBOX_PENDING \<and> o_routing_key oe = routing_key_task_created cfg"
    using assms(1) by (auto simp: publishes_def)
  have "\<exists>oe\<in>set new. o_status oe = OUTBOX_PENDING \<and> message_for j oe"
    if "status_of j s' = Some Queued" "status_of j s \<noteq> Some Queued" for j
    using assms(3) [OF that] new(2,3) by (auto simp: message_for_def)
  moreover have "\<forall>oe\<in>set new. usable_message cfg oe"
    using assms(2) new(2,3) by (auto simp: usable_message_def message_for_def)
  ultimately show ?thesis unfolding announces_def using new(1) by blast
qed

lemma announces_puts_in_queue:
  "puts_in_queue cfg t m s s' \<Longrightarrow> json_get m ''task_id'' = Some (JInt (t_id t)) \<Longrightarrow> announces cfg s s'"
  by (rule announces_publishes [where ms = "[m]"]) (auto simp: puts_in_queue_def status_of_def split: if_splits)

lemma announces_takes_to_queue:
  "takes_to_queue cfg becomes ts s s' \<Longrightarrow> announces cfg s s'"
  by (rule announces_publishes [where ms = "map reattempt_message ts"])
    (auto simp: takes_to_queue_def status_of_def, metis image_iff)

section \<open>The operations announce what they queue\<close>

lemma create_task_announces:
  assumes "integrity s" "create_task cfg spec s = Ok t s'"
  shows "announces cfg s s'"
proof -
  have "creation_ok cfg spec s t s'" using create_task_outcome [OF assms(1), where cfg = cfg and spec = spec] assms(2) by simp
  then show ?thesis
    by (intro announces_publishes [of cfg s s' "if t_status t = Queued then [task_message t] else []"])
      (auto simp: creation_ok_def status_of_def split: if_splits)
qed

lemma manual_retry_announces:
  assumes "integrity s"
  shows "announces cfg s (final_state (manual_retry cfg tid s))"
proof (cases "\<exists>t. get_task s tid = Some t \<and> t_status t \<in> set RETRYABLE")
  case True
  then obtain t where t: "get_task s tid = Some t" "t_status t \<in> set RETRYABLE" by blast
  obtain s' where s': "manual_retry cfg tid s = Ok (Some (queued_row t (db_now s))) s'"
    "puts_in_queue cfg t (reattempt_message t) s s'"
    by (rule manual_retry_effect [OF t])
  have "announces cfg s s'" by (rule announces_puts_in_queue [OF s'(2)]) simp
  then show ?thesis using s'(1) by simp
qed (auto simp: manual_retry_def split: option.split)

lemma cancelled_not_queued:
  "cancel_spec s tid new j = Some Queued \<Longrightarrow> new \<noteq> Queued \<Longrightarrow> status_of j s = Some Queued"
  by (auto simp: cancel_spec_def split: if_splits)

lemma cancel_task_announces: "announces cfg s (final_state (cancel_task cfg tid s))"
proof (cases "\<exists>t. get_task s tid = Some t \<and> t_status t \<in> set CANCELABLE")
  case True
  then obtain t where t: "get_task s tid = Some t" "t_status t \<in> set CANCELABLE" by blast
  obtain t' s' where s': "cancel_task cfg tid s = Ok (Some t') s'"
    "\<And>j. status_of j s' = cancel_spec s tid Cancelled j" "outbox s' = outbox s"
    by (rule cancel_task_effect [OF t]) blast
  have "announces cfg s s'" by (rule announces_quiet) (use s' cancelled_not_queued in auto)
  then show ?thesis using s'(1) by simp
qed (auto simp: cancel_task_def split: option.split)

interpretation announcing: task_relation cfg "announces cfg" for cfg
proof unfold_locales
  show "announces cfg s (republish cfg t s)" for s t
    by (simp add: announces_def republish_def add_outbox_def usable_message_def message_for_def status_of_def get_task_row_def)
qed (simp_all add: announces_frame create_task_announces manual_retry_announces cancel_task_announces, rule announces_trans)

lemma record_success_announces:
  assumes "integrity s" "held obj"
  shows "announces cfg s (commit s (record_success cfg obj aid r s))"
proof (cases "still_running obj s \<and> aid \<in> a_id ` set (attempts s)")
  case True
  obtain obj' s' where s': "record_success cfg obj aid r s = Ok obj' s'"
    "\<And>j. status_of j s' = (if j = t_id obj then Some Success
        else if unblocked_by s (t_id obj) j then Some Queued else status_of j s)"
    "publishes cfg s s' (map (\<lambda>c. task_message (the (get_task_row c s)))
        (filter (unblocked_by s (t_id obj)) (children_of (t_id obj) s)))"
    by (rule record_success_effect [OF assms, of aid cfg r]) (use True in auto)
  have "\<exists>m\<in>set (map (\<lambda>c. task_message (the (get_task_row c s))) (filter (unblocked_by s (t_id obj)) (children_of (t_id obj) s))).
      json_get m ''task_id'' = Some (JInt j)"
    if new: "status_of j s' = Some Queued" "status_of j s \<noteq> Some Queued" for j
  proof -
    have j: "unblocked_by s (t_id obj) j" using s'(2) [of j] new by (simp split: if_splits)
    then obtain t where "get_task_row j s = Some t" "j \<in> set (children_of (t_id obj) s)"
      by (auto simp: unblocked_by_def status_of_def)
    with j show ?thesis using get_task_row_SomeD by (intro bexI [where x = "task_message t"]) (force simp: image_iff)+
  qed
  moreover have "\<exists>tid. json_get m ''task_id'' = Some (JInt tid)"
    if "m \<in> set (map (\<lambda>c. task_message (the (get_task_row c s))) (filter (unblocked_by s (t_id obj)) (children_of (t_id obj) s)))" for m
    using that by auto
  ultimately have "announces cfg s s'" by (intro announces_publishes [OF s'(3)])
  then show ?thesis using s'(1) by simp
next
  case False
  let ?s = "s\<lparr>ticks := Suc (ticks s)\<rparr>"
  let ?f = "\<lambda>a. a\<lparr>a_status := ASuccess, a_result := Some r, a_finished_at := Some (clock s (ticks s))\<rparr>"
  have "announces cfg s (set_attempt aid ?f ?s)" "announces cfg s ?s"
    by (rule announces_frame, simp_all add: set_attempt_def)+
  then show ?thesis
    using False
    by (cases rule: close_attempt_cases [of aid ?f ?s]) (simp_all add: record_success_def now_utc_def)
qed

lemma record_failure_announces:
  assumes "integrity s" "held obj"
  shows "announces cfg s (commit s (record_failure cfg obj aid e retryable s))"
proof (cases "still_running obj s \<and> aid \<in> a_id ` set (attempts s)")
  case True
  obtain obj' s' t where s': "record_failure cfg obj aid e retryable s = Ok obj' s'"
    "get_task_row (t_id obj) s' = Some t" "failed_row cfg obj e retryable s t"
    "\<And>j. j \<noteq> t_id obj \<Longrightarrow> status_of j s' =
      (if failure_status obj retryable \<noteq> RetryScheduled \<and> blocked_below s (t_id obj) j
       then Some Cancelled else status_of j s)" "outbox s' = outbox s"
    by (rule record_failure_effect [OF assms, of aid cfg e retryable]) (use True in auto)
  have "status_of (t_id obj) s' \<noteq> Some Queued"
    using s'(2,3) by (auto simp: status_of_def failed_row_def failure_status_def)
  then have "status_of j s = Some Queued" if "status_of j s' = Some Queued" for j
    using s'(4) [of j] that by (cases "j = t_id obj") (auto split: if_splits)
  then have "announces cfg s s'" by (rule announces_quiet [OF s'(5)])
  then show ?thesis using s'(1) by simp
next
  case False
  let ?s = "s\<lparr>ticks := Suc (ticks s)\<rparr>" and ?e = "take 2000 e"
  let ?f = "\<lambda>a. a\<lparr>a_status := AFailed, a_error_message := Some ?e, a_finished_at := Some (clock s (ticks s))\<rparr>"
  let ?o = "\<lambda>s1. assign (\<lambda>t. t\<lparr>t_last_error := Some ?e\<rparr>) (obj, s1)"
  have quiet: "announces cfg s (set_attempt aid ?f ?s)" "announces cfg s ?s" 
    by (rule announces_frame, simp_all add: set_attempt_def)+
  show ?thesis
    by (cases rule: close_attempt_cases [of aid ?f ?s])
      (use False quiet in \<open>simp_all add: record_failure_def now_utc_def Let_def case_prod_beta\<close>)
qed

lemma finish_announces:
  "integrity s \<Longrightarrow> held obj \<Longrightarrow> announces cfg s (commit s (finish cfg obj aid outcome s))"
  by (cases outcome) (simp_all add: finish_def record_success_announces record_failure_announces)

lemma passes_announce:
  assumes "integrity s"
  shows "announces cfg s (commit s (requeue_due_tasks cfg limit s))" "announces cfg s (commit s (requeue_dlq_tasks cfg limit s))"
    and "announces cfg s (commit s (recover_stuck_tasks cfg limit s))"
proof -
  show "announces cfg s (commit s (requeue_due_tasks cfg limit s))"
    by (rule requeue_due_tasks_effect [OF assms, of cfg limit]) (simp add: announces_takes_to_queue)
  show "announces cfg s (commit s (requeue_dlq_tasks cfg limit s))"
  proof (cases "dlq_retry_enabled cfg")
    case True
    show ?thesis by (rule requeue_dlq_tasks_effect [OF assms True, of limit]) (simp add: announces_takes_to_queue)
  qed (simp add: requeue_dlq_tasks_def)
  show "announces cfg s (commit s (recover_stuck_tasks cfg limit s))"
    by (rule recover_stuck_tasks_effect [OF assms, of cfg limit]) (simp add: announces_takes_to_queue)
qed

section \<open>Every step of the platform\<close>

text \<open>
  The relay and the purge rewrite and delete messages, so a step is described by what it leaves:
  a task that was not queued before has a pending message, which the step itself wrote.
\<close>

definition queues_with_message :: "db \<Rightarrow> db \<Rightarrow> bool" where
  "queues_with_message s s' \<longleftrightarrow>
     (\<forall>j. status_of j s' = Some Queued \<longrightarrow> status_of j s = Some Queued \<or>
        (\<exists>oe\<in>set (outbox s'). o_status oe = OUTBOX_PENDING \<and> message_for j oe \<and> o_id oe \<notin> o_id ` set (outbox s)))"

lemma announced: "announces cfg s s' \<Longrightarrow> distinct (map o_id (outbox s')) \<Longrightarrow> queues_with_message s s'"
  unfolding announces_def queues_with_message_def by fastforce

lemma unqueued: "(\<And>j. status_of j s' = Some Queued \<Longrightarrow> status_of j s = Some Queued) \<Longrightarrow> queues_with_message s s'"
  by (auto simp: queues_with_message_def)

lemma same_tasks: "tasks s' = tasks s \<Longrightarrow> queues_with_message s s'"
  by (rule unqueued) (simp add: status_of_def get_task_row_def)

lemma committed_queues:
  assumes "committed cfg s s'" "integrity s" "streams_ok cfg s"
  shows "queues_with_message s s'"
proof -
  have ids: "distinct (map o_id (outbox s'))" using streams_committed [OF assms(1,3)] by (simp add: streams_ok_def)
  from assms(1,2) ids show ?thesis
  proof (induction rule: committed.induct)
    case (purge s limit_arg)
    have "status_of j s = Some Queued" if "status_of j (snd (purge_old_data cfg limit_arg s)) = Some Queued" for j
      using purged_status [of s j cfg limit_arg] purge that by simp
    then show ?case by (rule unqueued)
  next
    case (relay online broker limit s n sent s')
    then show ?case by (intro same_tasks relay_leaves_tasks)
  next
    case (account api s s')
    then show ?case by (intro same_tasks) (simp add: work_tables [OF work_committed])
  next
    case (time_passes s t c)
    show ?case by (rule same_tasks) simp
  next
    case (renew s tid w lease_secs)
    show ?case by (rule unqueued) (simp add: renewal_keeps_status)
  qed (simp_all add: announced [of cfg] announcing.routes announcing.orphans passes_announce same_tasks webhooks_leave_tasks
      heartbeat_leaves_tasks)
qed

lemma step_queues:
  assumes "step cfg p p'" "integrity (fst p)" "streams_ok cfg (fst p)" "\<forall>(obj, aid)\<in>set (snd p). held obj"
  shows "queues_with_message (fst p) (fst p')"
  using assms
proof (induction rule: step.induct)
  case (transaction s s' running)
  then show ?case by (simp add: committed_queues)
next
  case (claimed w tid s obj aid s' running)
  then have I: "integrity s" by simp
  from I show ?case
  proof (cases rule: claim_cases [where cfg = cfg and w = w and tid = tid])
    case refused
    then show ?thesis using claimed(1) by simp
  next
    case (claimed t now now' s1)
    then have "status_of j s' = Some Queued \<Longrightarrow> status_of j s = Some Queued" for j
      using \<open>claim cfg w tid s = Ok (Claimed obj aid) s'\<close> by (simp add: status_of_def split: if_splits)
    then show ?thesis by (intro unqueued) simp
  qed
next
  case (not_claimed w tid s r running)
  show ?case by (rule same_tasks) (simp add: rollback_to_def)
next
  case (finished obj aid running s outcome)
  have "distinct (map o_id (outbox (commit s (finish cfg obj aid outcome s))))"
    using streams.committed_passes(5) [of cfg s] finished(3) by (simp add: streams_ok_def)
  moreover have "announces cfg s (commit s (finish cfg obj aid outcome s))"
    using finished by (intro finish_announces) auto
  ultimately show ?case by (simp add: announced [of cfg])
next
  case (lost s running keep)
  show ?case by (rule same_tasks) simp
qed

section \<open>A pending message is executed\<close>

lemma decode_message: "message_for tid oe \<Longrightarrow> decode_payload (Some (o_payload oe)) = Some (o_payload oe)"
  by (cases "o_payload oe") (simp_all add: message_for_def decode_payload_def)

lemma message_task: "message_for tid oe \<Longrightarrow> message_task_id parse_int (o_payload oe) = Some tid"
  by (simp add: message_for_def message_task_id_def)

lemma pending_selected:
  assumes "oe \<in> set (outbox s)" "o_status oe = OUTBOX_PENDING"
    and "length (filter (\<lambda>oe. o_status oe = OUTBOX_PENDING) (outbox s)) \<le> limit"
  shows "oe \<in> set (pending_events limit s)"
  using assms by (simp add: pending_events_def order_limit_def)

lemma pending_executed:
  assumes "integrity s" "get_task_row tid s = Some t" "t_status t = Queued"
    and "oe \<in> set (outbox s)" "o_status oe = OUTBOX_PENDING" "message_for tid oe"
    and "length (filter (\<lambda>oe. o_status oe = OUTBOX_PENDING) (outbox s)) \<le> limit"
    and "leaves_task others tid"
  obtains n sent s1 s2 where "publish_pending_events True (\<lambda>_. None) limit s = Some (n, sent, s1)"
    and "message_of oe \<in> set sent" "integrity s2"
    and "handle_message py parse_int handlers others cfg w (Some (m_body (message_of oe))) s1 = (Ack, s2)"
    and "status_of tid s2 = Some (exec_status t (dispatch py handlers cfg (t_task_type t) (t_payload t)))"
proof -
  obtain s1 where s1: "publish_pending_events True (\<lambda>_. None) limit s =
      Some (length (pending_events limit s), relayed (\<lambda>_. None) (pending_events limit s), s1)"
    by (rule relay_effect)
  have sent: "message_of oe \<in> set (relayed (\<lambda>_. None) (pending_events limit s))"
    using pending_selected [OF assms(4,5,7)] by (simp add: relayed_def)
  have I: "integrity s1" by (rule integrity_relay [OF assms(1) s1])
  have row: "get_task_row tid s1 = Some t" using assms(2) relay_leaves_tasks [OF s1] by (simp add: get_task_row_def)
  have "task_ok t" using get_task_row_SomeD [OF assms(2)] assms(1) by (simp add: integrity_but_def)
  then have free: "lease_free (clock s1 (ticks s1)) t" using assms(3) by (simp add: task_ok_def lease_free_def)
  obtain s2 where s2: "handle_message py parse_int handlers others cfg w (Some (o_payload oe)) s1 = (Ack, s2)"
    "integrity s2" "status_of tid s2 = Some (exec_status t (dispatch py handlers cfg (t_task_type t) (t_payload t)))"
    using handle_executes [OF I decode_message [OF assms(6)] message_task [OF assms(6)] row assms(3) free assms(8)]
    by metis
  show ?thesis by (rule that [OF s1 sent s2(2) _ s2(3)]) (simp add: message_of_def s2(1))
qed

section \<open>Every message in the outbox is usable\<close>

definition usable_outbox :: "settings \<Rightarrow> db \<Rightarrow> bool" where
  "usable_outbox cfg s \<longleftrightarrow> (\<forall>oe\<in>set (outbox s). usable_message cfg oe)"

lemma announced_usable: "announces cfg s s' \<Longrightarrow> usable_outbox cfg s \<Longrightarrow> usable_outbox cfg s'"
  by (auto simp: announces_def usable_outbox_def)

lemma usable_kept: "outbox s' = outbox s \<Longrightarrow> usable_outbox cfg s \<Longrightarrow> usable_outbox cfg s'"
  by (simp add: usable_outbox_def)

lemma usable_by_key:
  "usable_outbox cfg s \<longleftrightarrow> (\<forall>k\<in>set (map key_of (outbox s)). fst (snd k) = routing_key_task_created cfg \<and>
     (\<exists>tid. json_get (snd (snd k)) ''task_id'' = Some (JInt tid)))"
  by (simp add: usable_outbox_def usable_message_def key_of_def message_for_def)

lemma relayed_usable: "map key_of (outbox s') = map key_of (outbox s) \<Longrightarrow> usable_outbox cfg s \<Longrightarrow> usable_outbox cfg s'"
  by (simp add: usable_by_key)

lemma purge_usable:
  assumes "usable_outbox cfg s"
  shows "usable_outbox cfg (snd (purge_old_data cfg limit_arg s))"
proof -
  have outbox: "usable_outbox cfg s \<Longrightarrow> usable_outbox cfg (snd (delete_old_outbox c limit s))" for c limit s
    by (auto simp: delete_old_outbox_def Let_def usable_outbox_def)
  have tasks: "usable_outbox cfg s \<Longrightarrow> usable_outbox cfg (snd (purge_tasks Q limit s))" for Q limit s
    by (simp add: purge_tasks_def delete_tasks_def Let_def usable_outbox_def)
  have audit: "usable_outbox cfg s \<Longrightarrow> usable_outbox cfg (snd (delete_old_audit c limit s))" for c limit s
    by (simp add: delete_old_audit_def Let_def usable_outbox_def)
  have ticked: "usable_outbox cfg s \<Longrightarrow> usable_outbox cfg (s\<lparr>ticks := n\<rparr>)" for n s
    by (simp add: usable_outbox_def)
  show ?thesis using assms
    by (simp add: purge_old_data_def now_utc_def Let_def case_prod_beta tasks outbox audit ticked)
qed

lemma webhooks_leave_outbox:
  "outbox (snd (create_webhook u ip name url secret evs s)) = outbox s"
  "outbox (snd (update_webhook u ip wid changes s)) = outbox s"
  "outbox (snd (delete_webhook u ip wid s)) = outbox s"
  "outbox (snd (test_webhook send u ip wid s)) = outbox s"
  "outbox (snd (dispatch_due cfg send limit s)) = outbox s"
  by (simp_all add: create_webhook_def update_webhook_def delete_webhook_def test_webhook_def dispatch_due_def
      fold_dispatch_one now_utc_def Let_def db_simps split: option.split prod.split)

lemma heartbeat_leaves_outbox: "outbox (snd (heartbeat_tick wid hostname pid s)) = outbox s"
  by (auto simp: heartbeat_tick_def heartbeat_def register_worker_def update_worker_def now_utc_def Let_def split: option.split)

lemma usable_committed: "committed cfg s s' \<Longrightarrow> integrity s \<Longrightarrow> usable_outbox cfg s \<Longrightarrow> usable_outbox cfg s'"
proof (induction rule: committed.induct)
  case (purge s limit_arg)
  then show ?case by (intro purge_usable)
next
  case (relay online broker limit s n sent s')
  then show ?case using relayed_usable [OF relay_keeps] by blast
next
  case (account api s s')
  then show ?case by (simp add: usable_outbox_def work_tables [OF work_committed])
next
  case (renew s tid w lease_secs)
  then show ?case by (simp add: usable_outbox_def renew_lease_def now_utc_def Let_def split: option.split)
qed (simp_all add: announced_usable [OF announcing.routes(1)] announced_usable [OF announcing.routes(2)]
    announced_usable [OF announcing.routes(3)] announced_usable [OF announcing.routes(4)]
    announced_usable [OF announcing.routes(5)] announced_usable [OF announcing.routes(6)]
    announced_usable [OF announcing.routes(7)] announced_usable [OF announcing.routes(8)]
    announced_usable [OF announcing.orphans] announced_usable [OF passes_announce(1)]
    announced_usable [OF passes_announce(2)] announced_usable [OF passes_announce(3)]
    usable_kept [OF webhooks_leave_outbox(1)] usable_kept [OF webhooks_leave_outbox(2)]
    usable_kept [OF webhooks_leave_outbox(3)] usable_kept [OF webhooks_leave_outbox(4)]
    usable_kept [OF webhooks_leave_outbox(5)] usable_kept [OF heartbeat_leaves_outbox] usable_kept)

lemma claim_leaves_outbox: "integrity s \<Longrightarrow> outbox (final_state (claim cfg w tid s)) = outbox s"
  by (cases rule: claim_cases [of s cfg w tid]) simp_all

interpretation usable_platform: platform_invariant cfg "\<lambda>s. integrity s \<and> usable_outbox cfg s" held for cfg
proof
  show "integrity (empty_db t c) \<and> usable_outbox cfg (empty_db t c)" for t c
    by (simp add: integrity_empty) (simp add: usable_outbox_def empty_db_def)
  show "integrity s' \<and> usable_outbox cfg s'" if "integrity s \<and> usable_outbox cfg s" "committed cfg s s'" for s s'
    using that integrity_platform.commits usable_committed by blast
  show "integrity (final_state (claim cfg w tid s)) \<and> usable_outbox cfg (final_state (claim cfg w tid s))"
    if "integrity s \<and> usable_outbox cfg s" for s w tid
    using that integrity_platform.claims usable_kept [OF claim_leaves_outbox] by blast
  show "integrity (rollback_to s (final_state (claim cfg w tid s))) \<and>
      usable_outbox cfg (rollback_to s (final_state (claim cfg w tid s)))"
    if "integrity s \<and> usable_outbox cfg s" for s w tid
    using that integrity_platform.claims_rolled_back by (simp add: usable_outbox_def rollback_to_def)
  show "held obj" if "integrity s \<and> usable_outbox cfg s" "claim cfg w tid s = Ok (Claimed obj aid) s'" for s w tid obj aid s'
    using that integrity_platform.holds by blast
  show "integrity (commit s (finish cfg obj aid outcome s)) \<and> usable_outbox cfg (commit s (finish cfg obj aid outcome s))"
    if "integrity s \<and> usable_outbox cfg s" "held obj" for s obj aid outcome
    using that integrity_platform.finishes announced_usable [OF finish_announces] by blast
qed

end
