(* ===== verification/Background.thy ===== *)
theory Background
  imports Worker_Correct System
begin

text \<open>
  The background loops of the worker process (\<open>app/worker/main.py\<close>): one turn of the coordinator,
  the renewal of a lease while its task executes, and the waits between reconnections. A loop
  itself runs for ever; what is modelled is its turn, and for the renewal its whole run over
  the turns it is given.
\<close>

section \<open>The coordinator\<close>

text \<open>
  Every pass has its own session. An exception ends the turn; the passes before it are committed.
\<close>

fun run_passes :: "(db \<Rightarrow> nat result) list \<Rightarrow> db \<Rightarrow> nat list option \<times> db" where
  "run_passes [] s = (Some [], s)"
| "run_passes (pass # rest) s =
     (case pass s of
        Raise e s' \<Rightarrow> (None, rollback_to s s')
      | Ok n s' \<Rightarrow> (case run_passes rest s' of (ns, s'') \<Rightarrow> (map_option ((#) n) ns, s'')))"

definition coordinator_tick :: "settings \<Rightarrow> db \<Rightarrow> nat list option \<times> db" where
  \<comment> \<open>how many tasks each pass found, None after an exception\<close>
  "coordinator_tick cfg s =
     run_passes [requeue_due_tasks cfg 200, recover_stuck_tasks cfg 50,
       requeue_orphaned_queued_tasks cfg 200, requeue_dlq_tasks cfg 200] s"

lemma run_passes_complete:
  assumes "\<And>pass s. pass \<in> set passes \<Longrightarrow> integrity s \<Longrightarrow> \<exists>n s'. pass s = Ok n s' \<and> integrity s'"
  shows "integrity s \<Longrightarrow> \<exists>ns s'. run_passes passes s = (Some ns, s') \<and> length ns = length passes \<and> integrity s'"
  using assms
proof (induction passes arbitrary: s)
  case (Cons pass passes)
  obtain n s1 where 1: "pass s = Ok n s1" "integrity s1" using Cons.prems by (meson list.set_intros(1))
  obtain ns s2 where 2: "run_passes passes s1 = (Some ns, s2)" "length ns = length passes" "integrity s2"
    using Cons.IH [OF 1(2)] Cons.prems(2) by (meson list.set_intros(2))
  show ?case using 1 2 by simp
qed simp

lemma coordinator_tick_complete:
  assumes "integrity s"
  shows "\<exists>a b c d s'. coordinator_tick cfg s = (Some [a, b, c, d], s') \<and> integrity s'"
proof -
  have dlq: "\<exists>n s'. requeue_dlq_tasks cfg 200 s = Ok n s' \<and> integrity s'" if "integrity s" for s
    by (cases "dlq_retry_enabled cfg") (metis that requeue_dlq_tasks_effect, simp add: requeue_dlq_tasks_def that)
  have orphans: "\<exists>n s'. requeue_orphaned_queued_tasks cfg 200 s = Ok n s' \<and> integrity s'" if "integrity s" for s
    using integrity_orphans [OF that, of cfg 200]
    by (simp add: requeue_orphaned_queued_tasks_def now_utc_def Let_def)
  have due: "\<exists>n s'. requeue_due_tasks cfg 200 s = Ok n s' \<and> integrity s'" if "integrity s" for s
    by (metis that requeue_due_tasks_effect)
  have stuck: "\<exists>n s'. recover_stuck_tasks cfg 50 s = Ok n s' \<and> integrity s'" if "integrity s" for s
    by (metis that recover_stuck_tasks_effect)
  have "\<exists>ns s'. coordinator_tick cfg s = (Some ns, s') \<and> length ns = 4 \<and> integrity s'"
    using run_passes_complete [of "[requeue_due_tasks cfg 200, recover_stuck_tasks cfg 50,
       requeue_orphaned_queued_tasks cfg 200, requeue_dlq_tasks cfg 200]" s] assms dlq orphans due stuck
    unfolding coordinator_tick_def by fastforce
  then show ?thesis by (auto simp: length_Suc_conv eval_nat_numeral)
qed

text \<open>
  The pass over the orphaned tasks writes messages and no row: a task that was orphaned before it
  is orphaned after it, and published again by the next turn.
\<close>

lemma orphans_keep_rows:
  assumes "requeue_orphaned_queued_tasks cfg limit s = Ok n s'"
  shows "tasks s' = tasks s"
proof -
  have "tasks (foldl (\<lambda>s t. republish cfg t s) s1 ts) = tasks s1" for s1 ts
    by (induction ts arbitrary: s1) (simp_all add: republish_def db_simps)
  then show ?thesis using assms by (auto simp: requeue_orphaned_queued_tasks_def now_utc_def Let_def)
qed

section \<open>The renewal of a lease\<close>

text \<open>
  The turns of the renewal loop. \<open>others\<close> is what the other sessions commit before each of them;
  the loop ends at the first turn that renews nothing.
\<close>

fun renew_lease_loop :: "settings \<Rightarrow> int \<Rightarrow> string \<Rightarrow> (db \<Rightarrow> db) list \<Rightarrow> db \<Rightarrow> bool list \<times> db" where
  "renew_lease_loop cfg tid wid [] s = ([], s)"
| "renew_lease_loop cfg tid wid (others # rest) s =
     (case renew_lease tid wid (task_lease_seconds cfg) (others s) of
        (False, s) \<Rightarrow> ([False], s)
      | (True, s) \<Rightarrow> (case renew_lease_loop cfg tid wid rest s of (oks, s) \<Rightarrow> (True # oks, s)))"

definition owned :: "int \<Rightarrow> string \<Rightarrow> db \<Rightarrow> bool" where
  "owned tid wid s \<longleftrightarrow> (\<exists>t. get_task_row tid s = Some t \<and> t_lease_owner t = Some wid \<and> t_status t = Running)"

lemma renew_lease_owned:
  assumes "owned tid wid s"
  shows "\<exists>s'. renew_lease tid wid n s = (True, s') \<and> owned tid wid s' \<and>
    map_option t_lease_expires_at (get_task_row tid s') = Some (Some (clock s (ticks s) + timedelta_seconds n))"
  using assms
  by (auto simp: owned_def renew_lease_def now_utc_def Let_def get_task_row_def table_simps)

lemma renew_lease_not_owned:
  "\<not> owned tid wid s \<Longrightarrow> renew_lease tid wid n s = (False, s\<lparr>ticks := Suc (ticks s)\<rparr>)"
  by (auto simp: owned_def renew_lease_def now_utc_def Let_def get_task_row_def split: option.split)

definition keeps_lease :: "int \<Rightarrow> string \<Rightarrow> (db \<Rightarrow> db) \<Rightarrow> bool" where
  "keeps_lease tid wid others \<longleftrightarrow> (\<forall>s. owned tid wid s \<longrightarrow> owned tid wid (others s))"

lemma renew_lease_loop_keeps:
  assumes "owned tid wid s" "\<forall>others\<in>set turns. keeps_lease tid wid others"
  shows "\<exists>s'. renew_lease_loop cfg tid wid turns s = (replicate (length turns) True, s') \<and> owned tid wid s'"
  using assms
proof (induction turns arbitrary: s)
  case (Cons others turns)
  have "owned tid wid (others s)" using Cons.prems by (simp add: keeps_lease_def)
  then obtain s1 where s1: "renew_lease tid wid (task_lease_seconds cfg) (others s) = (True, s1)" "owned tid wid s1"
    using renew_lease_owned by blast
  then show ?case using Cons.IH [OF s1(2)] Cons.prems(2) by auto
qed simp

lemma renew_lease_loop_ends:
  assumes "\<not> owned tid wid (others s)"
  shows "renew_lease_loop cfg tid wid (others # rest) s = ([False], (others s)\<lparr>ticks := Suc (ticks (others s))\<rparr>)"
  using renew_lease_not_owned [OF assms] by simp

section \<open>Reconnecting\<close>

definition next_backoff :: "seconds \<Rightarrow> seconds" where
  "next_backoff backoff = min (backoff * 2) 10"

definition reconnect_wait :: "nat \<Rightarrow> seconds" where
  \<comment> \<open>the wait after the \<open>n\<close>-th loss of the connection, counted from 0\<close>
  "reconnect_wait n = (next_backoff ^^ n) 1"

lemma reconnect_wait_eq: "reconnect_wait n = min (2 ^ n) 10"
proof (induction n)
  case (Suc n)
  then show ?case by (auto simp: reconnect_wait_def next_backoff_def min_def)
qed (simp add: reconnect_wait_def)

end
