(* ===== verification/Relay_Loop.thy ===== *)
theory Relay_Loop
  imports Announcements
begin

text \<open>
  The outbox relay of the API process as a loop (\<open>_outbox_relay_loop\<close> in \<open>app/main.py\<close>). A
  turn whose pass raises is logged and forgotten: the next one starts from the database as it
  was. What the loop achieves in spite of that is the subject of this theory: a message that is
  not kept waiting by too many older ones is sent at the first turn the broker takes it.
\<close>

section \<open>The loop\<close>

text \<open>
  What a turn meets: what the other sessions commit before it, whether a connection and the
  exchange could be had, the error each publication raises, if any, and whether the commit goes
  through. If it does not, the messages are at the broker and the rows still pending.
\<close>

record relay_turn =
  before_turn :: "db \<Rightarrow> db"
  broker_online :: bool
  publish_error :: "outbox_event \<Rightarrow> string option"
  commit_succeeds :: bool

definition outbox_relay_turn :: "relay_turn \<Rightarrow> db \<Rightarrow> message list \<times> db" where
  "outbox_relay_turn turn s =
     (let s = before_turn turn s in
      case publish_pending_events (broker_online turn) (publish_error turn) 200 s of
        None \<Rightarrow> ([], s)
      | Some (n, sent, s') \<Rightarrow> (sent, if commit_succeeds turn then s' else rollback_to s s'))"

fun outbox_relay_loop :: "relay_turn list \<Rightarrow> db \<Rightarrow> message list list \<times> db" where
  "outbox_relay_loop [] s = ([], s)"
| "outbox_relay_loop (turn # turns) s =
     (case outbox_relay_turn turn s of
        (sent, s) \<Rightarrow> (case outbox_relay_loop turns s of (sents, s) \<Rightarrow> (sent # sents, s)))"

section \<open>Who is in front\<close>

definition pending :: "outbox_event \<Rightarrow> bool" where
  "pending oe \<longleftrightarrow> o_status oe = OUTBOX_PENDING"

definition waiting :: "int \<times> string \<times> json \<Rightarrow> db \<Rightarrow> bool" where
  \<comment> \<open>a pending message with this id, key and payload is there\<close>
  "waiting k s \<longleftrightarrow> k \<in> set (map key_of (filter pending (outbox s)))"

definition in_front :: "int \<Rightarrow> db \<Rightarrow> nat" where
  "in_front i s = length (filter (\<lambda>oe. pending oe \<and> o_id oe < i) (outbox s))"

lemma sorted_front:
  assumes "distinct (map key xs)" "x \<in> set xs" "length (filter (\<lambda>y. key y < key x) xs) < n"
  shows "x \<in> set (order_limit key n xs)"
proof -
  let ?ys = "sort_key key xs"
  obtain i where i: "i < length ?ys" "?ys ! i = x" using assms(2) by (metis in_set_conv_nth set_sort)
  have sorted: "sorted (map key ?ys)" by simp
  have dist: "distinct (map key ?ys)" using assms(1) mset_eq_imp_distinct_iff [of "map key ?ys" "map key xs"] by simp
  have "key y < key x" if y: "y \<in> set (take i ?ys)" for y
  proof -
    obtain j where j: "j < i" "y = ?ys ! j" using y i(1) by (force simp: in_set_conv_nth)
    then have "key y \<le> key x" using sorted_nth_mono [OF sorted, of j i] i by simp
    moreover have "key y \<noteq> key x" using nth_eq_iff_index_eq [OF dist, of j i] i j by simp
    ultimately show ?thesis by simp
  qed
  then have "filter (\<lambda>y. key y < key x) (take i ?ys) = take i ?ys" by (simp add: filter_id_conv)
  moreover have "length (filter (\<lambda>y. key y < key x) ?ys) =
      length (filter (\<lambda>y. key y < key x) (take i ?ys)) + length (filter (\<lambda>y. key y < key x) (drop i ?ys))"
    by (simp flip: length_append filter_append)
  ultimately have "i \<le> length (filter (\<lambda>y. key y < key x) ?ys)" using i(1) by simp
  also have "\<dots> = length (filter (\<lambda>y. key y < key x) xs)" by (simp add: filter_sort)
  finally have "i < n" using assms(3) by simp
  then have "x \<in> set (take n ?ys)" using i by (metis in_set_conv_nth length_take min_less_iff_conj nth_take)
  then show ?thesis by (simp add: order_limit_def)
qed

section \<open>One turn\<close>

definition adds_messages :: "settings \<Rightarrow> (db \<Rightarrow> db) \<Rightarrow> bool" where
  \<comment> \<open>what the other sessions do to the outbox: new rows at the end, nothing pending touched\<close>
  "adds_messages cfg others \<longleftrightarrow> (\<forall>s. streams_ok cfg s \<longrightarrow> streams_ok cfg (others s) \<and>
     (\<exists>new. filter pending (outbox (others s)) = filter pending (outbox s) @ new \<and>
        (\<forall>oe\<in>set new. seq_outbox s \<le> o_id oe)))"

definition queue_of :: "db \<Rightarrow> (int \<times> string \<times> json) list" where
  "queue_of s = map key_of (filter pending (outbox s))"

lemma waiting_queue: "waiting k s \<longleftrightarrow> k \<in> set (queue_of s)"
  by (simp add: waiting_def queue_of_def)

lemma in_front_queue: "in_front i s = length (filter (\<lambda>k. fst k < i) (queue_of s))"
  by (simp add: in_front_def queue_of_def filter_map o_def key_of_def conj_commute)

lemma others_queue:
  assumes "adds_messages cfg others" "streams_ok cfg s" "waiting k s"
  shows "streams_ok cfg (others s)" "waiting k (others s)" "in_front (fst k) (others s) = in_front (fst k) s"
proof -
  obtain new where new: "streams_ok cfg (others s)" "filter pending (outbox (others s)) = filter pending (outbox s) @ new"
    "\<forall>oe\<in>set new. seq_outbox s \<le> o_id oe"
    using assms(1,2) unfolding adds_messages_def by blast
  then have q: "queue_of (others s) = queue_of s @ map key_of new" by (simp add: queue_of_def)
  show "streams_ok cfg (others s)" by (rule new(1))
  show "waiting k (others s)" using assms(3) q by (simp add: waiting_queue)
  obtain oe where oe: "oe \<in> set (outbox s)" "fst k = o_id oe"
    using assms(3) by (auto simp: waiting_def key_of_def)
  then have "fst k < seq_outbox s" using assms(2) by (auto simp: streams_ok_def outbox_ok_def)
  then have "filter (\<lambda>k'. fst k' < fst k) (map key_of new) = []"
    using new(3) by (fastforce simp: filter_empty_conv key_of_def)
  then show "in_front (fst k) (others s) = in_front (fst k) s" by (simp add: in_front_queue q)
qed

lemma rollback_queue [simp]: "queue_of (rollback_to s s') = queue_of s"
  by (simp add: queue_of_def rollback_to_def)

lemma pending_marks:
  assumes "map key_of ys = map key_of xs"
    and "map (\<lambda>e. (o_id e, o_status e)) ys = map (\<lambda>e. (o_id e, if P (o_id e) then OUTBOX_SENT else o_status e)) xs"
  shows "map key_of (filter pending ys) = filter (\<lambda>k. \<not> P (fst k)) (map key_of (filter pending xs))"
  using assms
proof (induction xs arbitrary: ys)
  case (Cons x xs)
  then obtain y ys' where "ys = y # ys'" by auto
  with Cons show ?case by (auto simp: pending_def key_of_def)
qed simp

lemma relay_frame:
  assumes "publish_pending_events online send limit s = Some (n, sent, s')"
  shows "\<exists>rows n. s' = s\<lparr>outbox := rows, ticks := n\<rparr>"
proof -
  have one: "\<exists>rows n. snd (publish_one send oe acc) = (snd acc)\<lparr>outbox := rows, ticks := n\<rparr>" for oe acc
    by (rule exI [of _ "outbox (snd (publish_one send oe acc))"], rule exI [of _ "ticks (snd (publish_one send oe acc))"])
      (simp add: publish_one_def now_utc_def case_prod_beta Let_def split: option.split)
  have "\<exists>rows n. snd (fold (publish_one send) evs acc) = (snd acc)\<lparr>outbox := rows, ticks := n\<rparr>" for evs acc
  proof (induction evs arbitrary: acc)
    case Nil
    have "snd acc = (snd acc)\<lparr>outbox := outbox (snd acc), ticks := ticks (snd acc)\<rparr>" by simp
    then show ?case by (metis fold_simps(1))
  next
    case (Cons oe evs)
    obtain rows n where 1: "snd (publish_one send oe acc) = (snd acc)\<lparr>outbox := rows, ticks := n\<rparr>"
      using one by blast
    obtain rows' n' where 2: "snd (fold (publish_one send) evs (publish_one send oe acc)) =
        (snd (publish_one send oe acc))\<lparr>outbox := rows', ticks := n'\<rparr>"
      using Cons.IH by blast
    show ?case by (intro exI [of _ rows'] exI [of _ n']) (simp add: 1 2)
  qed
  note loop = this [of "pending_events limit s" "([], s)"]
  have "s = s\<lparr>outbox := outbox s, ticks := ticks s\<rparr>" by simp
  then show ?thesis
    using assms loop unfolding publish_pending_events_def Let_def by (auto split: if_splits)
qed

lemma turn_outcomes:
  assumes "outbox_relay_turn turn s = (sent, s')" "streams_ok cfg (before_turn turn s)"
    and "pending_events 200 (before_turn turn s) \<noteq> []"
  obtains (down) "\<not> broker_online turn" "sent = []" "s' = before_turn turn s"
  | (up) "broker_online turn" "sent = relayed (publish_error turn) (pending_events 200 (before_turn turn s))"
      "streams_ok cfg s'" "queue_of s' = queue_of (before_turn turn s) \<or>
        queue_of s' = filter (\<lambda>k. \<not> (\<exists>oe\<in>set (pending_events 200 (before_turn turn s)).
          o_id oe = fst k \<and> publish_error turn oe = None)) (queue_of (before_turn turn s))"
proof (cases "broker_online turn")
  case False
  then show ?thesis using assms down by (simp add: outbox_relay_turn_def publish_pending_events_def Let_def)
next
  case True
  let ?s = "before_turn turn s" and ?send = "publish_error turn"
  obtain s1 where s1: "publish_pending_events True ?send 200 ?s =
      Some (length (pending_events 200 ?s), relayed ?send (pending_events 200 ?s), s1)"
    "map key_of (outbox s1) = map key_of (outbox ?s)"
    "map (\<lambda>e. (o_id e, o_status e)) (outbox s1) =
      map (\<lambda>e. (o_id e, if \<exists>oe\<in>set (pending_events 200 ?s). o_id oe = o_id e \<and> ?send oe = None
        then OUTBOX_SENT else o_status e)) (outbox ?s)"
    by (rule relay_effect)
  have "grows ?s s1" using relay_frame [OF s1(1)] by (auto simp: grows_def)
  then have "streams_ok cfg (rollback_to ?s s1)" by (rule streams.rolled_back [OF assms(2)])
  moreover have "streams_ok cfg s1" by (rule streams_relay [OF assms(2) s1(1)])
  moreover have "queue_of s1 = filter (\<lambda>k. \<not> (\<exists>oe\<in>set (pending_events 200 ?s). o_id oe = fst k \<and> ?send oe = None)) (queue_of ?s)"
    using pending_marks [OF s1(2,3)] by (simp add: queue_of_def)
  moreover have "sent = relayed ?send (pending_events 200 ?s)" "s' = (if commit_succeeds turn then s1 else rollback_to ?s s1)"
    using assms(1) True s1(1) by (simp_all add: outbox_relay_turn_def Let_def split: if_splits)
  ultimately show ?thesis using up True by (simp split: if_splits)
qed

lemma turn_queue:
  assumes "outbox_relay_turn turn s = (sent, s')" "adds_messages cfg (before_turn turn)" "streams_ok cfg s"
    and "waiting k s" "in_front (fst k) s < 200"
  shows "streams_ok cfg s'"
    and "(\<exists>oe. key_of oe = k \<and> message_of oe \<in> set sent) \<or> waiting k s' \<and> in_front (fst k) s' < 200 \<and>
      \<not> (broker_online turn \<and> (\<forall>oe. key_of oe = k \<longrightarrow> publish_error turn oe = None))"
proof -
  let ?s = "before_turn turn s" and ?send = "publish_error turn"
  note here = others_queue [OF assms(2-4)]
  obtain oe where oe: "oe \<in> set (filter pending (outbox ?s))" "key_of oe = k"
    using here(2) by (auto simp: waiting_def)
  have ids: "inj_on o_id (set (outbox ?s))" "distinct (map o_id (filter pending (outbox ?s)))"
    using here(1) by (auto simp: streams_ok_def distinct_map intro: inj_on_subset)
  have id: "fst k = o_id oe" using oe(2) by (auto simp: key_of_def)
  have few: "in_front (fst k) ?s < 200" using assms(5) here(3) by simp
  then have "length (filter (\<lambda>y. o_id y < o_id oe) (filter pending (outbox ?s))) < 200"
    by (simp add: in_front_def id conj_commute)
  then have "oe \<in> set (order_limit o_id 200 (filter pending (outbox ?s)))" by (rule sorted_front [OF ids(2) oe(1)])
  then have chosen: "oe \<in> set (pending_events 200 ?s)" unfolding pending_events_def pending_def .
  have outside: "set (pending_events 200 ?s) \<subseteq> set (outbox ?s)"
    unfolding pending_events_def using set_order_limit by fastforce
  have "pending_events 200 ?s \<noteq> []" using chosen by auto
  from turn_outcomes [OF assms(1) here(1) this] show "streams_ok cfg s'"
    using here(1) by metis
  show "(\<exists>oe. key_of oe = k \<and> message_of oe \<in> set sent) \<or> waiting k s' \<and> in_front (fst k) s' < 200 \<and>
      \<not> (broker_online turn \<and> (\<forall>oe. key_of oe = k \<longrightarrow> publish_error turn oe = None))"
  proof (cases rule: turn_outcomes [OF assms(1) here(1) \<open>pending_events 200 ?s \<noteq> []\<close>])
    case 1
    then show ?thesis using here(2) few by simp
  next
    case up: 2
    show ?thesis
    proof (cases "?send oe")
      case None
      then have "message_of oe \<in> set sent" using up(2) chosen by (simp add: relayed_def)
      then show ?thesis using oe(2) by blast
    next
      case (Some e)
      have "\<not> (\<exists>oe'\<in>set (pending_events 200 ?s). o_id oe' = fst k \<and> ?send oe' = None)"
        using Some ids(1) outside oe(1) id by (auto dest: inj_onD)
      moreover have "length (filter Q (filter P xs)) \<le> length (filter Q xs)" for P Q and xs :: "(int \<times> string \<times> json) list"
        by (induction xs) auto
      ultimately have "k \<in> set (queue_of s')" "in_front (fst k) s' \<le> in_front (fst k) ?s"
        using up(4) here(2) by (auto simp: waiting_queue in_front_queue simp del: filter_filter)
      then show ?thesis using few Some oe(2) by (auto simp: waiting_queue)
    qed
  qed
qed

section \<open>The loop delivers\<close>

lemma outbox_relay_loop_delivers:
  assumes "streams_ok cfg s" "waiting k s" "in_front (fst k) s < 200"
    and "\<forall>turn\<in>set turns. adds_messages cfg (before_turn turn)"
    and "turn \<in> set turns" "broker_online turn" "\<forall>oe. key_of oe = k \<longrightarrow> publish_error turn oe = None"
  shows "\<exists>oe. key_of oe = k \<and> message_of oe \<in> set (concat (fst (outbox_relay_loop turns s)))"
  using assms
proof (induction turns arbitrary: s)
  case (Cons first turns)
  obtain sent s1 where 1: "outbox_relay_turn first s = (sent, s1)" by fastforce
  obtain sents s2 where 2: "outbox_relay_loop turns s1 = (sents, s2)" by fastforce
  have all: "fst (outbox_relay_loop (first # turns) s) = sent # sents" using 1 2 by simp
  have adds: "adds_messages cfg (before_turn first)" using Cons.prems(4) by simp
  note turn = turn_queue [OF 1 adds Cons.prems(1-3)]
  show ?case
  proof (cases "\<exists>oe. key_of oe = k \<and> message_of oe \<in> set sent")
    case True
    then show ?thesis unfolding all by auto
  next
    case False
    then have "waiting k s1" "in_front (fst k) s1 < 200" "turn \<noteq> first"
      using turn(2) Cons.prems(6,7) by auto
    then have "\<exists>oe. key_of oe = k \<and> message_of oe \<in> set (concat (fst (outbox_relay_loop turns s1)))"
      using Cons.prems(4-7) turn(1) by (intro Cons.IH) auto
    then show ?thesis unfolding all 2 by auto
  qed
qed simp

lemma message_of_key: "key_of oe = key_of oe' \<Longrightarrow> message_of oe = message_of oe'"
  by (simp add: key_of_def message_of_def)

end
