(* ===== verification/Views.thy ===== *)
theory Views
  imports Auth Registry Task_Routes Webhooks
begin

text \<open>
  What the platform shows of itself: the statistics with the depth of the queue
  (\<open>app/api/routes/stats.py\<close>), the gauges of the metrics page (\<open>app/api/routes/metrics.py\<close>), the
  labels under which a request is counted (\<open>app/core/metrics.py\<close>), the audit list
  (\<open>app/api/routes/audit.py\<close>), the list of workers, the health page, the frames of the live
  events (\<open>app/services/events.py\<close>) and the fields of a log line (\<open>app/core/logging.py\<close>). Also the
  request validation of the remaining schemas.
\<close>

section \<open>Statistics and metrics\<close>

text \<open>\<open>depth\<close> is what the broker says of its queue, None when it cannot be asked.\<close>

definition get_stats :: "nat option \<Rightarrow> db \<Rightarrow> stats \<times> nat option" where
  "get_stats depth s = (build_stats s, depth)"

record gauges =
  tasks_status_gauge :: "(task_status \<times> nat) list"
  workers_active :: nat
  workers_total :: nat
  outbox_pending :: nat
  rabbitmq_queue_depth :: int

definition metrics_endpoint :: "nat option \<Rightarrow> db \<Rightarrow> gauges" where
  "metrics_endpoint depth s =
     \<lparr>tasks_status_gauge = counts_by t_status TASK_STATUSES (tasks s),
      workers_active = length (filter (\<lambda>w. k_status w = WORKER_ALIVE) (workers s)),
      workers_total = length (workers s),
      outbox_pending = length (filter (\<lambda>oe. o_status oe = OUTBOX_PENDING) (outbox s)),
      rabbitmq_queue_depth = (case depth of Some n \<Rightarrow> int n | None \<Rightarrow> -1)\<rparr>"

lemma metrics_consistent:
  "sum_list (map snd (tasks_status_gauge (metrics_endpoint depth s))) = length (tasks s)"
  "tasks_status_gauge (metrics_endpoint depth s) = st_by_status (fst (get_stats depth s))"
  "workers_active (metrics_endpoint depth s) \<le> workers_total (metrics_endpoint depth s)"
  "map_of (st_workers_by_status (fst (get_stats depth s))) WORKER_ALIVE = Some (workers_active (metrics_endpoint depth s))"
  using stats_totals(1) [of s]
  by (simp_all add: metrics_endpoint_def get_stats_def build_stats_def Let_def counts_by_def WORKER_STATUSES_def)

text \<open>
  The routes of the wrapped application, None when it has no router: the loop ends in an exception
  then, as it does when a match raises (\<open>full_match\<close> is None), and the raw path is the label.
\<close>

fun path_of_routes :: "('r \<Rightarrow> bool option) \<Rightarrow> ('r \<Rightarrow> string) \<Rightarrow> string \<Rightarrow> 'r list \<Rightarrow> string" where
  "path_of_routes full_match route_path raw [] = raw"
| "path_of_routes full_match route_path raw (r # routes) =
     (case full_match r of
        None \<Rightarrow> raw
      | Some full \<Rightarrow> if full then route_path r else path_of_routes full_match route_path raw routes)"

definition path_template :: "('r \<Rightarrow> bool option) \<Rightarrow> ('r \<Rightarrow> string) \<Rightarrow> string \<Rightarrow> 'r list option \<Rightarrow> string" where
  "path_template full_match route_path raw routes =
     (case routes of None \<Rightarrow> raw | Some rs \<Rightarrow> path_of_routes full_match route_path raw rs)"

text \<open>
  The labels of a request and the messages it sent, of which those that start a response carry a
  status: the last one counts, and 500 stands for none.
\<close>

definition observed_status :: "int option list \<Rightarrow> int" where
  "observed_status sent = fold (\<lambda>m code. case m of Some st \<Rightarrow> st | None \<Rightarrow> code) sent 500"

definition request_labels ::
    "('r \<Rightarrow> bool option) \<Rightarrow> ('r \<Rightarrow> string) \<Rightarrow> 'r list option \<Rightarrow> string option \<Rightarrow> string \<Rightarrow> int option list \<Rightarrow>
     string \<times> string \<times> string" where
  "request_labels full_match route_path routes verb raw sent =
     (case verb of Some m \<Rightarrow> m | None \<Rightarrow> ''GET'', path_template full_match route_path raw routes,
      show_int (observed_status sent))"

lemma path_template_in:
  "path_template full_match route_path raw routes \<in> insert raw (\<Union> (set ` set_option (map_option (map route_path) routes)))"
proof -
  have "path_of_routes full_match route_path raw rs \<in> insert raw (route_path ` set rs)" for rs
    by (induction rs) (auto split: option.split)
  then show ?thesis by (auto simp: path_template_def split: option.split)
qed

section \<open>Lists\<close>

definition list_audit_route ::
    "(string \<Rightarrow> string \<Rightarrow> bool) \<Rightarrow> audit_query \<Rightarrow> int \<Rightarrow> int \<Rightarrow> db \<Rightarrow> (nat \<times> audit_log list) response" where
  "list_audit_route ilike q limit offset s =
     (if \<not> (1 \<le> limit \<and> limit \<le> 200 \<and> 0 \<le> offset) then Status 422
      else Reply (count_audit ilike q s, list_audit ilike q (nat limit) (nat offset) s))"

definition list_workers_route :: "db \<Rightarrow> worker list" where
  "list_workers_route s = list_workers s"

definition health :: "bool \<Rightarrow> string \<times> bool" where
  \<comment> \<open>\<open>up\<close> is whether the database answers\<close>
  "health up = (''ok'', up)"

section \<open>Live events\<close>

definition event_frame :: "string \<Rightarrow> (string \<times> json) list \<Rightarrow> json" where
  "event_frame event_type payload = JObj [(''type'', JStr event_type), (''payload'', JObj payload)]"

text \<open>The frames a publication puts on the channel; \<open>up\<close> is whether Redis takes it.\<close>

definition publish_event :: "bool \<Rightarrow> bool \<Rightarrow> string \<Rightarrow> (string \<times> json) list \<Rightarrow> json list" where
  "publish_event redis_events_enabled up event_type payload =
     (if \<not> redis_events_enabled then [] else if up then [event_frame event_type payload] else [])"

definition publish_task_event :: "bool \<Rightarrow> bool \<Rightarrow> string \<Rightarrow> task \<Rightarrow> json list" where
  "publish_task_event enabled up event_type t =
     publish_event enabled up event_type
       [(''task_id'', JInt (t_id t)), (''task_type'', JStr (t_task_type t)), (''status'', JStr (status_name (t_status t))),
        (''priority'', JStr (priority_name (t_priority t))), (''attempts'', JInt (t_attempts t))]"

definition publish_worker_event :: "bool \<Rightarrow> bool \<Rightarrow> string \<Rightarrow> string \<Rightarrow> json list" where
  "publish_worker_event enabled up event_type wid = publish_event enabled up event_type [(''worker_id'', JStr wid)]"

section \<open>Log lines\<close>

definition RESERVED_KEYS :: "string list" where
  "RESERVED_KEYS =
     [''name'', ''msg'', ''args'', ''levelname'', ''levelno'', ''pathname'', ''filename'', ''module'', ''exc_info'',
      ''exc_text'', ''stack_info'', ''lineno'', ''funcName'', ''created'', ''msecs'', ''relativeCreated'', ''thread'',
      ''threadName'', ''processName'', ''process'', ''taskName'', ''asctime'', ''message'']"

fun set_item :: "'k \<Rightarrow> 'v \<Rightarrow> ('k \<times> 'v) list \<Rightarrow> ('k \<times> 'v) list" where
  \<comment> \<open>\<open>d[k] = v\<close> on a dict: an old key keeps its place\<close>
  "set_item k v [] = [(k, v)]"
| "set_item k v ((k', v') # kvs) = (if k = k' then (k, v) # kvs else (k', v') # set_item k v kvs)"

text \<open>
  The fields of a record: \<open>attrs\<close> are its attributes in order, None for a value that is neither a
  text, a number, a bool, a dict nor a list.
\<close>

definition json_log_fields ::
    "string \<Rightarrow> string \<Rightarrow> string \<Rightarrow> string \<Rightarrow> string option \<Rightarrow> (string \<times> json option) list \<Rightarrow> (string \<times> json) list" where
  "json_log_fields ts level logger message exception attrs =
     (let base = [(''ts'', JStr ts), (''level'', JStr level), (''logger'', JStr logger), (''message'', JStr message)];
          payload = (case exception of None \<Rightarrow> base | Some e \<Rightarrow> set_item ''exception'' (JStr e) base)
      in fold (\<lambda>(k, v) kvs. if k \<in> set RESERVED_KEYS then kvs
           else case v of None \<Rightarrow> kvs | Some x \<Rightarrow> set_item k x kvs) attrs payload)"

lemma map_of_set_item: "map_of (set_item k v kvs) = (map_of kvs)(k \<mapsto> v)"
  by (induction kvs) auto

lemma keys_set_item: "fst ` set (set_item k v kvs) = insert k (fst ` set kvs)"
  by (induction k v kvs rule: set_item.induct) auto

lemma distinct_set_item: "distinct (map fst kvs) \<Longrightarrow> distinct (map fst (set_item k v kvs))"
  by (induction k v kvs rule: set_item.induct) (auto simp: keys_set_item)

lemma json_log_message:
  "map_of (json_log_fields ts level logger message exception attrs) ''message'' = Some (JStr message)"
proof -
  have "map_of (fold (\<lambda>(k, v) kvs. if k \<in> set RESERVED_KEYS then kvs
      else case v of None \<Rightarrow> kvs | Some x \<Rightarrow> set_item k x kvs) attrs kvs) ''message'' = map_of kvs ''message''" for kvs
  proof (induction attrs arbitrary: kvs)
    case (Cons a attrs)
    have "''message'' \<in> set RESERVED_KEYS" by (simp add: RESERVED_KEYS_def)
    then show ?case using Cons by (cases a) (auto simp: map_of_set_item split: option.split)
  qed simp
  then show ?thesis by (simp add: json_log_fields_def Let_def map_of_set_item split: option.split)
qed

section \<open>Request validation\<close>

definition valid_batch_create :: "string \<Rightarrow> task_create list \<Rightarrow> bool" where
  "valid_batch_create name bodies \<longleftrightarrow>
     length name \<le> 255 \<and> 1 \<le> length bodies \<and> length bodies \<le> 1000 \<and> list_all valid_task_create bodies"

definition valid_webhook_create :: "string \<Rightarrow> string \<Rightarrow> string option \<Rightarrow> bool" where
  "valid_webhook_create name url secret \<longleftrightarrow>
     length name \<le> 255 \<and> 1 \<le> length url \<and> length url \<le> 2048 \<and>
     (case secret of None \<Rightarrow> True | Some w \<Rightarrow> length w \<le> 512)"

definition valid_webhook_update :: "webhook_update \<Rightarrow> bool" where
  "valid_webhook_update body \<longleftrightarrow>
     (case Webhooks.u_name body of None \<Rightarrow> True | Some n \<Rightarrow> length n \<le> 255) \<and>
     (case u_url body of None \<Rightarrow> True | Some w \<Rightarrow> length w \<le> 2048) \<and>
     (case u_secret body of None \<Rightarrow> True | Some w \<Rightarrow> length w \<le> 512)"

end
