(* ===== verification/Processes.thy ===== *)
theory Processes
  imports Background Relay_Loop Views
begin

text \<open>
  The two processes around their loops. Of the worker (\<open>app/worker/main.py\<close>): the consumption of
  the queue, the reconnection, the turns of the heartbeat and of the retention. Of the API
  (\<open>app/main.py\<close>): the life of the application from its start to its end, the turn of the webhook
  dispatcher and the stack of middleware a request goes through. Also the clients a process
  opens when it first needs them (\<open>app/services/outbox.py\<close>, \<open>app/db/redis.py\<close>).
\<close>

section \<open>The consumption of the queue\<close>

text \<open>
  The messages of a connection one after the other (\<open>prefetch_count=1\<close>), each with what the other
  sessions commit before it is taken and while its task executes.
\<close>

record delivered =
  before_message :: "db \<Rightarrow> db"
  message_body :: "json option"
  while_executing :: "db \<Rightarrow> db"

fun run_worker ::
    "python \<Rightarrow> (string \<Rightarrow> int option) \<Rightarrow> handlers \<Rightarrow> settings \<Rightarrow> string \<Rightarrow> delivered list \<Rightarrow> db \<Rightarrow> ack list \<times> db" where
  "run_worker py parse_int handlers cfg wid [] s = ([], s)"
| "run_worker py parse_int handlers cfg wid (d # ds) s =
     (case handle_message py parse_int handlers (while_executing d) cfg wid (message_body d) (before_message d s) of
        (a, s) \<Rightarrow> (case run_worker py parse_int handlers cfg wid ds s of (as, s) \<Rightarrow> (a # as, s)))"

text \<open>
  The life of the consumer: the messages of each connection, and whether it ends with an
  exception. Only then there is a wait, and the next one is longer; nothing makes it shorter
  again. The third result is the waits.
\<close>

fun run_worker_with_reconnect ::
    "python \<Rightarrow> (string \<Rightarrow> int option) \<Rightarrow> handlers \<Rightarrow> settings \<Rightarrow> string \<Rightarrow> (delivered list \<times> bool) list \<Rightarrow> seconds \<Rightarrow>
     db \<Rightarrow> ack list \<times> db \<times> seconds list" where
  "run_worker_with_reconnect py parse_int handlers cfg wid [] backoff s = ([], s, [])"
| "run_worker_with_reconnect py parse_int handlers cfg wid ((ds, lost) # sessions) backoff s =
     (case run_worker py parse_int handlers cfg wid ds s of
        (as, s) \<Rightarrow>
          (case run_worker_with_reconnect py parse_int handlers cfg wid sessions
                  (if lost then next_backoff backoff else backoff) s of
             (rest, s, waits) \<Rightarrow> (as @ rest, s, if lost then backoff # waits else waits)))"

lemma run_worker_answers: "length (fst (run_worker py parse_int handlers cfg wid ds s)) = length ds"
  by (induction ds arbitrary: s) (auto split: prod.split, metis fst_conv)

lemma reconnect_waits:
  "snd (snd (run_worker_with_reconnect py parse_int handlers cfg wid sessions (reconnect_wait n) s)) =
   map reconnect_wait [n..<n + length (filter snd sessions)]"
proof (induction sessions arbitrary: n s)
  case (Cons session sessions)
  obtain ds lost where session: "session = (ds, lost)" by fastforce
  have longer: "next_backoff (reconnect_wait n) = reconnect_wait (Suc n)" by (simp add: reconnect_wait_def)
  obtain as s1 where 1: "run_worker py parse_int handlers cfg wid ds s = (as, s1)" by fastforce
  show ?case
    using Cons.IH [of "Suc n" s1] Cons.IH [of n s1]
    by (simp add: session longer 1 case_prod_beta upt_conv_Cons del: upt_Suc)
qed simp

text \<open>The answers are those of the messages of all connections, in order.\<close>

lemma reconnect_answers:
  "length (fst (run_worker_with_reconnect py parse_int handlers cfg wid sessions backoff s)) =
   sum_list (map (length \<circ> fst) sessions)"
proof (induction sessions arbitrary: backoff s)
  case (Cons session sessions)
  obtain ds lost where session: "session = (ds, lost)" by fastforce
  show ?case
    using Cons.IH run_worker_answers [of py parse_int handlers cfg wid ds s]
    by (auto simp: session split: prod.split) (metis fst_conv)+
qed simp

lemma handle_delivered_again:
  assumes "integrity s" "decode_payload body = Some b" "message_task_id parse_int b = Some tid"
    and "status_of tid s \<noteq> Some Queued"
  shows "handle_message py parse_int handlers others cfg w body s = (Ack, s\<lparr>ticks := ticks s + 2\<rparr>)"
  by (rule handle_refused [OF assms(1-3)]) (use assms(4) in \<open>auto simp: status_of_def\<close>)

lemma run_worker_again:
  assumes "integrity s" "decode_payload body = Some b" "message_task_id parse_int b = Some tid"
    and "status_of tid s \<noteq> Some Queued"
    and "\<forall>d\<in>set ds. message_body d = body \<and> before_message d = id"
  shows "run_worker py parse_int handlers cfg w ds s = (replicate (length ds) Ack, s\<lparr>ticks := ticks s + 2 * length ds\<rparr>)"
  using assms(1,4,5)
proof (induction ds arbitrary: s)
  case (Cons d ds)
  let ?s = "s\<lparr>ticks := ticks s + 2\<rparr>"
  have "integrity ?s" "status_of tid ?s \<noteq> Some Queued"
    using Cons.prems(1,2) by (simp_all add: integrity_ticks status_of_def get_task_row_def)
  then have "run_worker py parse_int handlers cfg w ds ?s =
      (replicate (length ds) Ack, ?s\<lparr>ticks := ticks ?s + 2 * length ds\<rparr>)"
    using Cons.prems(3) by (intro Cons.IH) auto
  moreover have "before_message d = id" "message_body d = body"
    using Cons.prems(3) by (meson list.set_intros(1))+
  ultimately show ?case
    by (simp add: handle_delivered_again [OF Cons.prems(1) assms(2,3) Cons.prems(2)])
qed simp

lemma exec_status_not_queued: "exec_status t outcome \<noteq> Queued"
  by (auto simp: exec_status_def Let_def split: exec_result.split)

lemma duplicates_executed_once:
  assumes "integrity s" "decode_payload body = Some b" "message_task_id parse_int b = Some tid"
    and "get_task_row tid s = Some t" "t_status t = Queued"
    and "leaves_task (while_executing d) tid" "message_body d = body" "before_message d = id"
    and "\<forall>d\<in>set ds. message_body d = body \<and> before_message d = id"
  obtains s1 where "handle_message py parse_int handlers (while_executing d) cfg w body s = (Ack, s1)"
    and "status_of tid s1 = Some (exec_status t (dispatch py handlers cfg (t_task_type t) (t_payload t)))"
    and "run_worker py parse_int handlers cfg w (d # ds) s =
      (replicate (Suc (length ds)) Ack, s1\<lparr>ticks := ticks s1 + 2 * length ds\<rparr>)"
proof -
  have "task_ok t" using get_task_row_SomeD [OF assms(4)] assms(1) by (simp add: integrity_but_def)
  then have free: "lease_free (clock s (ticks s)) t" using assms(5) by (simp add: task_ok_def lease_free_def)
  obtain s1 where s1: "handle_message py parse_int handlers (while_executing d) cfg w body s = (Ack, s1)" "integrity s1"
    "status_of tid s1 = Some (exec_status t (dispatch py handlers cfg (t_task_type t) (t_payload t)))"
    using handle_executes [OF assms(1-5) free assms(6)] by metis
  have "status_of tid s1 \<noteq> Some Queued" using s1(3) exec_status_not_queued by simp
  from run_worker_again [OF s1(2) assms(2,3) this assms(9)] that [OF s1(1,3)] show ?thesis
    using s1(1) assms(7,8) by simp
qed

section \<open>Turns of the other loops\<close>

text \<open>
  An exception (\<open>up\<close> is False) is logged, leaves the database as it was and ends the turn only.
\<close>

definition run_heartbeat_turn ::
    "bool \<Rightarrow> bool \<Rightarrow> bool \<Rightarrow> string \<Rightarrow> string \<Rightarrow> int \<Rightarrow> db \<Rightarrow> json list \<times> db" where
  "run_heartbeat_turn up redis_events_enabled redis_up wid hostname pid s =
     (if \<not> up then ([], s)
      else case heartbeat_tick wid hostname pid s of
        (published, s) \<Rightarrow>
          (if published then publish_worker_event redis_events_enabled redis_up ''worker.alive'' wid else [], s))"

definition run_retention_turn :: "bool \<Rightarrow> settings \<Rightarrow> db \<Rightarrow> nat \<times> db" where
  "run_retention_turn up cfg s = (if up then purge_old_data cfg None s else (0, s))"

definition webhook_dispatcher_turn ::
    "bool \<Rightarrow> settings \<Rightarrow> sender \<Rightarrow> db \<Rightarrow> nat \<times> db" where
  "webhook_dispatcher_turn up cfg send s = (if up then dispatch_due cfg send 100 s else (0, s))"

lemma heartbeat_registers:
  assumes "run_heartbeat_turn True True True wid hostname pid s = (frames, s')"
  shows "\<exists>w. find_worker wid s' = Some w \<and> k_status w = WORKER_ALIVE"
    and "frames = (if find_worker wid s = None
      then [event_frame ''worker.alive'' [(''worker_id'', JStr wid)]] else [])"
proof -
  show "\<exists>w. find_worker wid s' = Some w \<and> k_status w = WORKER_ALIVE"
  proof (cases "find_worker wid s")
    case None
    then have "find_worker wid (s\<lparr>ticks := n\<rparr>) = None" for n by (simp add: find_worker_def)
    then show ?thesis
      using assms None
      by (auto simp: run_heartbeat_turn_def heartbeat_tick_def heartbeat_def register_worker_def now_utc_def Let_def)
        (auto simp: find_worker_def find_worker_append)
  next
    case (Some w)
    then have "find_worker wid (s\<lparr>ticks := n\<rparr>) = Some w" for n by (simp add: find_worker_def)
    then show ?thesis
      using assms Some
      by (auto simp: run_heartbeat_turn_def heartbeat_tick_def heartbeat_def now_utc_def Let_def find_worker_update)
  qed
  show "frames = (if find_worker wid s = None
      then [event_frame ''worker.alive'' [(''worker_id'', JStr wid)]] else [])"
    using assms
    by (auto simp: run_heartbeat_turn_def heartbeat_tick_def heartbeat_def publish_worker_event_def publish_event_def
        now_utc_def Let_def split: option.splits)
qed

section \<open>The life of the application\<close>

datatype life_event =
  SetupLogging | BootstrapAdmin | StartRelay | StartDispatcher | Serve | CancelRelay | CancelDispatcher
  | AwaitRelay | AwaitDispatcher | CloseConnection | CloseRedis

text \<open>How an awaited task ends. Inside \<open>suppress(CancelledError)\<close> the first exception ends the block.\<close>

datatype await_end = Returned | CancelledError | Failed_with

fun suppress_cancelled :: "(life_event \<times> await_end) list \<Rightarrow> life_event list \<times> bool" where
  "suppress_cancelled [] = ([], True)"
| "suppress_cancelled ((e, how) # rest) =
     (case how of
        Returned \<Rightarrow> (case suppress_cancelled rest of (es, ok) \<Rightarrow> (e # es, ok))
      | CancelledError \<Rightarrow> ([e], True)
      | Failed_with \<Rightarrow> ([e], False))"

definition lifespan :: "bool \<Rightarrow> await_end \<Rightarrow> await_end \<Rightarrow> life_event list" where
  "lifespan bootstrapped relay dispatcher =
     (if \<not> bootstrapped then [SetupLogging, BootstrapAdmin]
      else
        let (awaited, ok) = suppress_cancelled [(AwaitRelay, relay), (AwaitDispatcher, dispatcher)] in
        [SetupLogging, BootstrapAdmin, StartRelay, StartDispatcher, Serve, CancelRelay, CancelDispatcher] @ awaited @
        (if ok then [CloseConnection, CloseRedis] else []))"

text \<open>
  The loops end in no other way than by their cancellation, so the second of the two awaits in
  the block is never reached.
\<close>

lemma dispatcher_not_awaited: "AwaitDispatcher \<notin> set (lifespan bootstrapped CancelledError dispatcher)"
  by (simp add: lifespan_def)

lemma clients_closed: "lifespan True CancelledError dispatcher = [SetupLogging, BootstrapAdmin, StartRelay, StartDispatcher,
    Serve, CancelRelay, CancelDispatcher, AwaitRelay, CloseConnection, CloseRedis]"
  by (simp add: lifespan_def)

section \<open>The stack of middleware\<close>

text \<open>
  A request goes through the rate limiter first, then through the counting middleware, then
  through CORS to the routes. \<open>rq_allow\<close> is the limiter asked for the key of the client, \<open>rq_sent\<close>
  the messages of the answer, of which those that start a response carry its status. What the
  counting middleware wraps is the CORS middleware, which has no router.
\<close>

record asgi_request =
  rq_http :: bool
  rq_verb :: "string option"
  rq_path :: string
  rq_allow :: "limiters \<Rightarrow> bool \<times> limiters"
  rq_sent :: "int option list"

type_synonym labels = "string \<times> string \<times> string"

definition http_labels :: "asgi_request \<Rightarrow> labels" where
  "http_labels rq =
     request_labels (\<lambda>_ :: unit. None) (\<lambda>_. []) None (rq_verb rq) (rq_path rq) (rq_sent rq)"

definition prometheus_middleware :: "asgi_request \<Rightarrow> labels list \<Rightarrow> labels list" where
  \<comment> \<open>the labels under which requests have been counted, in order\<close>
  "prometheus_middleware rq counted = (if rq_http rq then counted @ [http_labels rq] else counted)"

definition serve_request ::
    "rat \<Rightarrow> asgi_request \<Rightarrow> limiters \<times> labels list \<Rightarrow> (int \<times> int) option \<times> limiters \<times> labels list" where
  "serve_request window rq st =
     (case st of (ls, counted) \<Rightarrow>
        if \<not> rq_http rq then (None, ls, prometheus_middleware rq counted)
        else case rate_limit_middleware (rq_allow rq) window (rq_path rq) ls of
          (Some refusal, ls) \<Rightarrow> (Some refusal, ls, counted)
        | (None, ls) \<Rightarrow> (None, ls, prometheus_middleware rq counted))"

fun serve_requests ::
    "rat \<Rightarrow> asgi_request list \<Rightarrow> limiters \<times> labels list \<Rightarrow> (int \<times> int) option list \<times> limiters \<times> labels list" where
  "serve_requests window [] st = ([], st)"
| "serve_requests window (rq # rqs) st =
     (case serve_request window rq st of
        (refused, st) \<Rightarrow> (case serve_requests window rqs st of (rest, st) \<Rightarrow> (refused # rest, st)))"

definition let_through :: "asgi_request list \<Rightarrow> (int \<times> int) option list \<Rightarrow> asgi_request list" where
  "let_through rqs refusals = map fst (filter (\<lambda>(rq, refused). rq_http rq \<and> refused = None) (zip rqs refusals))"

lemma serve_request_counts:
  assumes "serve_request window rq (ls, counted) = (refused, ls', counted')"
  shows "counted' = counted @ (if rq_http rq \<and> refused = None then [http_labels rq] else [])"
    and "refused \<noteq> None \<Longrightarrow> rq_http rq \<and> rq_path rq \<notin> set SKIP_PATHS \<and> fst (rq_allow rq ls) = False"
  using assms
  by (auto simp: serve_request_def rate_limit_middleware_def prometheus_middleware_def split: if_splits prod.splits)

lemma serve_requests_count:
  assumes "serve_requests window rqs (ls, counted) = (refusals, ls', counted')"
  shows "length refusals = length rqs \<and> counted' = counted @ map http_labels (let_through rqs refusals) \<and>
    filter (\<lambda>(rq, refused). refused \<noteq> None \<and> rq_path rq \<in> set SKIP_PATHS) (zip rqs refusals) = []"
  using assms
proof (induction rqs arbitrary: ls counted refusals)
  case (Cons rq rqs)
  obtain refused ls1 counted1 where 1: "serve_request window rq (ls, counted) = (refused, ls1, counted1)"
    by (cases "serve_request window rq (ls, counted)")
  obtain rest where 2: "serve_requests window rqs (ls1, counted1) = (rest, ls', counted')" "refusals = refused # rest"
    using Cons.prems 1 by (auto split: prod.splits)
  show ?case
    using Cons.IH [OF 2(1)] serve_request_counts [OF 1] 2(2) by (auto simp: let_through_def)
qed (simp add: let_through_def)

lemma http_labels_path: "fst (snd (http_labels rq)) = rq_path rq"
  by (simp add: http_labels_def request_labels_def path_template_def)

section \<open>Cross-origin settings\<close>

fun split_on :: "char \<Rightarrow> string \<Rightarrow> string list" where
  "split_on c [] = [[]]"
| "split_on c (x # xs) =
     (if x = c then [] # split_on c xs
      else case split_on c xs of [] \<Rightarrow> [[x]] | w # ws \<Rightarrow> (x # w) # ws)"

definition is_space :: "char \<Rightarrow> bool" where
  \<comment> \<open>\<open>str.isspace\<close> of the characters up to 255\<close>
  "is_space c \<longleftrightarrow> (of_char c :: nat) \<in> {9, 10, 11, 12, 13, 28, 29, 30, 31, 32, 133, 160}"

definition strip :: "string \<Rightarrow> string" where
  "strip w = rev (dropWhile is_space (rev (dropWhile is_space w)))"

definition cors_origins_list :: "string \<Rightarrow> string list" where
  "cors_origins_list cors_origins = filter (\<lambda>w. w \<noteq> []) (map strip (split_on (CHR '','') cors_origins))"

definition cors_options :: "string \<Rightarrow> string list \<times> bool" where
  \<comment> \<open>\<open>allow_origins\<close> and \<open>allow_credentials\<close>\<close>
  "cors_options cors_origins =
     (let origins = cors_origins_list cors_origins in (origins, ''*'' \<notin> set origins))"

lemma split_on_word: "c \<notin> set w \<Longrightarrow> split_on c w = [w]"
  by (induction w) auto

lemma split_on_append: "c \<notin> set w \<Longrightarrow> split_on c (w @ c # rest) = w # split_on c rest"
  by (induction w) auto

lemma strip_blank: "is_space c \<Longrightarrow> strip (c # w) = strip w"
  by (simp add: strip_def)

lemma split_on_nonempty: "split_on c w \<noteq> []"
  by (induction w) (simp_all split: list.split)

lemma cors_round_trip:
  assumes "\<forall>w\<in>set origins. w \<noteq> [] \<and> CHR '','' \<notin> set w \<and> strip w = w"
  shows "cors_origins_list (join_comma origins) = origins"
  using assms
proof (induction origins rule: join_comma.induct)
  case 1
  show ?case by (simp add: cors_origins_list_def strip_def)
next
  case (2 w)
  then show ?case by (simp add: cors_origins_list_def split_on_word)
next
  case (3 w v ws)
  then have IH: "cors_origins_list (join_comma (v # ws)) = v # ws" by simp
  let ?rest = "join_comma (v # ws)"
  have blank: "is_space (CHR '' '')" by (simp add: is_space_def)
  obtain u us where rest: "split_on (CHR '','') ?rest = u # us"
    using split_on_nonempty by (metis neq_Nil_conv)
  then have "split_on (CHR '','') (CHR '' '' # ?rest) = (CHR '' '' # u) # us" by simp
  moreover have "filter (\<lambda>w. w \<noteq> []) (map strip (u # us)) = v # ws" using IH rest by (simp add: cors_origins_list_def)
  ultimately have "filter (\<lambda>w. w \<noteq> []) (map strip (split_on (CHR '','') (CHR '' '' # ?rest))) = v # ws"
    by (simp add: strip_blank [OF blank])
  then show ?case
    using 3(2) split_on_append [of "CHR '',''" w "CHR '' '' # ?rest"] by (simp add: cors_origins_list_def)
qed

section \<open>Clients opened when they are needed\<close>

text \<open>
  The connections a process has made, counted from 0: the one it holds, those the peer has closed
  and those it has closed itself.
\<close>

record clients =
  held_client :: "nat option"
  made :: nat
  dropped :: "nat list"
  shut :: "nat list"

definition no_clients :: clients where
  "no_clients = \<lparr>held_client = None, made = 0, dropped = [], shut = []\<rparr>"

definition connect :: "bool \<Rightarrow> clients \<Rightarrow> nat option \<times> clients" where
  "connect up st = (if up then (Some (made st), st\<lparr>held_client := Some (made st), made := made st + 1\<rparr>) else (None, st))"

definition get_connection :: "bool \<Rightarrow> clients \<Rightarrow> nat option \<times> clients" where
  "get_connection up st =
     (case held_client st of
        None \<Rightarrow> connect up st
      | Some c \<Rightarrow> if c \<in> set (dropped st) then connect up st else (Some c, st))"

definition close_connection :: "clients \<Rightarrow> clients" where
  "close_connection st =
     (case held_client st of None \<Rightarrow> st | Some c \<Rightarrow> st\<lparr>held_client := None, shut := c # shut st\<rparr>)"

text \<open>The Redis client connects by itself, so making it does not fail, and it is never replaced.\<close>

definition get_redis :: "bool \<Rightarrow> clients \<Rightarrow> nat option \<times> clients" where
  "get_redis up st = (case held_client st of None \<Rightarrow> connect True st | Some c \<Rightarrow> (Some c, st))"

definition close_redis :: "clients \<Rightarrow> clients" where
  "close_redis st =
     (case held_client st of None \<Rightarrow> st | Some c \<Rightarrow> st\<lparr>held_client := None, shut := c # shut st\<rparr>)"

definition open_clients :: "clients \<Rightarrow> nat set" where
  "open_clients st = {..<made st} - set (dropped st) - set (shut st)"

definition clients_ok :: "clients \<Rightarrow> bool" where
  \<comment> \<open>no connection is open but the one held\<close>
  "clients_ok st \<longleftrightarrow> open_clients st \<subseteq> set_option (held_client st) \<and> set_option (held_client st) \<subseteq> {..<made st} \<and>
     set (dropped st) \<union> set (shut st) \<subseteq> {..<made st} \<and> set_option (held_client st) \<inter> set (shut st) = {}"

text \<open>The contract of such a client: what is got is the one open connection, and closing leaves none.\<close>

locale lazy_client =
  fixes get :: "bool \<Rightarrow> clients \<Rightarrow> nat option \<times> clients" and close :: "clients \<Rightarrow> clients"
  assumes get_ok: "clients_ok st \<Longrightarrow> clients_ok (snd (get up st))"
    and got: "get up st = (Some c, st') \<Longrightarrow> held_client st' = Some c"
    and keeps: "held_client st = Some c \<Longrightarrow> c \<notin> set (dropped st) \<Longrightarrow> get up st = (Some c, st)"
    and close_ok: "clients_ok st \<Longrightarrow> clients_ok (close st)"
    and closed: "held_client (close st) = None"
begin

lemma none_left: "clients_ok st \<Longrightarrow> open_clients (close st) = {}"
  using close_ok [of st] closed [of st] by (simp add: clients_ok_def)

lemma one_open: "clients_ok st \<Longrightarrow> get up st = (Some c, st') \<Longrightarrow> open_clients st' \<subseteq> {c}"
  using get_ok [of st up] got [of up st c st'] by (simp add: clients_ok_def)

lemma used_again:
  assumes "get up st = (Some c, st')" "c \<notin> set (dropped st')"
  shows "get up' st' = (Some c, st')"
  by (rule keeps [OF got [OF assms(1)] assms(2)])

end

lemma connect_ok:
  assumes "clients_ok st" "held_client st = None \<or> set_option (held_client st) \<subseteq> set (dropped st)"
  shows "clients_ok (snd (connect up st))"
proof -
  have "open_clients st = {}" using assms by (auto simp: clients_ok_def open_clients_def)
  then have "x \<in> set (dropped st) \<union> set (shut st)" if "x < made st" for x
    using that by (auto simp: open_clients_def)
  then have "open_clients (st\<lparr>held_client := Some (made st), made := made st + 1\<rparr>) \<subseteq> {made st}"
    unfolding open_clients_def by (clarsimp simp: less_Suc_eq) blast
  moreover have "made st \<notin> set (shut st)" "set (dropped st) \<union> set (shut st) \<subseteq> {..<Suc (made st)}"
    using assms(1) by (auto simp: clients_ok_def)
  ultimately show ?thesis using assms(1) by (simp add: connect_def clients_ok_def)
qed

lemma close_clients_ok:
  assumes "clients_ok st" "held_client st = Some c"
  shows "clients_ok (st\<lparr>held_client := None, shut := c # shut st\<rparr>)"
  using assms by (auto simp: clients_ok_def open_clients_def)

interpretation broker_client: lazy_client get_connection close_connection
  by unfold_locales
    (auto simp: get_connection_def close_connection_def connect_def connect_ok [of _ True, unfolded connect_def, simplified]
      close_clients_ok split: option.splits if_splits)

interpretation redis_client: lazy_client get_redis close_redis
  by unfold_locales
    (auto simp: get_redis_def close_redis_def connect_def connect_ok [of _ True, unfolded connect_def, simplified]
      close_clients_ok split: option.splits if_splits)

section \<open>The live stream of a WebSocket\<close>

text \<open>
  What the polls of the subscription give, None where there was nothing in time; the stream is what
  they give until the client is gone (\<open>delivered\<close> is False), and nothing without live events.
\<close>

definition event_stream :: "bool \<Rightarrow> json option list \<Rightarrow> json list" where
  "event_stream redis_events_enabled polls = (if \<not> redis_events_enabled then [] else List.map_filter id polls)"

definition ws_stream :: "bool \<Rightarrow> int option \<Rightarrow> (string \<Rightarrow> bool) \<Rightarrow> (json \<Rightarrow> bool) \<Rightarrow> json option list \<Rightarrow> int option \<times> json list" where
  \<comment> \<open>the close code of a refused connection and the frames sent\<close>
  "ws_stream redis_events_enabled user_id allowed sendable polls =
     (case ws_events user_id allowed of
        Closed code \<Rightarrow> (Some code, [])
      | Streaming \<Rightarrow> (None, takeWhile sendable (event_stream redis_events_enabled polls)))"

lemma ws_stream_refused:
  "user_id = None \<or> \<not> allowed (show_int (the user_id)) \<Longrightarrow> snd (ws_stream enabled user_id allowed sendable polls) = []"
  by (auto simp: ws_stream_def ws_events_def split: option.split)

lemma ws_stream_all:
  "user_id = Some uid \<Longrightarrow> allowed (show_int uid) \<Longrightarrow>
   ws_stream True user_id allowed (\<lambda>_. True) polls = (None, List.map_filter id polls)"
  by (simp add: ws_stream_def ws_events_def event_stream_def)

section \<open>The depth of the queue\<close>

definition get_queue_depth :: "bool \<Rightarrow> nat option \<Rightarrow> nat option" where
  \<comment> \<open>whether the broker can be reached, and the count it declares if the queue exists\<close>
  "get_queue_depth reached declared = (if reached then declared else None)"

end
