(* ===== verification/Task_Refinement.thy ===== *)
theory Task_Refinement
  imports Task_Relations
begin

text \<open>
  The platform refines the machine of a single task. The machine knows the transition table and
  nothing else: a task comes into being as \<open>created\<close>, moves along the table, and may be deleted
  once it has ended. Every step of the platform takes every task through steps of the machine,
  or leaves it where it is.
\<close>

section \<open>The machine\<close>

inductive task_step :: "task_status option \<Rightarrow> task_status option \<Rightarrow> bool" where
  born: "task_step None (Some Created)"
| moves: "can_transition old new \<Longrightarrow> task_step (Some old) (Some new)"
| purged: "st \<in> set TERMINAL \<Longrightarrow> task_step (Some st) None"

inductive_simps task_step_from_None [simp]: "task_step None x"
inductive_simps task_step_from_Some [simp]: "task_step (Some st) x"

abbreviation task_run :: "task_status option \<Rightarrow> task_status option \<Rightarrow> bool" where
  "task_run \<equiv> task_step\<^sup>*\<^sup>*"

definition refines :: "db \<Rightarrow> db \<Rightarrow> bool" where
  \<comment> \<open>every task goes through a run of the machine\<close>
  "refines s s' \<longleftrightarrow> (\<forall>j. task_run (status_of j s) (status_of j s'))"

lemma one_move: "can_transition old new \<Longrightarrow> task_run (Some old) (Some new)"
  by (rule r_into_rtranclp) simp

lemma refines_trans: "refines s s1 \<Longrightarrow> refines s1 s2 \<Longrightarrow> refines s s2"
  unfolding refines_def using rtranclp_trans [of task_step] by blast

lemma refines_same: "(\<And>j. status_of j s' = status_of j s) \<Longrightarrow> refines s s'"
  by (simp add: refines_def)

lemma refines_frame: "tasks s' = tasks s \<Longrightarrow> refines s s'"
  by (rule refines_same) (simp add: status_of_def get_task_row_def)

lemma refines_moves:
  assumes "\<And>j. status_of j s' = status_of j s \<or>
    (\<exists>old new. status_of j s = Some old \<and> status_of j s' = Some new \<and> can_transition old new)"
  shows "refines s s'"
  unfolding refines_def
proof
  fix j
  from assms [of j] show "task_run (status_of j s) (status_of j s')"
    using one_move by auto
qed

section \<open>The operations\<close>

lemma refines_created:
  assumes "integrity s" "create_task cfg spec s = Ok t s'"
  shows "refines s s'"
proof -
  have ok: "creation_ok cfg spec s t s'"
    using create_task_outcome [OF assms(1), where cfg = cfg and spec = spec] assms(2) by simp
  have "get_task_row (seq_task s) s = None"
    using assms(1) find_row_None_iff [of t_id "seq_task s" "tasks s"]
    by (auto simp: get_task_row_def integrity_but_def keys_ok_def)
  then have new: "status_of (seq_task s) s = None" by (simp add: status_of_def)
  have "t_status t = Created \<or> can_transition Created (t_status t)"
    using ok by (auto simp: creation_ok_def start_status_def can_transition_def split: option.split)
  then have "task_run (Some Created) (Some (t_status t))" using one_move by auto
  moreover have "task_run None (Some Created)" by (rule r_into_rtranclp) simp
  ultimately have "task_run None (Some (t_status t))" by (metis rtranclp_trans)
  then show ?thesis
    using ok new by (auto simp: refines_def creation_ok_def status_of_def)
qed

lemma queued_transitions:
  "t_status t \<in> set RETRYABLE \<Longrightarrow> can_transition (t_status t) Queued"
  by (auto simp: RETRYABLE_def can_transition_def)

lemma refines_retried: "refines s (final_state (manual_retry cfg tid s))"
proof (cases "\<exists>t. get_task s tid = Some t \<and> t_status t \<in> set RETRYABLE")
  case True
  then obtain t where t: "get_task s tid = Some t" "t_status t \<in> set RETRYABLE" by blast
  obtain s' where s': "manual_retry cfg tid s = Ok (Some (queued_row t (db_now s))) s'"
    "puts_in_queue cfg t (reattempt_message t) s s'"
    by (rule manual_retry_effect [OF t])
  have row: "get_task_row (t_id t) s = Some t" using t(1) get_task_row_SomeD by (fastforce simp: get_task_def)
  have "refines s s'"
    by (rule refines_moves)
      (use s'(2) row queued_transitions [OF t(2)] in \<open>auto simp: puts_in_queue_def status_of_def queued_row_def\<close>)
  then show ?thesis using s'(1) by simp
qed (auto simp: manual_retry_def refines_same split: option.split)

lemma refines_cancelled: "refines s (final_state (cancel_task cfg tid s))"
proof (cases "\<exists>t. get_task s tid = Some t \<and> t_status t \<in> set CANCELABLE")
  case True
  then obtain t where t: "get_task s tid = Some t" "t_status t \<in> set CANCELABLE" by blast
  obtain t' s' where s': "cancel_task cfg tid s = Ok (Some t') s'"
    "\<And>j. status_of j s' = cancel_spec s tid Cancelled j" "outbox s' = outbox s"
    by (rule cancel_task_effect [OF t]) blast
  have "status_of tid s = Some (t_status t)" using t(1) by (simp add: status_of_def get_task_def)
  moreover have "can_transition (t_status t) Cancelled" using t(2) by (auto simp: CANCELABLE_def can_transition_def)
  moreover have "can_transition Created Cancelled" by (simp add: can_transition_def)
  ultimately have "refines s s'"
    by (intro refines_moves) (auto simp: s'(2) cancel_spec_def dest: blocked_below_Created)
  then show ?thesis using s'(1) by simp
qed (auto simp: cancel_task_def refines_same split: option.split)

interpretation refining: task_relation cfg refines for cfg
  by unfold_locales
    (simp_all add: republish_def refines_frame refines_created refines_retried refines_cancelled db_simps, rule refines_trans)

section \<open>The passes, claims and finishes\<close>

lemma refines_takes_to_queue:
  assumes "takes_to_queue cfg becomes ts s s'" "\<And>t t'. becomes t t' \<Longrightarrow> t_status t' = Queued"
    and "\<And>t. t \<in> set ts \<Longrightarrow> status_of (t_id t) s = Some (t_status t) \<and> (t_status t = Queued \<or> can_transition (t_status t) Queued)"
  shows "refines s s'"
proof (rule refines_moves)
  fix j
  show "status_of j s' = status_of j s \<or>
    (\<exists>old new. status_of j s = Some old \<and> status_of j s' = Some new \<and> can_transition old new)"
  proof (cases "j \<in> t_id ` set ts")
    case True
    then obtain t where t: "t \<in> set ts" "j = t_id t" by auto
    then obtain t' where "get_task_row j s' = Some t'" "becomes t t'" using assms(1) by (auto simp: takes_to_queue_def)
    then have "status_of j s' = Some Queued" using assms(2) by (simp add: status_of_def)
    then show ?thesis using assms(3) [OF t(1)] t(2) by auto
  next
    case False
    then show ?thesis using assms(1) by (simp add: takes_to_queue_def status_of_def)
  qed
qed

lemma selected_status:
  assumes "integrity s" "t \<in> set (order_limit key n (filter P (tasks s)))"
  shows "status_of (t_id t) s = Some (t_status t) \<and> task_ok t \<and> P t"
proof -
  have t: "t \<in> set (tasks s)" "P t" using assms(2) set_order_limit by fastforce+
  then show ?thesis
    using assms(1) find_row_distinct [of t_id "tasks s" t] integrity_distinct [OF assms(1)]
    by (simp add: status_of_def get_task_row_def integrity_but_def)
qed

lemma refines_passes:
  assumes "integrity s"
  shows "refines s (commit s (requeue_due_tasks cfg limit s))" "refines s (commit s (requeue_dlq_tasks cfg limit s))"
    and "refines s (commit s (recover_stuck_tasks cfg limit s))"
proof -
  have queued: "t_status t' = Queued" if "requeued_row t t'" for t t'
    using that by (auto simp: requeued_row_def queued_row_def)
  obtain s1 where s1: "requeue_due_tasks cfg limit s = Ok (length (due_tasks limit s)) s1"
    "takes_to_queue cfg requeued_row (due_tasks limit s) s s1"
    by (rule requeue_due_tasks_effect [OF assms])
  have "refines s s1"
    by (rule refines_takes_to_queue [OF s1(2) queued])
      (auto simp: due_tasks_def due_def DUE_STATUSES_def can_transition_def dest!: selected_status [OF assms])
  then show "refines s (commit s (requeue_due_tasks cfg limit s))" by (simp add: s1(1))
  obtain s2 where s2: "recover_stuck_tasks cfg limit s = Ok (length (expired_tasks limit s)) s2"
    "takes_to_queue cfg requeued_row (expired_tasks limit s) s s2"
    by (rule recover_stuck_tasks_effect [OF assms])
  have "refines s s2"
    by (rule refines_takes_to_queue [OF s2(2) queued])
      (auto simp: expired_tasks_def stuck_def STUCK_STATUSES_def can_transition_def dest!: selected_status [OF assms])
  then show "refines s (commit s (recover_stuck_tasks cfg limit s))" by (simp add: s2(1))
  show "refines s (commit s (requeue_dlq_tasks cfg limit s))"
  proof (cases "dlq_retry_enabled cfg")
    case True
    obtain s3 where s3: "requeue_dlq_tasks cfg limit s = Ok (length (dlq_due_tasks cfg limit s)) s3"
      "takes_to_queue cfg dlq_row (dlq_due_tasks cfg limit s) s s3"
      by (rule requeue_dlq_tasks_effect [OF assms True])
    have "refines s s3"
      by (rule refines_takes_to_queue [OF s3(2)])
        (auto simp: dlq_row_def queued dlq_due_tasks_def dlq_due_def can_transition_def dest!: selected_status [OF assms])
    then show ?thesis by (simp add: s3(1))
  qed (simp add: requeue_dlq_tasks_def)
qed

lemma refines_claim: "integrity s \<Longrightarrow> refines s (final_state (claim cfg w tid s))"
  by (cases rule: claim_cases [of s cfg w tid])
    (auto simp: refines_frame status_of_def can_transition_def split: if_splits intro!: refines_moves)

lemma running_status: "still_running obj s \<Longrightarrow> status_of (t_id obj) s = Some Running"
  by (auto simp: still_running_def status_of_def split: option.splits)

lemma refines_closed: "refines s (set_attempt aid f (s\<lparr>ticks := n\<rparr>))"
  by (rule refines_frame) (simp add: set_attempt_def)

lemma refines_success:
  assumes "integrity s" "held obj"
  shows "refines s (commit s (record_success cfg obj aid r s))"
proof (cases "still_running obj s \<and> aid \<in> a_id ` set (attempts s)")
  case True
  obtain obj' s' where s': "record_success cfg obj aid r s = Ok obj' s'"
    "\<And>j. status_of j s' = (if j = t_id obj then Some Success
        else if unblocked_by s (t_id obj) j then Some Queued else status_of j s)"
    by (rule record_success_effect [OF assms, of aid cfg r]) (use True in auto)
  have "status_of (t_id obj) s = Some Running" using True running_status by simp
  then have "refines s s'"
    by (intro refines_moves) (auto simp: s'(2) unblocked_by_def can_transition_def)
  then show ?thesis using s'(1) by simp
next
  case False
  let ?s = "s\<lparr>ticks := Suc (ticks s)\<rparr>"
  let ?f = "\<lambda>a. a\<lparr>a_status := ASuccess, a_result := Some r, a_finished_at := Some (clock s (ticks s))\<rparr>"
  show ?thesis
    by (cases rule: close_attempt_cases [of aid ?f ?s])
      (use False refines_closed refines_frame in \<open>simp_all add: record_success_def now_utc_def\<close>)
qed

lemma refines_failure:
  assumes "integrity s" "held obj"
  shows "refines s (commit s (record_failure cfg obj aid e retryable s))"
proof (cases "still_running obj s \<and> aid \<in> a_id ` set (attempts s)")
  case True
  obtain obj' s' t where s': "record_failure cfg obj aid e retryable s = Ok obj' s'"
    "get_task_row (t_id obj) s' = Some t" "failed_row cfg obj e retryable s t"
    "\<And>j. j \<noteq> t_id obj \<Longrightarrow> status_of j s' =
      (if failure_status obj retryable \<noteq> RetryScheduled \<and> blocked_below s (t_id obj) j
       then Some Cancelled else status_of j s)"
    by (rule record_failure_effect [OF assms, of aid cfg e retryable]) (use True in auto)
  have "status_of (t_id obj) s = Some Running" using True running_status by simp
  moreover have "status_of (t_id obj) s' = Some (failure_status obj retryable)"
    using s'(2,3) by (simp add: status_of_def failed_row_def)
  moreover have "can_transition Running (failure_status obj retryable)"
    by (simp add: failure_status_def can_transition_def)
  moreover have "can_transition Created Cancelled" by (simp add: can_transition_def)
  ultimately have "status_of j s' = status_of j s \<or>
      (\<exists>old new. status_of j s = Some old \<and> status_of j s' = Some new \<and> can_transition old new)" for j
    using s'(4) [of j] blocked_below_Created [of s "t_id obj" j] by (cases "j = t_id obj") auto
  then have "refines s s'" by (rule refines_moves)
  then show ?thesis using s'(1) by simp
next
  case False
  let ?s = "s\<lparr>ticks := Suc (ticks s)\<rparr>" and ?e = "take 2000 e"
  let ?f = "\<lambda>a. a\<lparr>a_status := AFailed, a_error_message := Some ?e, a_finished_at := Some (clock s (ticks s))\<rparr>"
  show ?thesis
    by (cases rule: close_attempt_cases [of aid ?f ?s])
      (use False refines_closed refines_frame in \<open>simp_all add: record_failure_def now_utc_def Let_def case_prod_beta\<close>)
qed

lemma refines_finish: "integrity s \<Longrightarrow> held obj \<Longrightarrow> refines s (commit s (finish cfg obj aid outcome s))"
  by (cases outcome) (simp_all add: finish_def refines_success refines_failure)

section \<open>Every step of the platform\<close>

lemma refines_committed: "committed cfg s s' \<Longrightarrow> integrity s \<Longrightarrow> refines s s'"
proof (induction rule: committed.induct)
  case (purge s limit_arg)
  show ?case
    unfolding refines_def
  proof
    fix j
    show "task_run (status_of j s) (status_of j (snd (purge_old_data cfg limit_arg s)))"
      using purged_status [OF purge, of j cfg limit_arg]
      by (elim disjE conjE bexE) (simp, simp add: r_into_rtranclp)
  qed
next
  case (relay online broker limit s n sent s')
  then show ?case by (intro refines_frame relay_leaves_tasks)
next
  case (account api s s')
  then show ?case by (intro refines_frame) (simp add: work_tables [OF work_committed])
next
  case (renew s tid w lease_secs)
  show ?case by (rule refines_same) (rule renewal_keeps_status)
next
  case (time_passes s t c)
  show ?case by (rule refines_frame) simp
qed (simp_all add: refining.routes refining.orphans refines_passes refines_frame webhooks_leave_tasks heartbeat_leaves_tasks)

lemma step_refines:
  assumes "step cfg p p'" "integrity (fst p)" "\<forall>(obj, aid)\<in>set (snd p). held obj"
  shows "refines (fst p) (fst p')"
  using assms
proof (induction rule: step.induct)
  case (claimed w tid s obj aid s' running)
  then show ?case using refines_claim [of s cfg w tid] by simp
next
  case (finished obj aid running s outcome)
  then show ?case by (auto intro: refines_finish)
qed (auto simp: refines_committed refines_frame rollback_to_def)

end
