(* ===== verification/Sample.thy ===== *)
theory Sample
  imports Cascade_Spec Integrity Webhooks
begin

text \<open>
  A small database on which the hypotheses of the properties hold: task 1 runs, 2 waits for 1
  and 3 for 2, task 4 is queued, 5 is a dead letter due for its next cycle, 6 waits for a
  retry that is due, 7 has succeeded long ago.
\<close>

definition sample_task :: "int \<Rightarrow> task_status \<Rightarrow> int \<Rightarrow> task" where
  "sample_task i st n =
     \<lparr>t_id = i, t_task_type = ''echo'', t_payload = JObj [(''message'', JStr ''hi'')], t_status = st,
      t_priority = Normal, t_max_attempts = 3, t_attempts = n, t_idempotency_key = None,
      t_scheduled_at = (if st = RetryScheduled then Some 50 else None), t_started_at = None,
      t_finished_at = (if st \<in> set TERMINAL then Some 10 else None),
      t_lease_owner = (if st = Running then Some ''w1'' else None),
      t_lease_expires_at = (if st = Running then Some 60 else None), t_result = None,
      t_last_error = None, t_created_by = None, t_batch_id = Some 1, t_dlq_requeue_count = 0,
      t_dlq_retry_at = (if st = DeadLetter then Some 40 else None), t_created_at = 1, t_updated_at = 1\<rparr>"

definition sample_attempt :: "int \<Rightarrow> int \<Rightarrow> int \<Rightarrow> attempt_status \<Rightarrow> attempt" where
  "sample_attempt i tid n st =
     \<lparr>a_id = i, a_task_id = tid, a_attempt_number = n, a_worker_id = Some ''w1'', a_status = st,
      a_error_message = None, a_result = None, a_started_at = Some 5, a_finished_at = None\<rparr>"

fun sample_events :: "int \<Rightarrow> int \<Rightarrow> task_status \<Rightarrow> (string \<times> task_status) list \<Rightarrow> event list" where
  "sample_events i tid st [] = []"
| "sample_events i tid st ((ev, new) # steps) =
     \<lparr>e_id = i, e_task_id = tid, e_event_type = ev, e_old_status = Some st, e_new_status = new,
      e_details = None, e_created_at = 1\<rparr> # sample_events (i + 1) tid new steps"

definition sample_db :: db where
  "sample_db =
     \<lparr>tasks = [sample_task 1 Running 1, sample_task 2 Created 0, sample_task 3 Created 0,
        sample_task 4 Queued 0, sample_task 5 DeadLetter 1, sample_task 6 RetryScheduled 1,
        sample_task 7 Success 1],
      attempts = [sample_attempt 1 1 1 ARunning, sample_attempt 2 5 1 AFailed,
        sample_attempt 3 6 1 AFailed, sample_attempt 4 7 1 ASuccess],
      events = sample_events 1 1 Created [(''task.queued'', Queued), (''task.running'', Running)] @
        sample_events 3 4 Created [(''task.queued'', Queued)] @
        sample_events 4 5 Created [(''task.queued'', Queued), (''task.running'', Running), (''task.dead_lettered'', DeadLetter)] @
        sample_events 7 6 Created [(''task.queued'', Queued), (''task.running'', Running), (''task.retry_scheduled'', RetryScheduled)] @
        sample_events 10 7 Created [(''task.queued'', Queued), (''task.running'', Running), (''task.succeeded'', Success)],
      outbox = [\<lparr>o_id = 1, o_routing_key = ''task_created'', o_payload = task_message (sample_task 4 Queued 0),
        o_status = OUTBOX_PENDING, o_attempts = 0, o_processed_at = None, o_last_error = None\<rparr>],
      dependencies = [\<lparr>d_parent = 1, d_child = 2\<rparr>, \<lparr>d_parent = 2, d_child = 3\<rparr>],
      subscriptions = [\<lparr>s_id = 1, s_name = ''all'', s_url = ''http://example.org/hook'', s_secret = None,
        s_events = [''*''], s_is_active = True\<rparr>],
      deliveries = [\<lparr>w_id = 1, w_subscription_id = 1, w_event_type = ''task.queued'', w_task_id = Some 4,
        w_payload = JObj [(''event'', JStr ''task.queued'')], w_status = DELIVERY_PENDING, w_attempts = 1,
        w_next_retry_at = 20, w_last_error = None\<rparr>],
      batches = [\<lparr>b_id = 1, b_name = ''nightly'', b_created_by = None\<rparr>],
      workers = [\<lparr>k_id = 1, k_worker_id = ''w1'', k_hostname = ''host'', k_pid = 7, k_status = WORKER_ALIVE,
        k_started_at = 1, k_last_heartbeat_at = 2\<rparr>],
      audit_logs = [],
      users = [\<lparr>u_id = 1, u_username = ''admin'', u_password_hash = ''#admin'', u_role = ''admin'', u_active = True,
        u_last_login_at = None\<rparr>],
      refresh_tokens = [], api_tokens = [], seq_task = 8, seq_attempt = 5, seq_event = 13, seq_outbox = 2, seq_delivery = 2,
      seq_subscription = 2, seq_batch = 2, seq_worker = 2, seq_audit = 1, seq_user = 2,
      seq_refresh = 1, seq_token = 1, db_now = 100,
      clock = (\<lambda>n. 100 + int n), ticks = 0\<rparr>"

lemmas sample_defs = sample_db_def sample_task_def sample_attempt_def

lemma sample_integrity: "integrity sample_db"
  by code_simp

lemma sample_rows:
  "get_task_row 1 sample_db = Some (sample_task 1 Running 1)"
  "get_task_row 4 sample_db = Some (sample_task 4 Queued 0)"
  "get_task_row 5 sample_db = Some (sample_task 5 DeadLetter 1)"
  by (simp_all add: get_task_row_def find_row_def sample_defs)

lemma sample_held: "sample_task 1 Running 1 = t \<Longrightarrow> t_status t = Running \<and> t_finished_at t = None"
  by (auto simp: sample_task_def)

end
