(* ===== verification/Task_Properties.thy ===== *)
theory Task_Properties
  imports System Sample
begin

text \<open>
  The properties of the tasks as their clients see them: creation with dependencies, manual
  operations, bulk operations, batches and refused requests. Each stands on the lemmas
  of the component it is about; its witness applies it to the sample database.
\<close>

section \<open>A small reachable state\<close>

definition sample_body :: task_create where
  "sample_body =
     \<lparr>tc_task_type = ''echo'', tc_payload = JObj [], tc_priority = High, tc_max_attempts = None,
      tc_idempotency_key = Some ''k1'', tc_schedule_at = None, tc_depends_on = None\<rparr>"

definition sample_start :: db where
  "sample_start = snd (create_task_route default_settings True (1, ''admin'') None sample_body (empty_db 0 (\<lambda>n. int n)))"

lemma sample_start_reachable: "reachable default_settings (sample_start, [])"
  unfolding sample_start_def
  by (rule reachable.further [OF reachable.start step.transaction [OF committed.create]])

lemma sample_start_outbox: "map o_status (outbox sample_start) = [OUTBOX_PENDING]"
  by code_simp

section \<open>Creation\<close>

definition sample_spec :: task_spec where
  "sample_spec =
     \<lparr>c_task_type = ''echo'', c_payload = JObj [], c_priority = High, c_max_attempts = None,
      c_idempotency_key = Some ''k9'', c_created_by = None, c_schedule_at = None, c_batch_id = Some 1,
      c_depends_on = Some [1, 2]\<rparr>"

text \<open>C15: creating a task fails only for an idempotency key that is taken, a batch that does not
  exist, or a dependency that is missing, never for a cycle. Otherwise the new row has what was
  asked for, no attempts, and the status \<open>created\<close> if it has parents, \<open>scheduled\<close> if its time is to
  come and \<open>queued\<close> otherwise; only a queued task is published, its dependencies are the parents
  without repetition, and no other task changes.\<close>

theorem creation_outcome:
  assumes "integrity s"
  shows "case create_task cfg spec s of
      Raise e s' \<Rightarrow> e = IntegrityError \<and> insert_refused spec s \<or>
        depends spec \<noteq> [] \<and> (\<exists>c. e = TaskConflictError c \<and> c \<noteq> CycleDetected)
    | Ok t s' \<Rightarrow> \<not> insert_refused spec s \<and> creation_ok cfg spec s t s'"
  by (rule create_task_outcome [OF assms])

lemma sample_spec_created: "raised (create_task default_settings sample_spec sample_db) = None"
  by code_simp

theorem creation_outcome_witness:
  "\<exists>t s'. create_task default_settings sample_spec sample_db = Ok t s' \<and>
    creation_ok default_settings sample_spec sample_db t s'"
  using creation_outcome [OF sample_integrity, where cfg = default_settings and spec = sample_spec] sample_spec_created
  by (cases "create_task default_settings sample_spec sample_db") auto

text \<open>C16: the walk over the ancestors refuses new parents exactly when the task is among them or
  their ancestors, whatever the graph is, and it always ends.\<close>

theorem cycle_check:
  "raised (ensure_no_cycle task_id parent_ids s) = None \<longleftrightarrow> task_id \<notin> ancestors (dependencies s) parent_ids"
  by (rule ensure_no_cycle_iff)

section \<open>Manual operations\<close>

lemma manual_retry_queues:
  assumes "get_task s tid = Some t" "t_status t \<in> set RETRYABLE"
  shows "\<exists>s'. manual_retry cfg tid s = Ok (Some (queued_row t (db_now s))) s' \<and>
    puts_in_queue cfg t (reattempt_message t) s s'"
  by (rule manual_retry_effect [OF assms, of cfg]) blast

lemma manual_cancel:
  assumes "get_task s tid = Some t" "t_status t \<in> set CANCELABLE"
  shows "\<exists>t' s'. cancel_task cfg tid s = Ok (Some t') s' \<and> t_status t' = Cancelled \<and> outbox s' = outbox s \<and>
    (\<forall>j. status_of j s' =
      (if j = tid then Some Cancelled
       else if blocked_below s tid j then Some Cancelled else status_of j s))"
proof -
  have row: "status_of tid s = Some (t_status t)" using assms(1) by (simp add: status_of_def get_task_def)
  show ?thesis
    by (rule cancel_task_effect [OF assms, of cfg]) (use row in \<open>auto simp: cancel_spec_def\<close>)
qed

text \<open>C31: a manual retry of a failed, cancelled or dead task queues it again and publishes it as a
  repeated attempt, and no other task changes; the cancellation of a task that has not ended
  cancels it and exactly the blocked tasks below it, and publishes nothing; a task in any other
  status is refused by either with its status, and an unknown one is not found, without a change.\<close>

theorem manual_actions:
  "case get_task s tid of
     None \<Rightarrow> manual_retry cfg tid s = Ok None s \<and> cancel_task cfg tid s = Ok None s
   | Some t \<Rightarrow>
      (if t_status t \<in> set RETRYABLE
       then \<exists>s'. manual_retry cfg tid s = Ok (Some (queued_row t (db_now s))) s' \<and>
         puts_in_queue cfg t (reattempt_message t) s s'
       else manual_retry cfg tid s = Raise (TaskConflictError (NotRetryable (t_status t))) s) \<and>
      (if t_status t \<in> set CANCELABLE
       then \<exists>t' s'. cancel_task cfg tid s = Ok (Some t') s' \<and> t_status t' = Cancelled \<and> outbox s' = outbox s \<and>
         (\<forall>j. status_of j s' =
           (if j = tid then Some Cancelled
            else if blocked_below s tid j then Some Cancelled else status_of j s))
       else cancel_task cfg tid s = Raise (TaskConflictError (NotCancelable (t_status t))) s)"
proof (cases "get_task s tid")
  case None
  then show ?thesis by (simp add: manual_retry_def cancel_task_def)
next
  case (Some t)
  show ?thesis
    using manual_retry_queues [OF Some, of cfg] manual_cancel [OF Some, of cfg]
    by (simp add: Some) (simp add: manual_retry_def cancel_task_def Some)
qed

text \<open>A batch that is created has every task it was asked for.\<close>

definition batch_created :: "settings \<Rightarrow> string \<Rightarrow> task_spec list \<Rightarrow> int option \<Rightarrow> db \<Rightarrow> bool" where
  "batch_created cfg name specs u s \<longleftrightarrow>
     (\<forall>b made s'. create_batch cfg name specs u s = Ok (b, made) s' \<longrightarrow>
       b_name b = name \<and> b_created_by b = u \<and>
       map task_content made = map (\<lambda>spec. spec_content cfg (batch_spec (b_id b) u spec)) specs \<and>
       (\<forall>t\<in>set made. get_task_row (t_id t) s' = Some t) \<and>
       (\<forall>j t. get_task_row j s = Some t \<longrightarrow> get_task_row j s' = Some t))"

text \<open>C35: batches and bulk actions account for every task. A batch that is created has every task it
  was asked for, in order, in the batch and with its creator, all of them rows of the database, and
  no other task changes; a batch over the limit is refused. A bulk retry or cancellation never fails
  as a whole: every id asked for, with its repetitions, is either among the tasks returned or among
  the conflicts. The cancellation of a batch ends every task of it: each is counted as cancelled or
  listed as a conflict, and after it all of them are in a terminal status; an unknown batch is
  refused. The database stays sound.\<close>

theorem bulk_actions_account:
  assumes "integrity s"
  shows "(if length specs > batch_max_tasks cfg
      then create_batch cfg name specs u s = Raise (BatchLimitError (length specs) (batch_max_tasks cfg)) s
      else batch_created cfg name specs u s) \<and>
    (\<exists>done conflicts s'. bulk_retry cfg ids s = Ok (done, conflicts) s' \<and> integrity s' \<and>
      mset (map t_id done) + mset (map fst conflicts) = mset ids) \<and>
    (\<exists>done conflicts s'. bulk_cancel cfg ids s = Ok (done, conflicts) s' \<and> integrity s' \<and>
      mset (map t_id done) + mset (map fst conflicts) = mset ids) \<and>
    (case get_batch s bid of
       None \<Rightarrow> cancel_batch cfg bid s = Raise (TaskConflictError BatchNotFound) s
     | Some b \<Rightarrow> \<exists>n conflicts s'. cancel_batch cfg bid s = Ok (n, conflicts) s' \<and> integrity s' \<and>
         n + length conflicts = length (batch_tasks bid s) \<and> (\<forall>t\<in>set (batch_tasks bid s). ended (t_id t) s'))"
    (is "?created \<and> ?retried \<and> ?cancelled \<and> ?batch_cancelled")
proof (intro conjI)
  have "batch_created cfg name specs u s" using create_batch_effect [OF assms] unfolding batch_created_def by blast
  then show ?created by (simp add: create_batch_def)
  show ?retried by (rule bulk_retry_accounts [OF assms])
  show ?cancelled by (rule bulk_cancel_accounts [OF assms])
  show ?batch_cancelled using cancel_batch_effect [OF assms] by (auto simp: cancel_batch_def split: option.split)
qed

lemma sample_batch_created:
  "raised (create_batch default_settings ''b'' [sample_spec\<lparr>c_idempotency_key := None\<rparr>] (Some 1) sample_db) = None"
  by code_simp

theorem bulk_actions_account_witness:
  "(\<exists>b made s'. create_batch default_settings ''b'' [sample_spec\<lparr>c_idempotency_key := None\<rparr>] (Some 1) sample_db = Ok (b, made) s' \<and>
      b_name b = ''b'' \<and> length made = 1) \<and>
   (\<exists>done conflicts s'. bulk_retry default_settings [5, 4, 99, 5] sample_db = Ok (done, conflicts) s' \<and>
      mset (map t_id done) + mset (map fst conflicts) = {#5, 4, 99, 5#}) \<and>
   (\<exists>n conflicts s'. cancel_batch default_settings 1 sample_db = Ok (n, conflicts) s' \<and> n + length conflicts = 7)"
proof -
  note account = bulk_actions_account [OF sample_integrity, where cfg = default_settings and ids = "[5, 4, 99, 5]" and bid = 1
      and name = "''b''" and u = "Some 1" and specs = "[sample_spec\<lparr>c_idempotency_key := None\<rparr>]"]
  obtain b made s' where made: "create_batch default_settings ''b'' [sample_spec\<lparr>c_idempotency_key := None\<rparr>] (Some 1) sample_db =
      Ok (b, made) s'"
    using sample_batch_created
    by (cases "create_batch default_settings ''b'' [sample_spec\<lparr>c_idempotency_key := None\<rparr>] (Some 1) sample_db") auto
  with account have b: "b_name b = ''b''" "map task_content made = map (\<lambda>spec. spec_content default_settings (batch_spec (b_id b) (Some 1) spec))
      [sample_spec\<lparr>c_idempotency_key := None\<rparr>]" by (auto simp: batch_created_def split: if_splits)
  then have "length (map task_content made) = 1" by simp
  moreover have "get_batch sample_db 1 = Some \<lparr>b_id = 1, b_name = ''nightly'', b_created_by = None\<rparr>" "length (batch_tasks 1 sample_db) = 7"
    by (simp_all add: get_batch_def batch_tasks_def table_simps sample_defs)
  ultimately show ?thesis using account made b(1) by fastforce
qed

section \<open>Requests\<close>

text \<open>C29: a request that repeats the idempotency key of a task just created is answered with
  that task and changes nothing, whatever else it asks for.\<close>

theorem repeated_request:
  assumes "integrity s" "create_task_route cfg True u ip body s = (Reply (Created201 t), s')"
    and "tc_idempotency_key body = Some k" "tc_idempotency_key body' = Some k"
  shows "create_task_route cfg True u' ip' body' s' = (Reply (Existing200 t), s')"
proof -
  obtain s1 where 1: "create_task cfg (spec_of body) s = Ok t s1" and s': "tasks s' = tasks s1"
    using assms(2) by (auto simp: create_task_route_def db_simps split: option.splits elim!: transaction.elims)
  have I: "integrity s1" using integrity_create_task [OF assms(1), of cfg "spec_of body"] 1 by simp
  have ok: "\<not> insert_refused (spec_of body) s" "creation_ok cfg (spec_of body) s t s1"
    using create_task_outcome [OF assms(1), where cfg = cfg and spec = "spec_of body"] by (simp_all add: 1)
  have key: "t_idempotency_key t = Some k"
    using ok(2) assms(3) by (simp add: creation_ok_def task_content_def spec_content_def spec_of_def)
  have row: "get_task_row (t_id t) s1 = Some t" using ok(2) by (simp add: creation_ok_def)
  have only: "r = t" if "r \<in> set (tasks s1)" "t_idempotency_key r = Some k" for r
  proof (rule ccontr)
    assume "r \<noteq> t"
    have "get_task_row (t_id r) s1 = Some r"
      using I that(1) by (simp add: get_task_row_def find_row_distinct integrity_but_def keys_ok_def)
    then have "get_task_row (t_id r) s = Some r" using ok(2) \<open>r \<noteq> t\<close> by (auto simp: creation_ok_def split: if_splits)
    then have "r \<in> set (tasks s)" by (simp add: get_task_row_SomeD)
    then have "Some k \<in> t_idempotency_key ` set (tasks s)" using that(2) by (metis image_eqI)
    with ok(1) assms(3) show False by (simp add: insert_refused_def spec_of_def)
  qed
  have "List.find (\<lambda>r. t_idempotency_key r = Some k) (tasks s') = Some t"
  proof (cases "List.find (\<lambda>r. t_idempotency_key r = Some k) (tasks s')")
    case None
    then show ?thesis using row key get_task_row_SomeD by (fastforce simp: find_None_iff s')
  next
    case (Some r)
    then have "r \<in> set (tasks s1) \<and> t_idempotency_key r = Some k" by (auto simp: find_Some_iff s')
    then show ?thesis using Some only by simp
  qed
  then show ?thesis using assms(4) by (simp add: create_task_route_def existing_task_def get_by_idempotency_key_def)
qed

theorem repeated_request_witness:
  "\<exists>t. create_task_route default_settings True (2, ''bob'') None (sample_body\<lparr>tc_priority := Low\<rparr>) sample_start =
    (Reply (Existing200 t), sample_start)"
proof -
  have "(case fst (create_task_route default_settings True (1, ''admin'') None sample_body (empty_db 0 (\<lambda>n. int n))) of
      Reply (Created201 t) \<Rightarrow> True | _ \<Rightarrow> False)"
    by code_simp
  then obtain t where "create_task_route default_settings True (1, ''admin'') None sample_body (empty_db 0 (\<lambda>n. int n)) =
      (Reply (Created201 t), sample_start)"
    by (auto simp: sample_start_def prod_eq_iff split: response.splits created.splits)
  from repeated_request [OF _ this] show ?thesis by (auto simp: sample_body_def integrity_empty)
qed

end
