(* ===== verification/Telemetry.thy ===== *)
theory Telemetry
  imports Processes
begin

text \<open>
  What the operations tell the outside beside the database: the Prometheus metrics they count
  (\<open>app/core/metrics.py\<close>) and the live events they publish after their commit
  (\<open>app/services/events.py\<close>), for the passes of the coordinator, the message handler, the webhook
  dispatcher, the retention turn and the routes. The metrics are counted before the commit, the
  events are published after it. An event shows the session's object, which a commit does not
  expire (\<open>expire_on_commit=False\<close>).
\<close>

section \<open>Metrics\<close>

record metrics =
  tasks_created_total :: nat
  attempts_total :: "string \<Rightarrow> nat"
  retries_total :: nat
  lease_timeouts_total :: nat
  task_duration_seconds :: "(string \<times> time) list" \<comment> \<open>task type and duration of every observation\<close>
  webhook_deliveries_total :: "string \<Rightarrow> nat"
  retention_deleted_total :: "string \<Rightarrow> nat"

definition no_metrics :: metrics where
  "no_metrics =
     \<lparr>tasks_created_total = 0, attempts_total = (\<lambda>_. 0), retries_total = 0, lease_timeouts_total = 0,
      task_duration_seconds = [], webhook_deliveries_total = (\<lambda>_. 0), retention_deleted_total = (\<lambda>_. 0)\<rparr>"

definition inc :: "string \<Rightarrow> nat \<Rightarrow> (string \<Rightarrow> nat) \<Rightarrow> string \<Rightarrow> nat" where
  "inc label n counter = counter(label := counter label + n)"

text \<open>The metrics of a process and the frames it has put on the channel.\<close>

type_synonym telemetry = "metrics \<times> json list"

text \<open>Whether events are enabled, and whether Redis takes them.\<close>

type_synonym channel = "bool \<times> bool"

definition schedule_task_events :: "channel \<Rightarrow> string \<Rightarrow> task list \<Rightarrow> telemetry \<Rightarrow> telemetry" where
  "schedule_task_events ch event_type ts tel =
     (fst tel, snd tel @ concat (map (publish_task_event (fst ch) (snd ch) event_type) ts))"

definition schedule_worker_events :: "channel \<Rightarrow> string \<Rightarrow> string list \<Rightarrow> telemetry \<Rightarrow> telemetry" where
  "schedule_worker_events ch event_type ws tel =
     (fst tel, snd tel @ concat (map (publish_worker_event (fst ch) (snd ch) event_type) ws))"

text \<open>The objects a session selected, as its transaction has left them.\<close>

definition session_objects :: "task list \<Rightarrow> db \<Rightarrow> task list" where
  "session_objects ts s = map (\<lambda>t. case get_task_row (t_id t) s of None \<Rightarrow> t | Some t' \<Rightarrow> t') ts"

section \<open>The passes of the coordinator\<close>

definition orphaned_tasks :: "settings \<Rightarrow> nat \<Rightarrow> db \<Rightarrow> task list" where
  "orphaned_tasks cfg limit s = order_limit t_updated_at limit (filter (orphaned cfg (clock s (ticks s))) (tasks s))"

definition retried_pass :: "channel \<Rightarrow> task list \<Rightarrow> nat result \<Rightarrow> telemetry \<Rightarrow> telemetry" where
  \<comment> \<open>\<open>retries_total\<close> and the events of the selected tasks; an exception leaves the pass before them\<close>
  "retried_pass ch selected r tel =
     (case r of
        Raise _ _ \<Rightarrow> tel
      | Ok n s' \<Rightarrow>
          let tel = (if n \<noteq> 0 then (fst tel\<lparr>retries_total := retries_total (fst tel) + n\<rparr>, snd tel) else tel)
          in schedule_task_events ch ''task.updated'' (session_objects selected s') tel)"

definition requeue_due_telemetry :: "channel \<Rightarrow> settings \<Rightarrow> nat \<Rightarrow> db \<Rightarrow> telemetry \<Rightarrow> telemetry" where
  "requeue_due_telemetry ch cfg limit s = retried_pass ch (due_tasks limit s) (requeue_due_tasks cfg limit s)"

definition requeue_orphaned_telemetry :: "channel \<Rightarrow> settings \<Rightarrow> nat \<Rightarrow> db \<Rightarrow> telemetry \<Rightarrow> telemetry" where
  "requeue_orphaned_telemetry ch cfg limit s =
     retried_pass ch (orphaned_tasks cfg limit s) (requeue_orphaned_queued_tasks cfg limit s)"

definition requeue_dlq_telemetry :: "channel \<Rightarrow> settings \<Rightarrow> nat \<Rightarrow> db \<Rightarrow> telemetry \<Rightarrow> telemetry" where
  "requeue_dlq_telemetry ch cfg limit s =
     (if \<not> dlq_retry_enabled cfg then id
      else retried_pass ch (dlq_due_tasks cfg limit s) (requeue_dlq_tasks cfg limit s))"

definition recover_stuck_telemetry :: "channel \<Rightarrow> settings \<Rightarrow> nat \<Rightarrow> db \<Rightarrow> telemetry \<Rightarrow> telemetry" where
  "recover_stuck_telemetry ch cfg limit s tel =
     (case recover_stuck_tasks cfg limit s of
        Raise _ _ \<Rightarrow> tel
      | Ok n s' \<Rightarrow>
          let dead = fst (mark_dead (clock s (ticks s) - timedelta_seconds (worker_heartbeat_timeout_seconds cfg)) s);
              tel = (if n \<noteq> 0
                     then (fst tel\<lparr>lease_timeouts_total := lease_timeouts_total (fst tel) + n\<rparr>, snd tel) else tel);
              tel = schedule_worker_events ch ''worker.dead'' dead tel
          in schedule_task_events ch ''task.updated'' (session_objects (expired_tasks limit s) s') tel)"

definition purge_telemetry :: "settings \<Rightarrow> nat option \<Rightarrow> db \<Rightarrow> telemetry \<Rightarrow> telemetry" where
  "purge_telemetry cfg limit_arg s tel =
     (let deleted = fst (purge_old_data cfg limit_arg s) in
      if deleted \<noteq> 0
      then (fst tel\<lparr>retention_deleted_total := inc ''all'' deleted (retention_deleted_total (fst tel))\<rparr>, snd tel)
      else tel)"

section \<open>The message handler\<close>

definition record_execution_metrics :: "task \<Rightarrow> attempt \<Rightarrow> string \<Rightarrow> metrics \<Rightarrow> metrics" where
  "record_execution_metrics task attempt outcome m =
     (let m = m\<lparr>attempts_total := inc outcome 1 (attempts_total m)\<rparr> in
      case (a_started_at attempt, a_finished_at attempt) of
        (Some from, Some until) \<Rightarrow>
          m\<lparr>task_duration_seconds := task_duration_seconds m @ [(t_task_type task, until - from)]\<rparr>
      | _ \<Rightarrow> m)"

text \<open>
  The metrics of a recorded outcome: none when the task was not running any more, and none when
  the recording raised. The label is the status the task has got.
\<close>

definition finish_metrics :: "settings \<Rightarrow> task \<Rightarrow> int \<Rightarrow> exec_result \<Rightarrow> db \<Rightarrow> metrics \<Rightarrow> metrics" where
  "finish_metrics cfg task attempt outcome s m =
     (case finish cfg task attempt outcome s of
        Raise _ _ \<Rightarrow> m
      | Ok task' s' \<Rightarrow>
          if \<not> still_running task s then m
          else case find_row a_id attempt (attempts s') of
            None \<Rightarrow> m
          | Some a \<Rightarrow>
              record_execution_metrics task' a
                (case outcome of Completed _ \<Rightarrow> ''success'' | _ \<Rightarrow> status_name (t_status task')) m)"

definition handle_message_telemetry ::
    "channel \<Rightarrow> python \<Rightarrow> (string \<Rightarrow> int option) \<Rightarrow> handlers \<Rightarrow> (db \<Rightarrow> db) \<Rightarrow> settings \<Rightarrow> string \<Rightarrow>
     json option \<Rightarrow> db \<Rightarrow> telemetry \<Rightarrow> telemetry" where
  "handle_message_telemetry ch py parse_int handlers others cfg worker_id body s tel =
     (case decode_payload body of
        None \<Rightarrow> tel
      | Some b \<Rightarrow>
          (case message_task_id parse_int b of
             None \<Rightarrow> tel
           | Some tid \<Rightarrow>
               (case claim cfg worker_id tid s of
                  Ok (Claimed task attempt) s' \<Rightarrow>
                    (let tel = schedule_task_events ch ''task.running'' [task] tel;
                         s1 = others s';
                         outcome = dispatch py handlers cfg (t_task_type task) (t_payload task);
                         tel = (finish_metrics cfg task attempt outcome s1 (fst tel), snd tel)
                     in case finish cfg task attempt outcome s1 of
                          Raise _ _ \<Rightarrow> tel
                        | Ok task s2 \<Rightarrow> schedule_task_events ch ''task.updated'' [task] tel)
                | _ \<Rightarrow> tel)))"

section \<open>The routes, the creation of tasks and the deliveries\<close>

text \<open>
  The created tasks are counted when their rows are flushed, before their dependencies and their
  status; a savepoint that is rolled back does not take the count back.
\<close>

definition create_task_metrics :: "settings \<Rightarrow> task_spec \<Rightarrow> db \<Rightarrow> metrics \<Rightarrow> metrics" where
  "create_task_metrics cfg spec s m =
     (case insert_task cfg spec s of
        Raise _ _ \<Rightarrow> m
      | Ok _ _ \<Rightarrow> m\<lparr>tasks_created_total := tasks_created_total m + 1\<rparr>)"

fun bulk_create_metrics :: "settings \<Rightarrow> task_spec list \<Rightarrow> db \<Rightarrow> metrics \<Rightarrow> metrics" where
  "bulk_create_metrics cfg [] s m = m"
| "bulk_create_metrics cfg (spec # specs) s m =
     (let m' = create_task_metrics cfg spec s m in
      case create_task cfg spec s of
        Ok t s' \<Rightarrow> bulk_create_metrics cfg specs s' m'
      | Raise IntegrityError s' \<Rightarrow> bulk_create_metrics cfg specs (rollback_to s s') m'
      | Raise _ s' \<Rightarrow> m')"

definition create_task_route_events :: "channel \<Rightarrow> created response \<Rightarrow> telemetry \<Rightarrow> telemetry" where
  "create_task_route_events ch r tel =
     (case r of Reply (Created201 task) \<Rightarrow> schedule_task_events ch ''task.updated'' [task] tel | _ \<Rightarrow> tel)"

definition bulk_route_events :: "channel \<Rightarrow> 'c bulk_result response \<Rightarrow> telemetry \<Rightarrow> telemetry" where
  "bulk_route_events ch r tel =
     (case r of Reply (total_count, ts, conflicts) \<Rightarrow> schedule_task_events ch ''task.updated'' ts tel | _ \<Rightarrow> tel)"

definition one_task_route_events :: "channel \<Rightarrow> task response \<Rightarrow> telemetry \<Rightarrow> telemetry" where
  "one_task_route_events ch r tel =
     (case r of Reply task \<Rightarrow> schedule_task_events ch ''task.updated'' [task] tel | _ \<Rightarrow> tel)"

definition create_batch_route_events :: "channel \<Rightarrow> (batch \<times> progress \<times> task list) response \<Rightarrow> telemetry \<Rightarrow> telemetry" where
  "create_batch_route_events ch r tel =
     (case r of Reply (batch, progress, ts) \<Rightarrow> schedule_task_events ch ''task.updated'' ts tel | _ \<Rightarrow> tel)"

definition attempt_delivery_metrics :: "settings \<Rightarrow> sender \<Rightarrow> subscription option \<Rightarrow> delivery \<Rightarrow> metrics \<Rightarrow> metrics" where
  "attempt_delivery_metrics cfg send sub d m =
     (case sub of
        None \<Rightarrow> m
      | Some sub \<Rightarrow>
          if \<not> s_is_active sub then m
          else case send sub (w_payload d) of (ok, code, err) \<Rightarrow>
            if ok then m\<lparr>webhook_deliveries_total := inc ''sent'' 1 (webhook_deliveries_total m)\<rparr>
            else if w_attempts d + 1 \<ge> webhook_max_attempts cfg
            then m\<lparr>webhook_deliveries_total := inc ''failed'' 1 (webhook_deliveries_total m)\<rparr> else m)"

definition dispatch_due_metrics :: "settings \<Rightarrow> sender \<Rightarrow> nat \<Rightarrow> db \<Rightarrow> metrics \<Rightarrow> metrics" where
  "dispatch_due_metrics cfg send limit s m =
     fold (\<lambda>d. attempt_delivery_metrics cfg send (find_row s_id (w_subscription_id d) (subscriptions s)) d)
       (due_deliveries limit s) m"

section \<open>The events of the passes show committed rows\<close>

definition committed_rows :: "task_status \<Rightarrow> task list \<Rightarrow> db \<Rightarrow> bool" where
  "committed_rows st ts s \<longleftrightarrow> (\<forall>t\<in>set ts. get_task_row (t_id t) s = Some t \<and> t_status t = st)"

lemma session_objects_ids: "map t_id (session_objects ts s) = map t_id ts"
  by (auto simp: session_objects_def dest: get_task_row_SomeD split: option.split)

lemma session_objects_length [simp]: "length (session_objects ts s) = length ts"
  by (simp add: session_objects_def)

lemma session_objects_committed:
  assumes "\<forall>t\<in>set ts. \<exists>t'. get_task_row (t_id t) s = Some t' \<and> t_status t' = st"
  shows "committed_rows st (session_objects ts s) s"
  using assms get_task_row_SomeD unfolding committed_rows_def session_objects_def by fastforce

lemma requeued_status: "requeued_row t t' \<Longrightarrow> t_status t' = Queued" "dlq_row t t' \<Longrightarrow> t_status t' = Queued"
  by (auto simp: requeued_row_def dlq_row_def queued_row_def)

lemma queued_objects:
  assumes "takes_to_queue cfg R ts s s'" "\<And>t t'. R t t' \<Longrightarrow> t_status t' = Queued"
  shows "committed_rows Queued (session_objects ts s') s'"
  using assms by (intro session_objects_committed) (auto simp: takes_to_queue_def)

lemma retried_pass_Ok:
  "retried_pass ch ts (Ok (length ts) s') (m, fs) =
     schedule_task_events ch ''task.updated'' (session_objects ts s')
       (m\<lparr>retries_total := retries_total m + length ts\<rparr>, fs)"
  by (cases ts) (simp_all add: retried_pass_def Let_def)

definition pass_announced :: "channel \<Rightarrow> db \<Rightarrow> task list \<Rightarrow> (telemetry \<Rightarrow> telemetry) \<Rightarrow> bool" where
  \<comment> \<open>the pass counts its tasks and publishes the row of each as it is committed in \<open>s'\<close>\<close>
  "pass_announced ch s' ts told \<longleftrightarrow>
     (\<exists>rows. map t_id rows = map t_id ts \<and> committed_rows Queued rows s' \<and>
        (\<forall>m fs. told (m, fs) = schedule_task_events ch ''task.updated'' rows
           (m\<lparr>retries_total := retries_total m + length ts\<rparr>, fs)))"

lemma retried_pass_announced:
  assumes "takes_to_queue cfg R ts s s'" "\<And>t t'. R t t' \<Longrightarrow> t_status t' = Queued"
  shows "pass_announced ch s' ts (retried_pass ch ts (Ok (length ts) s'))"
  unfolding pass_announced_def retried_pass_Ok
  by (intro exI [of _ "session_objects ts s'"] conjI allI refl session_objects_ids queued_objects [OF assms(1)] assms(2))

lemma requeue_due_announced:
  assumes "integrity s"
  obtains s' where "requeue_due_tasks cfg limit s = Ok (length (due_tasks limit s)) s'"
    and "pass_announced ch s' (due_tasks limit s) (requeue_due_telemetry ch cfg limit s)"
  using requeue_due_tasks_effect [OF assms, of cfg limit] requeued_status(1)
  by (metis requeue_due_telemetry_def retried_pass_announced)

lemma requeue_dlq_announced:
  assumes "integrity s" "dlq_retry_enabled cfg"
  obtains s' where "requeue_dlq_tasks cfg limit s = Ok (length (dlq_due_tasks cfg limit s)) s'"
    and "pass_announced ch s' (dlq_due_tasks cfg limit s) (requeue_dlq_telemetry ch cfg limit s)"
  using requeue_dlq_tasks_effect [OF assms, of limit] requeued_status(2) assms(2)
  by (metis requeue_dlq_telemetry_def retried_pass_announced)

lemma requeue_orphaned_announced:
  assumes "integrity s"
  obtains s' where "requeue_orphaned_queued_tasks cfg limit s = Ok (length (orphaned_tasks cfg limit s)) s'"
    and "pass_announced ch s' (orphaned_tasks cfg limit s) (requeue_orphaned_telemetry ch cfg limit s)"
proof -
  let ?ts = "orphaned_tasks cfg limit s"
  obtain s' where s': "requeue_orphaned_queued_tasks cfg limit s = Ok (length ?ts) s'"
    by (simp add: requeue_orphaned_queued_tasks_def now_utc_def orphaned_tasks_def Let_def)
  have "t \<in> set (tasks s) \<and> t_status t = Queued" if "t \<in> set ?ts" for t
    using that set_order_limit [of t_updated_at limit "filter (orphaned cfg (clock s (ticks s))) (tasks s)"]
    by (auto simp: orphaned_tasks_def orphaned_def)
  then have "\<forall>t\<in>set ?ts. \<exists>t'. get_task_row (t_id t) s' = Some t' \<and> t_status t' = Queued"
    using orphans_keep_rows [OF s'] integrity_get_task [OF assms] by (metis get_task_row_def)
  then have "pass_announced ch s' ?ts (requeue_orphaned_telemetry ch cfg limit s)"
    unfolding pass_announced_def requeue_orphaned_telemetry_def s' retried_pass_Ok
    by (intro exI [of _ "session_objects ?ts s'"] conjI allI refl session_objects_ids session_objects_committed)
  with s' show ?thesis using that by blast
qed

lemma recover_stuck_announced:
  assumes "integrity s"
  obtains s' rows where "recover_stuck_tasks cfg limit s = Ok (length (expired_tasks limit s)) s'"
    and "map t_id rows = map t_id (expired_tasks limit s)" "committed_rows Queued rows s'"
    and "recover_stuck_telemetry ch cfg limit s (m, fs) =
      schedule_task_events ch ''task.updated'' rows (schedule_worker_events ch ''worker.dead''
        (map k_worker_id (filter (\<lambda>w. k_status w = WORKER_ALIVE \<and>
           k_last_heartbeat_at w < clock s (ticks s) - timedelta_seconds (worker_heartbeat_timeout_seconds cfg)) (workers s)))
        (m\<lparr>lease_timeouts_total := lease_timeouts_total m + length (expired_tasks limit s)\<rparr>, fs))"
proof -
  obtain s' where s': "recover_stuck_tasks cfg limit s = Ok (length (expired_tasks limit s)) s'"
    "takes_to_queue cfg requeued_row (expired_tasks limit s) s s'"
    by (rule recover_stuck_tasks_effect [OF assms])
  show ?thesis
    by (rule that [OF s'(1) session_objects_ids queued_objects [OF s'(2) requeued_status(1)]])
      (simp_all add: recover_stuck_telemetry_def s'(1) mark_dead_def Let_def conj_commute)
qed

section \<open>The events of a message\<close>

text \<open>What a frame shows of a task.\<close>

definition shown :: "task \<Rightarrow> int \<times> string \<times> task_status \<times> task_priority \<times> int" where
  "shown t = (t_id t, t_task_type t, t_status t, t_priority t, t_attempts t)"

lemma frame_shows: "shown t = shown t' \<Longrightarrow> publish_task_event en up ev t = publish_task_event en up ev t'"
  by (simp add: shown_def publish_task_event_def)

lemma shown_assign:
  "(\<And>t. shown (f t) = shown t) \<Longrightarrow> shown (fst (assign f (obj, s))) = shown obj"
  by (simp add: assign_def shown_def)

lemma shown_row_assign:
  assumes "\<And>t. shown (f t) = shown t" "get_task_row (t_id obj) s = Some row"
  obtains row' where "get_task_row (t_id obj) (snd (assign f (obj, s))) = Some row'" "shown row' = shown row"
  using assms by (simp add: get_task_row_def table_simps db_simps shown_def)

text \<open>
  A session's object stands for its row when the two show the same. A status change and the
  recording of an outcome keep it so.
\<close>

definition stands_for_row :: "task \<Rightarrow> db \<Rightarrow> bool" where
  "stands_for_row obj s \<longleftrightarrow> (\<exists>row. get_task_row (t_id obj) s = Some row \<and> shown row = shown obj)"

lemma stands_assign:
  assumes "\<And>t. shown (f t) = shown t" "stands_for_row obj s"
  shows "stands_for_row (fst (assign f (obj, s))) (snd (assign f (obj, s)))"
proof -
  obtain row where row: "get_task_row (t_id obj) s = Some row" "shown row = shown obj"
    using assms(2) by (auto simp: stands_for_row_def)
  have id: "t_id (fst (assign f (obj, s))) = t_id obj" using shown_assign [of f, OF assms(1)] by (simp add: shown_def)
  show ?thesis unfolding stands_for_row_def id
    using shown_row_assign [OF assms(1) row(1)] row(2) shown_assign [of f, OF assms(1)] by metis
qed

lemma stands_set_status:
  assumes "stands_for_row obj s" "can_transition (t_status obj) new" "set_status cfg obj new ev m s = Ok obj' s'"
  shows "stands_for_row obj' s'" "t_status obj' = new"
proof -
  obtain row where row: "get_task_row (t_id obj) s = Some row" "shown row = shown obj"
    using assms(1) by (auto simp: stands_for_row_def)
  have obj': "obj' = fst (local_transition obj new ev m s)" by (rule set_status_Ok_obj [OF assms(2,3)])
  have row': "get_task_row (t_id obj) s' = Some (status_assignments obj new (transition_time obj new s) (db_now s) row)"
    using set_status_own_row [OF assms(2) row(1), of cfg ev m] assms(3) by simp
  have sh: "t_id obj' = t_id obj" "t_task_type obj' = t_task_type obj" "t_status obj' = new"
      "t_priority obj' = t_priority obj" "t_attempts obj' = t_attempts obj"
    by (simp_all add: obj' db_simps)
  show "stands_for_row obj' s'" using row(2) row' by (simp add: stands_for_row_def sh shown_def)
  show "t_status obj' = new" by (rule sh(3))
qed

lemma stands_frame:
  "tasks s' = tasks s \<Longrightarrow> stands_for_row obj s \<Longrightarrow> stands_for_row obj s'"
  by (simp add: stands_for_row_def get_task_row_def)

lemma stands_closed: "close_attempt aid f s = Ok () s' \<Longrightarrow> stands_for_row obj s \<Longrightarrow> stands_for_row obj s'"
  by (rule stands_frame) (auto simp: close_attempt_def set_attempt_def split: if_splits)

lemma stands_ticks: "stands_for_row obj s \<Longrightarrow> stands_for_row obj (s\<lparr>ticks := n\<rparr>)"
  by (rule stands_frame) simp_all

lemma record_success_stands:
  assumes "stands_for_row obj s" "t_status obj = Running" "record_success cfg obj aid r s = Ok obj' s'"
  shows "stands_for_row obj' s'" "still_running obj s \<Longrightarrow> t_status obj' = Success"
proof -
  let ?s0 = "s\<lparr>ticks := Suc (ticks s)\<rparr>"
  let ?c = "\<lambda>a. a\<lparr>a_status := ASuccess, a_result := Some r, a_finished_at := Some (clock s (ticks s))\<rparr>"
  have ok: "aid \<in> a_id ` set (attempts s)"
    using assms(3) by (auto simp: record_success_def now_utc_def close_attempt_def split: if_splits)
  let ?s1 = "set_attempt aid ?c ?s0"
  have st1: "stands_for_row obj ?s1" by (rule stands_frame [OF _ assms(1)]) (simp add: set_attempt_def)
  have run: "still_running obj ?s1 = still_running obj s"
    by (simp add: still_running_def get_task_row_def set_attempt_def)
  let ?f = "\<lambda>t. t\<lparr>t_result := Some r, t_finished_at := Some (clock ?s1 (ticks ?s1))\<rparr>"
  let ?s2 = "?s1\<lparr>ticks := Suc (ticks ?s1)\<rparr>"
  have "stands_for_row obj' s' \<and> (still_running obj s \<longrightarrow> t_status obj' = Success)"
  proof (cases "still_running obj s")
    case False
    then show ?thesis using assms(3) ok st1 run by (simp add: record_success_def now_utc_def close_attempt_def)
  next
    case True
    let ?os = "assign ?f (obj, ?s2)"
    have "stands_for_row (fst ?os) (snd ?os)" by (rule stands_assign [OF _ stands_ticks [OF st1]]) (simp add: shown_def)
    moreover have "can_transition (t_status (fst ?os)) Success"
      using assms(2) by (simp add: assign_def can_transition_def)
    moreover have "set_status cfg (fst ?os) Success ''task.succeeded'' None (snd ?os) = Ok obj' s'"
      using assms(3) ok run True by (simp add: record_success_def now_utc_def close_attempt_def case_prod_beta Let_def)
    ultimately show ?thesis using stands_set_status by blast
  qed
  then show "stands_for_row obj' s'" "still_running obj s \<Longrightarrow> t_status obj' = Success" by auto
qed

lemma schedule_retry_stands:
  assumes "stands_for_row obj s" "t_status obj = Running" "schedule_retry cfg obj n s = Ok obj' s'"
  shows "stands_for_row obj' s' \<and> t_status obj' = RetryScheduled"
proof -
  let ?f = "\<lambda>t. t\<lparr>t_scheduled_at := Some (clock s (ticks s) +
    timedelta_seconds (compute_retry_delay_seconds cfg (t_attempts obj)))\<rparr>"
  let ?os = "assign ?f (obj, s\<lparr>ticks := Suc (ticks s)\<rparr>)"
  have "stands_for_row (fst ?os) (snd ?os)"
    by (rule stands_assign [OF _ stands_ticks [OF assms(1)]]) (simp add: shown_def)
  moreover have "can_transition (t_status (fst ?os)) RetryScheduled"
    using assms(2) by (simp add: assign_def can_transition_def)
  moreover obtain m where "set_status cfg (fst ?os) RetryScheduled ''task.retry_scheduled'' m (snd ?os) = Ok obj' s'"
    using assms(3) by (simp add: schedule_retry_def now_utc_def case_prod_beta Let_def)
  ultimately show ?thesis using stands_set_status by blast
qed

lemma set_dlq_retry_stands:
  assumes "stands_for_row obj s"
  shows "stands_for_row (fst (set_dlq_retry cfg obj s)) (snd (set_dlq_retry cfg obj s))"
    and "t_status (fst (set_dlq_retry cfg obj s)) = t_status obj"
  unfolding set_dlq_retry_def now_utc_def
  by (auto intro!: stands_assign stands_ticks assms simp: shown_def) (simp_all add: assign_def)

lemma end_in_failure_stands:
  assumes "stands_for_row obj s" "t_status obj = Running" "end_in_failure cfg obj n err retryable s = Ok obj' s'"
  shows "stands_for_row obj' s' \<and> t_status obj' = (if retryable then DeadLetter else Failed)"
proof -
  have can: "can_transition (t_status obj) (if retryable then DeadLetter else Failed)"
    using assms(2) by (simp add: can_transition_def)
  obtain obj1 s1 where set: "set_status cfg obj (if retryable then DeadLetter else Failed)
      (if retryable then ''task.dead_lettered'' else ''task.failed'')
      (Some (JObj [(''attempt_number'', JInt n), (''error'', JStr err)])) s = Ok obj1 s1"
    and rest: "(if retryable then (case set_dlq_retry cfg obj1 s1 of (obj, s) \<Rightarrow> Ok obj s) else Ok obj1 s1) = (Ok obj' s' :: task result)"
    using assms(3) unfolding end_in_failure_def bind_o_Ok_iff by (elim exE conjE) (rule that)
  have "stands_for_row obj1 s1" "t_status obj1 = (if retryable then DeadLetter else Failed)"
    using stands_set_status [OF assms(1) can set] by auto
  then show ?thesis using rest set_dlq_retry_stands by (auto simp: case_prod_beta split: if_splits)
qed

lemma record_failure_stands:
  assumes "stands_for_row obj s" "t_status obj = Running" "record_failure cfg obj aid err retryable s = Ok obj' s'"
  shows "stands_for_row obj' s'" "still_running obj s \<Longrightarrow> t_status obj' = failure_status obj retryable"
proof -
  let ?s0 = "s\<lparr>ticks := Suc (ticks s)\<rparr>"
  let ?c = "\<lambda>a. a\<lparr>a_status := AFailed, a_error_message := Some (take 2000 err),
    a_finished_at := Some (clock s (ticks s))\<rparr>"
  have ok: "aid \<in> a_id ` set (attempts s)"
    using assms(3) by (auto simp: record_failure_def now_utc_def close_attempt_def Let_def split: if_splits)
  let ?s1 = "set_attempt aid ?c ?s0"
  have st1: "stands_for_row obj ?s1" by (rule stands_frame [OF _ assms(1)]) (simp add: set_attempt_def)
  have run: "still_running obj ?s1 = still_running obj s"
    by (simp add: still_running_def get_task_row_def set_attempt_def)
  let ?os = "assign (\<lambda>t. t\<lparr>t_last_error := Some (take 2000 err)\<rparr>) (obj, ?s1)"
  have os: "stands_for_row (fst ?os) (snd ?os)" by (rule stands_assign [OF _ st1]) (simp add: shown_def)
  have obj: "t_status (fst ?os) = Running" "t_attempts (fst ?os) = t_attempts obj" "t_max_attempts (fst ?os) = t_max_attempts obj"
    using assms(2) by (simp_all add: assign_def)
  have "stands_for_row obj' s' \<and> (still_running obj s \<longrightarrow> t_status obj' = failure_status obj retryable)"
  proof (cases "still_running obj s")
    case False
    then show ?thesis using assms(3) ok st1 run by (simp add: record_failure_def now_utc_def close_attempt_def Let_def)
  next
    case True
    then have "(if retryable \<and> t_attempts obj < t_max_attempts obj
        then schedule_retry cfg (fst ?os) (attempt_number_of aid ?s0) (snd ?os)
        else end_in_failure cfg (fst ?os) (attempt_number_of aid ?s0) (take 2000 err) retryable (snd ?os)) = Ok obj' s'"
      using assms(3) ok run obj(2,3) by (simp add: record_failure_def now_utc_def close_attempt_def case_prod_beta Let_def)
    then show ?thesis
      using schedule_retry_stands [OF os obj(1)] end_in_failure_stands [OF os obj(1)]
      by (auto simp: failure_status_def split: if_splits)
  qed
  then show "stands_for_row obj' s'" "still_running obj s \<Longrightarrow> t_status obj' = failure_status obj retryable" by auto
qed

lemma finish_stands:
  "stands_for_row obj s \<Longrightarrow> t_status obj = Running \<Longrightarrow> finish cfg obj aid outcome s = Ok obj' s' \<Longrightarrow> stands_for_row obj' s'"
  by (cases outcome) (auto simp: finish_def dest: record_success_stands record_failure_stands)

text \<open>A task that is not running any more is left alone, and so is the session's object.\<close>

lemma finish_stale:
  assumes "\<not> still_running obj s" "finish cfg obj aid outcome s = Ok obj' s'"
  shows "obj' = obj" "tasks s' = tasks s"
proof -
  have "still_running obj (set_attempt a f (s\<lparr>ticks := n\<rparr>)) = still_running obj s" for a f n
    by (simp add: still_running_def get_task_row_def set_attempt_def)
  then have "obj' = obj \<and> tasks s' = tasks s"
    using assms by (cases outcome)
      (auto simp: finish_def record_success_def record_failure_def now_utc_def close_attempt_def Let_def set_attempt_def
        split: if_splits)
  then show "obj' = obj" "tasks s' = tasks s" by auto
qed

lemma finish_stale_returns:
  assumes "\<not> still_running obj s" "aid \<in> a_id ` set (attempts s)"
  shows "\<exists>s'. finish cfg obj aid outcome s = Ok obj s'"
proof -
  have "still_running obj (set_attempt a f (s\<lparr>ticks := n\<rparr>)) = still_running obj s" for a f n
    by (simp add: still_running_def get_task_row_def set_attempt_def)
  then show ?thesis
    using assms by (cases outcome)
      (simp_all add: finish_def record_success_def record_failure_def now_utc_def close_attempt_def Let_def)
qed

lemma finish_keeps_attempts:
  assumes "integrity s" "held obj" "still_running obj s" "aid \<in> a_id ` set (attempts s)"
  obtains obj' s' where "finish cfg obj aid outcome s = Ok obj' s'" "aid \<in> a_id ` set (attempts s')"
proof -
  have id: "a_id ` set (update_row a_id aid f (attempts s)) = a_id ` set (attempts s)" if "\<And>a. a_id (f a) = a_id a" for f
    using map_key_update_row [of a_id f aid "attempts s", OF that] by (metis list.set_map)
  have failure: "\<exists>obj' s'. record_failure cfg obj aid e retryable s = Ok obj' s' \<and> aid \<in> a_id ` set (attempts s')" for e retryable
    by (rule record_failure_effect [OF assms, of cfg e retryable]) (simp add: id assms(4))
  have success: "\<exists>obj' s'. record_success cfg obj aid r s = Ok obj' s' \<and> aid \<in> a_id ` set (attempts s')" for r
    by (rule record_success_effect [OF assms, of cfg r]) (simp add: id assms(4))
  show ?thesis using that success failure by (cases outcome) (simp_all add: finish_def, metis+)
qed

lemma finish_counted:
  assumes "integrity s" "held obj" "still_running obj s" "aid \<in> a_id ` set (attempts s)" "stands_for_row obj s"
    and "finish cfg obj aid outcome s = Ok obj' s'"
  shows "attempts_total (finish_metrics cfg obj aid outcome s m) = inc (status_name (t_status obj')) 1 (attempts_total m)"
proof -
  have "aid \<in> a_id ` set (attempts s')"
    using finish_keeps_attempts [OF assms(1-4), of cfg outcome] assms(6) by (metis outcome.inject(1))
  then obtain a where a: "find_row a_id aid (attempts s') = Some a"
    by (cases "find_row a_id aid (attempts s')") (auto simp: find_row_def find_None_iff)
  have run: "t_status obj = Running" using assms(2) by (simp add: held_def)
  have label: "(case outcome of Completed _ \<Rightarrow> ''success'' | _ \<Rightarrow> status_name (t_status obj')) = status_name (t_status obj')"
    using record_success_stands(2) [OF assms(5) run _ assms(3)] assms(6)
    by (cases outcome) (auto simp: finish_def)
  show ?thesis
    by (simp add: finish_metrics_def assms(3,6) a label record_execution_metrics_def Let_def split: option.split)
qed

lemma finish_uncounted:
  "\<not> still_running obj s \<Longrightarrow> finish_metrics cfg obj aid outcome s m = m"
  by (simp add: finish_metrics_def split: outcome.split)

text \<open>
  A message that gets its task: the first event shows the row the claim has committed; the second
  one shows the row the outcome has committed, unless the task was taken from the worker while it
  executed. Then it still shows the task as running, whatever the row says.
\<close>

lemma handle_message_events:
  assumes "integrity s" "decode_payload body = Some b" "message_task_id parse_int b = Some tid"
    and "claim cfg w tid s = Ok (Claimed obj aid) s1" "integrity (others s1)" "aid \<in> a_id ` set (attempts (others s1))"
    and "still_running obj (others s1) \<Longrightarrow> stands_for_row obj (others s1)"
  obtains obj' s' m' where "handle_message py parse_int handlers others cfg w body s = (Ack, s')"
    and "handle_message_telemetry ch py parse_int handlers others cfg w body s (m, fs) =
      schedule_task_events ch ''task.updated'' [obj'] (m', snd (schedule_task_events ch ''task.running'' [obj] (m, fs)))"
    and "get_task_row tid s1 = Some obj"
    and "if still_running obj (others s1)
      then stands_for_row obj' s' \<and> attempts_total m' = inc (status_name (t_status obj')) 1 (attempts_total m)
      else obj' = obj \<and> m' = m \<and> tasks s' = tasks (others s1)"
proof -
  let ?s = "others s1" and ?r = "dispatch py handlers cfg (t_task_type obj) (t_payload obj)"
  have H: "held obj" and row: "get_task_row tid s1 = Some obj"
    using claim_cases [OF assms(1), of cfg w tid] assms(4) by (metis (no_types, lifting) claim_result.distinct(3) claim_result.inject outcome.inject(1))+
  have run: "t_status obj = Running" using H by (simp add: held_def)
  obtain obj' s' where fin: "finish cfg obj aid ?r ?s = Ok obj' s'"
    using finish_keeps_attempts [OF assms(5) H _ assms(6), of cfg ?r] finish_stale_returns [OF _ assms(6)] by metis
  let ?m = "finish_metrics cfg obj aid ?r ?s m"
  have "if still_running obj ?s
      then stands_for_row obj' s' \<and> attempts_total ?m = inc (status_name (t_status obj')) 1 (attempts_total m)
      else obj' = obj \<and> ?m = m \<and> tasks s' = tasks ?s"
    using finish_stands [OF assms(7) run fin] finish_counted [OF assms(5) H _ assms(6,7) fin]
      finish_stale [OF _ fin] finish_uncounted by simp
  then show ?thesis
    by (intro that [of s' obj' ?m])
      (use assms(2-4) fin row in \<open>auto simp: handle_message_def handle_message_telemetry_def Let_def
        schedule_task_events_def\<close>)
qed

section \<open>What the counters of creations and deliveries count\<close>

lemma created_counted:
  "bulk_create cfg specs s = Ok (news, conflicts) s' \<Longrightarrow>
   tasks_created_total m + length news \<le> tasks_created_total (bulk_create_metrics cfg specs s m) \<and>
   tasks_created_total (bulk_create_metrics cfg specs s m) \<le> tasks_created_total m + length specs"
proof (induction specs arbitrary: s m news conflicts)
  case (Cons spec specs)
  have counted: "tasks_created_total (create_task_metrics cfg spec s m) =
      tasks_created_total m + (case insert_task cfg spec s of Ok _ _ \<Rightarrow> 1 | Raise _ _ \<Rightarrow> 0)"
    by (simp add: create_task_metrics_def split: outcome.split)
  show ?case
  proof (cases "create_task cfg spec s")
    case (Ok t s1)
    then obtain news' conflicts' where rest: "bulk_create cfg specs s1 = Ok (news', conflicts') s'" "news = t # news'"
      using Cons.prems by (auto simp: bind_o_Ok_iff)
    have "\<exists>t s2. insert_task cfg spec s = Ok t s2" using Ok by (auto simp: create_task_def bind_o_Ok_iff)
    then show ?thesis using Cons.IH [OF rest(1), of "create_task_metrics cfg spec s m"] rest(2) counted Ok by (auto simp: Let_def)
  next
    case (Raise e s1)
    then have e: "e = IntegrityError" using Cons.prems by (cases e) simp_all
    then obtain news' conflicts' where rest: "bulk_create cfg specs (rollback_to s s1) = Ok (news', conflicts') s'" "news = news'"
      using Cons.prems Raise by (auto simp: bind_o_Ok_iff)
    show ?thesis
      using Cons.IH [OF rest(1), of "create_task_metrics cfg spec s m"] rest(2) counted Raise e
      by (auto simp: Let_def split: outcome.splits)
  qed
qed simp

text \<open>A creation refused after its row was flushed is counted although it is rolled back.\<close>

lemma refused_creation_counted:
  assumes "insert_task cfg spec s = Ok t s1" "create_task cfg spec s = Raise e s'"
  shows "tasks_created_total (create_task_metrics cfg spec s m) = tasks_created_total m + 1"
    and "tasks (rollback_to s s') = tasks s"
  using assms(1) by (simp_all add: create_task_metrics_def rollback_to_def)

definition subscription_of :: "delivery \<Rightarrow> db \<Rightarrow> subscription option" where
  "subscription_of d s = find_row s_id (w_subscription_id d) (subscriptions s)"

lemma attempt_counted:
  assumes "w_status d = DELIVERY_PENDING"
  shows "webhook_deliveries_total (attempt_delivery_metrics cfg send sub d m) ''sent'' = webhook_deliveries_total m ''sent'' +
      (if w_status (attempt_delivery cfg send now sub d) = DELIVERY_SENT then 1 else 0)"
    and "webhook_deliveries_total (attempt_delivery_metrics cfg send sub d m) ''failed'' = webhook_deliveries_total m ''failed'' +
      (if w_status (attempt_delivery cfg send now sub d) = DELIVERY_FAILED \<and> (\<exists>x. sub = Some x \<and> s_is_active x) then 1 else 0)"
  using assms
  by (auto simp: attempt_delivery_metrics_def attempt_delivery_def inc_def Let_def split: option.split prod.split)

lemma deliveries_counted:
  "webhook_deliveries_total (dispatch_due_metrics cfg send limit s m) ''sent'' = webhook_deliveries_total m ''sent'' +
     length (filter (\<lambda>d. w_status (attempt_delivery cfg send now (subscription_of d s) d) = DELIVERY_SENT) (due_deliveries limit s))"
  "webhook_deliveries_total (dispatch_due_metrics cfg send limit s m) ''failed'' = webhook_deliveries_total m ''failed'' +
     length (filter (\<lambda>d. w_status (attempt_delivery cfg send now (subscription_of d s) d) = DELIVERY_FAILED \<and>
       (\<exists>x. subscription_of d s = Some x \<and> s_is_active x)) (due_deliveries limit s))"
proof -
  have "w_status d = DELIVERY_PENDING" if "d \<in> set (due_deliveries limit s)" for d
    using that set_order_limit [of w_id limit "filter (delivery_due (clock s (ticks s))) (deliveries s)"]
    by (auto simp: due_deliveries_def delivery_due_def)
  moreover have "\<forall>d\<in>set ds. w_status d = DELIVERY_PENDING \<Longrightarrow>
    webhook_deliveries_total (fold (\<lambda>d. attempt_delivery_metrics cfg send (subscription_of d s) d) ds m) ''sent'' =
      webhook_deliveries_total m ''sent'' +
      length (filter (\<lambda>d. w_status (attempt_delivery cfg send now (subscription_of d s) d) = DELIVERY_SENT) ds)" for ds
    by (induction ds arbitrary: m) (simp_all add: attempt_counted [where now = now])
  moreover have "\<forall>d\<in>set ds. w_status d = DELIVERY_PENDING \<Longrightarrow>
    webhook_deliveries_total (fold (\<lambda>d. attempt_delivery_metrics cfg send (subscription_of d s) d) ds m) ''failed'' =
      webhook_deliveries_total m ''failed'' +
      length (filter (\<lambda>d. w_status (attempt_delivery cfg send now (subscription_of d s) d) = DELIVERY_FAILED \<and>
       (\<exists>x. subscription_of d s = Some x \<and> s_is_active x)) ds)" for ds
    by (induction ds arbitrary: m) (simp_all add: attempt_counted [where now = now])
  ultimately show
    "webhook_deliveries_total (dispatch_due_metrics cfg send limit s m) ''sent'' = webhook_deliveries_total m ''sent'' +
     length (filter (\<lambda>d. w_status (attempt_delivery cfg send now (subscription_of d s) d) = DELIVERY_SENT) (due_deliveries limit s))"
    "webhook_deliveries_total (dispatch_due_metrics cfg send limit s m) ''failed'' = webhook_deliveries_total m ''failed'' +
     length (filter (\<lambda>d. w_status (attempt_delivery cfg send now (subscription_of d s) d) = DELIVERY_FAILED \<and>
       (\<exists>x. subscription_of d s = Some x \<and> s_is_active x)) (due_deliveries limit s))"
    unfolding dispatch_due_metrics_def subscription_of_def [symmetric] by blast+
qed

end
