(* ===== verification/Schemas.thy ===== *)
theory Schemas
  imports Views
begin

text \<open>
  The answers of the API: the response schemas (\<open>app/schemas/\<close>) as functions from the rows a
  route hands over to the JSON that is sent. A moment is rendered by \<open>JIso\<close>. The columns
  \<open>created_at\<close> and \<open>updated_at\<close> of tables whose rows are modelled without them come from
  \<open>stamps\<close>; a worker's counters of completed and failed tasks are never written, so they are 0.
\<close>

section \<open>Tasks\<close>

definition task_fields :: "task \<Rightarrow> (string \<times> json) list" where
  "task_fields t =
     [(''id'', JInt (t_id t)), (''task_type'', JStr (t_task_type t)), (''payload'', t_payload t),
      (''status'', JStr (status_name (t_status t))), (''priority'', JStr (priority_name (t_priority t))),
      (''max_attempts'', JInt (t_max_attempts t)), (''attempts'', JInt (t_attempts t)),
      (''idempotency_key'', json_of_option JStr (t_idempotency_key t)),
      (''scheduled_at'', json_of_option JIso (t_scheduled_at t)),
      (''started_at'', json_of_option JIso (t_started_at t)),
      (''finished_at'', json_of_option JIso (t_finished_at t)),
      (''result'', json_of_option id (t_result t)), (''last_error'', json_of_option JStr (t_last_error t)),
      (''created_by'', json_of_option JInt (t_created_by t)), (''batch_id'', json_of_option JInt (t_batch_id t)),
      (''dlq_requeue_count'', JInt (t_dlq_requeue_count t)), (''dlq_retry_at'', json_of_option JIso (t_dlq_retry_at t)),
      (''created_at'', JIso (t_created_at t)), (''updated_at'', JIso (t_updated_at t))]"

definition task_info :: "task \<Rightarrow> json" where
  "task_info t = JObj (task_fields t)"

fun attempt_status_name :: "attempt_status \<Rightarrow> string" where
  "attempt_status_name ARunning = ''running''"
| "attempt_status_name ASuccess = ''success''"
| "attempt_status_name AFailed = ''failed''"

definition attempt_info :: "attempt \<Rightarrow> json" where
  "attempt_info a =
     JObj [(''attempt_number'', JInt (a_attempt_number a)), (''worker_id'', json_of_option JStr (a_worker_id a)),
           (''status'', JStr (attempt_status_name (a_status a))),
           (''error_message'', json_of_option JStr (a_error_message a)), (''result'', json_of_option id (a_result a)),
           (''started_at'', json_of_option JIso (a_started_at a)), (''finished_at'', json_of_option JIso (a_finished_at a))]"

definition task_event_info :: "event \<Rightarrow> json" where
  "task_event_info e =
     JObj [(''id'', JInt (e_id e)), (''event_type'', JStr (e_event_type e)),
           (''old_status'', json_of_option (\<lambda>st. JStr (status_name st)) (e_old_status e)),
           (''new_status'', JStr (status_name (e_new_status e))), (''metadata'', json_of_option id (e_details e)),
           (''created_at'', JIso (e_created_at e))]"

definition task_detail :: "task \<Rightarrow> attempt list \<Rightarrow> event list \<Rightarrow> json" where
  "task_detail t as es =
     JObj (task_fields t @
       [(''attempts_'', JArr (map attempt_info as)), (''events_'', JArr (map task_event_info es))])"

definition items_of :: "nat \<Rightarrow> ('r \<Rightarrow> json) \<Rightarrow> 'r list \<Rightarrow> json" where
  \<comment> \<open>the pages \<open>TaskList\<close>, \<open>BatchList\<close>, \<open>DeliveryList\<close>, \<open>ApiTokenList\<close> and \<open>AuditList\<close>\<close>
  "items_of n info rows = JObj [(''total'', JInt (int n)), (''items'', JArr (map info rows))]"

definition task_list :: "nat \<Rightarrow> task list \<Rightarrow> json" where
  "task_list n ts = items_of n task_info ts"

definition task_event_timeline :: "int \<Rightarrow> event list \<Rightarrow> json" where
  "task_event_timeline tid es = JObj [(''task_id'', JInt tid), (''events'', JArr (map task_event_info es))]"

definition one_task_result :: "task \<Rightarrow> json" where
  \<comment> \<open>\<open>RetryResult\<close>, \<open>CancelResult\<close> and \<open>CreateResult\<close>\<close>
  "one_task_result t = JObj [(''task'', task_info t)]"

definition bulk_operation_item :: "int \<Rightarrow> string \<Rightarrow> json" where
  "bulk_operation_item tid reason = JObj [(''task_id'', JInt tid), (''reason'', JStr reason)]"

definition bulk_operation_result :: "nat \<Rightarrow> task list \<Rightarrow> (int \<times> string) list \<Rightarrow> json" where
  "bulk_operation_result n ts conflicts =
     JObj [(''total'', JInt (int n)), (''succeeded'', JArr (map task_info ts)),
           (''conflicts'', JArr (map (\<lambda>(tid, reason). bulk_operation_item tid reason) conflicts))]"

section \<open>Batches\<close>

type_synonym stamps = "string \<Rightarrow> int \<Rightarrow> time \<times> time"

definition batch_progress :: "progress \<Rightarrow> json" where
  "batch_progress p =
     JObj [(''total'', JInt (int (p_total p))), (''queued'', JInt (int (p_queued p))), (''running'', JInt (int (p_running p))),
           (''succeeded'', JInt (int (p_succeeded p))), (''failed'', JInt (int (p_failed p))),
           (''cancelled'', JInt (int (p_cancelled p))), (''pending'', JInt (int (p_pending p))),
           (''completed'', JInt (int (p_completed p)))]"

definition build_info :: "stamps \<Rightarrow> batch \<Rightarrow> progress \<Rightarrow> json" where
  "build_info stamps b progress =
     JObj [(''id'', JInt (b_id b)), (''name'', JStr (b_name b)), (''created_by'', json_of_option JInt (b_created_by b)),
           (''created_at'', JIso (fst (stamps ''task_batches'' (b_id b)))),
           (''updated_at'', JIso (snd (stamps ''task_batches'' (b_id b)))), (''progress'', batch_progress progress)]"

definition batch_create_result :: "stamps \<Rightarrow> batch \<Rightarrow> progress \<Rightarrow> task list \<Rightarrow> json" where
  "batch_create_result stamps b p ts =
     JObj [(''batch'', build_info stamps b p), (''created'', JArr (map task_info ts))]"

definition batch_task_list :: "stamps \<Rightarrow> batch \<Rightarrow> progress \<Rightarrow> nat \<Rightarrow> task list \<Rightarrow> json" where
  "batch_task_list stamps b p n ts =
     JObj [(''batch'', build_info stamps b p), (''total'', JInt (int n)), (''items'', JArr (map task_info ts))]"

definition batch_list :: "stamps \<Rightarrow> nat \<Rightarrow> (batch \<times> progress) list \<Rightarrow> json" where
  "batch_list stamps n rows = items_of n (\<lambda>(b, p). build_info stamps b p) rows"

definition batch_action_result :: "stamps \<Rightarrow> batch \<Rightarrow> progress \<Rightarrow> (int \<times> string) list \<Rightarrow> json" where
  "batch_action_result stamps b p conflicts =
     JObj [(''batch'', build_info stamps b p),
           (''actions'', JArr (map (\<lambda>(tid, reason). JObj [(''task_id'', JInt tid), (''reason'', JStr reason)]) conflicts))]"

section \<open>Webhooks\<close>

definition webhook_info :: "stamps \<Rightarrow> subscription \<Rightarrow> json" where
  "webhook_info stamps sub =
     JObj [(''id'', JInt (s_id sub)), (''name'', JStr (s_name sub)), (''url'', JStr (s_url sub)),
           (''events'', JArr (map JStr (s_events sub))), (''is_active'', JBool (s_is_active sub)),
           (''created_at'', JIso (fst (stamps ''webhook_subscriptions'' (s_id sub)))),
           (''updated_at'', JIso (snd (stamps ''webhook_subscriptions'' (s_id sub))))]"

definition delivery_info :: "stamps \<Rightarrow> delivery \<Rightarrow> json" where
  "delivery_info stamps d =
     JObj [(''id'', JInt (w_id d)), (''subscription_id'', JInt (w_subscription_id d)),
           (''event_type'', JStr (w_event_type d)), (''task_id'', json_of_option JInt (w_task_id d)),
           (''status'', JStr (delivery_status_name (w_status d))), (''attempts'', JInt (w_attempts d)),
           (''next_retry_at'', JIso (w_next_retry_at d)), (''last_error'', json_of_option JStr (w_last_error d)),
           (''created_at'', JIso (fst (stamps ''webhook_deliveries'' (w_id d))))]"

definition delivery_list :: "stamps \<Rightarrow> nat \<Rightarrow> delivery list \<Rightarrow> json" where
  "delivery_list stamps n ds = items_of n (delivery_info stamps) ds"

definition test_result :: "bool \<Rightarrow> string option \<Rightarrow> int option \<Rightarrow> json" where
  \<comment> \<open>the answer of a test delivery: the error, or \<open>ok\<close> if there is none\<close>
  "test_result ok error status_code =
     JObj [(''ok'', JBool ok),
           (''detail'', JStr (case error of None \<Rightarrow> ''ok'' | Some e \<Rightarrow> if e = [] then ''ok'' else e)),
           (''status_code'', json_of_option JInt status_code), (''deliveries_created'', JInt 0)]"

section \<open>Accounts\<close>

definition user_out :: "stamps \<Rightarrow> user \<Rightarrow> json" where
  "user_out stamps u =
     JObj [(''id'', JInt (u_id u)), (''username'', JStr (u_username u)), (''role'', JStr (u_role u)),
           (''is_active'', JBool (u_active u)), (''created_at'', JIso (fst (stamps ''users'' (u_id u)))),
           (''last_login_at'', json_of_option JIso (u_last_login_at u))]"

definition token_response_out :: "stamps \<Rightarrow> token_response \<Rightarrow> json" where
  "token_response_out stamps r =
     JObj [(''access_token'', JStr (access_token r)), (''refresh_token'', JStr (refresh_token r)),
           (''token_type'', JStr ''bearer''), (''user'', user_out stamps (token_user r))]"

definition api_token_info :: "stamps \<Rightarrow> api_token \<Rightarrow> json" where
  "api_token_info stamps p =
     JObj [(''id'', JInt (p_id p)), (''name'', JStr (p_name p)), (''user_id'', JInt (p_user_id p)),
           (''last_used_at'', json_of_option JIso (p_last_used_at p)), (''expires_at'', json_of_option JIso (p_expires_at p)),
           (''revoked_at'', json_of_option JIso (p_revoked_at p)),
           (''created_at'', JIso (fst (stamps ''api_tokens'' (p_id p))))]"

definition api_token_created :: "stamps \<Rightarrow> string \<Rightarrow> api_token \<Rightarrow> json" where
  "api_token_created stamps token p = JObj [(''token'', JStr token), (''api_token'', api_token_info stamps p)]"

definition api_token_list :: "stamps \<Rightarrow> nat \<Rightarrow> api_token list \<Rightarrow> json" where
  "api_token_list stamps n ps = items_of n (api_token_info stamps) ps"

section \<open>Audit and workers\<close>

definition audit_info :: "audit_log \<Rightarrow> json" where
  "audit_info g =
     JObj [(''id'', JInt (g_id g)), (''actor_id'', json_of_option JInt (g_actor_id g)),
           (''actor_username'', json_of_option JStr (g_actor_username g)), (''action'', JStr (g_action g)),
           (''resource_type'', JStr (g_resource_type g)), (''resource_id'', json_of_option JStr (g_resource_id g)),
           (''details'', json_of_option id (g_details g)), (''ip_address'', json_of_option JStr (g_ip_address g)),
           (''created_at'', JIso (g_created_at g))]"

definition audit_list :: "nat \<Rightarrow> audit_log list \<Rightarrow> json" where
  "audit_list n gs = items_of n audit_info gs"

fun worker_status_name :: "worker_status \<Rightarrow> string" where
  "worker_status_name WORKER_ALIVE = ''alive''"
| "worker_status_name WORKER_DEAD = ''dead''"

definition worker_info :: "worker \<Rightarrow> json" where
  "worker_info w =
     JObj [(''id'', JInt (k_id w)), (''worker_id'', JStr (k_worker_id w)), (''hostname'', JStr (k_hostname w)),
           (''pid'', JInt (k_pid w)), (''status'', JStr (worker_status_name (k_status w))),
           (''started_at'', JIso (k_started_at w)), (''last_heartbeat_at'', JIso (k_last_heartbeat_at w)),
           (''completed_tasks'', JInt 0), (''failed_tasks'', JInt 0)]"

section \<open>What the answers show, and what they do not\<close>

lemma option_text_inj:
  "json_of_option JStr x = json_of_option JStr y \<longleftrightarrow> x = y"
  "json_of_option JInt i = json_of_option JInt j \<longleftrightarrow> i = j"
  "json_of_option JIso m = json_of_option JIso n \<longleftrightarrow> m = n"
  subgoal by (cases x; cases y) simp_all
  subgoal by (cases i; cases j) simp_all
  subgoal by (cases m; cases n) simp_all
  done

lemma option_json_inj:
  "x \<noteq> Some JNull \<Longrightarrow> y \<noteq> Some JNull \<Longrightarrow> json_of_option id x = json_of_option id y \<longleftrightarrow> x = y"
  by (cases x; cases y) auto

lemma status_name_inj: "status_name st = status_name st' \<longleftrightarrow> st = st'"
  by (cases st; cases st') simp_all

lemma priority_name_inj: "priority_name p = priority_name q \<longleftrightarrow> p = q"
  by (cases p; cases q) simp_all

lemma task_info_shows:
  assumes "task_info t = task_info u" "t_result t \<noteq> Some JNull" "t_result u \<noteq> Some JNull"
  shows "u = t\<lparr>t_lease_owner := t_lease_owner u, t_lease_expires_at := t_lease_expires_at u\<rparr>"
  using assms
  by (cases t; cases u)
    (simp add: task_info_def task_fields_def option_text_inj option_json_inj status_name_inj priority_name_inj)

text \<open>The database without the hashes of passwords and API tokens and the secrets of webhooks.\<close>

definition blinded :: "db \<Rightarrow> db" where
  "blinded s =
     s\<lparr>users := map (\<lambda>u. u\<lparr>u_password_hash := []\<rparr>) (users s),
       api_tokens := map (\<lambda>p. p\<lparr>p_token_hash := []\<rparr>) (api_tokens s),
       subscriptions := map (\<lambda>sub. sub\<lparr>s_secret := None\<rparr>) (subscriptions s)\<rparr>"

lemma hides [simp]:
  "webhook_info stamps (sub\<lparr>s_secret := x\<rparr>) = webhook_info stamps sub"
  "api_token_info stamps (p\<lparr>p_token_hash := h\<rparr>) = api_token_info stamps p"
  "user_out stamps (u\<lparr>u_password_hash := h\<rparr>) = user_out stamps u"
  "token_filter uid (p\<lparr>p_token_hash := h\<rparr>) = token_filter uid p"
  by (simp_all add: webhook_info_def api_token_info_def user_out_def token_filter_def split: option.split)

lemma insort_key_map: "insort_key k (f x) (map f xs) = map f (insort_key (\<lambda>x. k (f x)) x xs)"
  by (induction xs) simp_all

lemma sort_key_map: "sort_key k (map f xs) = map f (sort_key (\<lambda>x. k (f x)) xs)"
  by (induction xs) (simp_all add: insort_key_map)

lemma webhooks_blinded:
  "map (webhook_info stamps) (list_webhooks (blinded s)) = map (webhook_info stamps) (list_webhooks s)"
  by (simp add: list_webhooks_def blinded_def sort_key_map rev_map o_def)

lemma api_tokens_blinded:
  "map (api_token_info stamps) (list_tokens uid limit offset (blinded s)) = map (api_token_info stamps) (list_tokens uid limit offset s)"
  "count_tokens uid (blinded s) = count_tokens uid s"
  by (simp_all add: list_tokens_def count_tokens_def page_def blinded_def sort_key_map rev_map
      filter_map o_def flip: take_map drop_map)

lemma users_blinded: "get_user_by_id (blinded s) i = map_option (\<lambda>u. u\<lparr>u_password_hash := []\<rparr>) (get_user_by_id s i)"
proof -
  have "find_row u_id i (map (\<lambda>u. u\<lparr>u_password_hash := []\<rparr>) us) =
      map_option (\<lambda>u. u\<lparr>u_password_hash := []\<rparr>) (find_row u_id i us)" for us
    by (induction us) (simp_all add: table_simps)
  then show ?thesis by (simp add: get_user_by_id_def blinded_def)
qed

lemma user_out_blinded:
  "map_option (user_out stamps) (get_user_by_id (blinded s) i) = map_option (user_out stamps) (get_user_by_id s i)"
  by (simp add: users_blinded option.map_comp o_def)

end
