(* ===== verification/Worker_Properties.thy ===== *)
theory Worker_Properties
  imports Telemetry Schemas Sample
begin

text \<open>
  The properties of the worker process and of the background passes: claiming and executing a
  task, renewing its lease, recovering and requeueing, relaying messages, delivering webhooks and
  the retention.
\<close>

section \<open>Claiming and executing\<close>

text \<open>C12: a claim succeeds exactly for a queued task whose lease is free. It gives the worker the
  running task with a lease and one more attempt, the next in its numbering, changes no other
  task, publishes nothing, and shuts out every other claim of the task.\<close>

theorem claim_exclusive:
  assumes "integrity s"
  shows "if \<exists>t. get_task_row tid s = Some t \<and> t_status t = Queued \<and> lease_free (clock s (ticks s)) t
    then \<exists>t now now' s'. get_task_row tid s = Some t \<and>
      claim cfg w tid s = Ok (Claimed (claimed_row cfg w t now s) (seq_attempt s)) s' \<and>
      (\<forall>j. get_task_row j s' = (if j = tid then Some (claimed_row cfg w t now s) else get_task_row j s)) \<and>
      attempts s' = attempts s @ [claimed_attempt w t now' s] \<and> outbox s' = outbox s \<and>
      (\<forall>w'. \<exists>s''. claim cfg w' tid s' = Ok NotAcquired s'')
    else \<exists>s'. claim cfg w tid s = Ok NotAcquired s' \<and> tasks s' = tasks s \<and> attempts s' = attempts s"
  using assms
proof (cases rule: claim_cases [where cfg = cfg and w = w and tid = tid])
  case refused
  then show ?thesis by auto
next
  case (claimed t now now' s')
  have "\<exists>s''. claim cfg w' tid s' = Ok NotAcquired s''" for w'
    using claimed(5)
  proof (cases rule: claim_cases [where cfg = cfg and w = w' and tid = tid])
    case refused
    then show ?thesis by blast
  next
    case (claimed u)
    then show ?thesis using claimed(1,2) \<open>\<And>j. get_task_row j s' = _\<close> by (auto simp: claimed_row_def started_row_def)
  qed
  then show ?thesis using claimed by auto
qed

theorem claim_exclusive_witness:
  "\<exists>obj aid s' s''. claim default_settings ''w2'' 4 sample_db = Ok (Claimed obj aid) s' \<and>
    claim default_settings ''w3'' 4 s' = Ok NotAcquired s''"
proof -
  have "\<exists>t. get_task_row 4 sample_db = Some t \<and> t_status t = Queued \<and> lease_free (clock sample_db (ticks sample_db)) t"
    using sample_rows(2) by (simp add: sample_task_def lease_free_def)
  then show ?thesis using claim_exclusive [OF sample_integrity, of 4 default_settings "''w2''"] by auto
qed

definition sample_python :: python where
  "sample_python = \<lparr>parse_float = (\<lambda>w. map_option of_int (read_int w)), py_str = (\<lambda>_. ''?''), py_repr = (\<lambda>_. ''?'')\<rparr>"





text \<open>C30: a message without a readable task id is rejected and changes nothing; one whose task is
  gone, is not queued or is leased to another worker is acknowledged and changes nothing but the
  readings of the clock.\<close>

theorem message_not_executed:
  assumes "integrity s" "\<And>b tid t. decode_payload body = Some b \<Longrightarrow> message_task_id parse_int b = Some tid \<Longrightarrow>
      get_task_row tid s = Some t \<Longrightarrow> t_status t \<noteq> Queued \<or> \<not> lease_free (clock s (ticks s)) t"
  shows "handle_message py parse_int handlers others cfg w body s =
    (case Option.bind (decode_payload body) (message_task_id parse_int) of
       None \<Rightarrow> (Nack, s) | Some tid \<Rightarrow> (Ack, s\<lparr>ticks := ticks s + 2\<rparr>))"
proof (cases "Option.bind (decode_payload body) (message_task_id parse_int)")
  case None
  then show ?thesis by (cases "decode_payload body") (auto simp: handle_unusable)
next
  case (Some tid)
  then obtain b where b: "decode_payload body = Some b" "message_task_id parse_int b = Some tid"
    by (auto simp: Option.bind_eq_Some_conv)
  show ?thesis using handle_refused [OF assms(1) b] assms(2) [OF b] Some by simp
qed

theorem message_not_executed_witness:
  "handle_message sample_python read_int (registry sample_python) (\<lambda>s. s) default_settings ''w2''
     (Some (task_message (sample_task 7 Success 1))) sample_db = (Ack, sample_db\<lparr>ticks := 2\<rparr>)"
proof -
  have body: "decode_payload (Some (task_message (sample_task 7 Success 1))) = Some (task_message (sample_task 7 Success 1))"
    "message_task_id read_int (task_message (sample_task 7 Success 1)) = Some 7"
    by (simp_all add: decode_payload_def message_task_id_def task_message_def sample_task_def)
  have "get_task_row 7 sample_db = Some (sample_task 7 Success 1)"
    by (simp add: get_task_row_def find_row_def sample_defs)
  then have "t_status t \<noteq> Queued" if "get_task_row 7 sample_db = Some t" for t
    using that by (auto simp: sample_task_def)
  then show ?thesis
    by (subst message_not_executed [OF sample_integrity]) (auto simp: body, simp add: sample_db_def)
qed

lemma message_round_trip:
  "decode_payload (Some (task_message t)) = Some (task_message t) \<and>
   message_task_id parse_int (task_message t) = Some (t_id t) \<and>
   message_task_id parse_int (reattempt_message t) = Some (t_id t) \<and>
   priority_value (task_message t) = rabbit_priority (t_priority t) \<and>
   (t_priority t \<le> t_priority u \<longleftrightarrow> priority_value (task_message t) \<le> priority_value (reattempt_message u))"
  by (cases "t_priority t"; cases "t_priority u")
    (simp_all add: decode_payload_def message_task_id_def priority_value_def task_message_def reattempt_message_def
      PRIORITY_TO_RABBIT_def less_eq_task_priority_def)



section \<open>The passes of the coordinator\<close>

lemma stuck_tasks_recovered:
  assumes "integrity s"
  shows "\<exists>s'. recover_stuck_tasks cfg limit s = Ok (length (expired_tasks limit s)) s' \<and> integrity s' \<and>
    takes_to_queue cfg requeued_row (expired_tasks limit s) s s'"
  by (rule recover_stuck_tasks_effect [OF assms, of cfg limit]) blast

lemma due_tasks_requeued:
  assumes "integrity s"
  shows "(\<exists>s'. requeue_due_tasks cfg limit s = Ok (length (due_tasks limit s)) s' \<and> integrity s' \<and>
      takes_to_queue cfg requeued_row (due_tasks limit s) s s') \<and>
    (if dlq_retry_enabled cfg
     then \<exists>s'. requeue_dlq_tasks cfg limit s = Ok (length (dlq_due_tasks cfg limit s)) s' \<and> integrity s' \<and>
       takes_to_queue cfg dlq_row (dlq_due_tasks cfg limit s) s s'
     else requeue_dlq_tasks cfg limit s = Ok 0 s)"
proof
  show "\<exists>s'. requeue_due_tasks cfg limit s = Ok (length (due_tasks limit s)) s' \<and> integrity s' \<and>
      takes_to_queue cfg requeued_row (due_tasks limit s) s s'"
    by (rule requeue_due_tasks_effect [OF assms, of cfg limit]) blast
  show "if dlq_retry_enabled cfg
    then \<exists>s'. requeue_dlq_tasks cfg limit s = Ok (length (dlq_due_tasks cfg limit s)) s' \<and> integrity s' \<and>
      takes_to_queue cfg dlq_row (dlq_due_tasks cfg limit s) s s'
    else requeue_dlq_tasks cfg limit s = Ok 0 s"
  proof (cases "dlq_retry_enabled cfg")
    case True
    show ?thesis by (rule requeue_dlq_tasks_effect [OF assms True, of limit]) (use True in auto)
  qed (simp add: requeue_dlq_tasks_def)
qed

text \<open>C17: each requeueing pass of the coordinator takes up exactly its tasks, up to its limit: the
  recovery the running or queued tasks whose lease has expired, the longest expired first, the due
  pass those whose retry or scheduled time has come, the earliest first, and the dead-letter pass
  those whose next cycle is due and which have cycles left, with one cycle more on their count,
  unless the cycles are switched off. Each of them is queued again without a lease, with its content
  and its counters, and published once, in order; no other task changes. A turn of the coordinator
  completes all four passes: none raises, and the database stays sound.\<close>

theorem passes_requeue:
  assumes "integrity s"
  shows "(\<exists>s'. recover_stuck_tasks cfg limit s = Ok (length (expired_tasks limit s)) s' \<and> integrity s' \<and>
      takes_to_queue cfg requeued_row (expired_tasks limit s) s s') \<and>
    (\<exists>s'. requeue_due_tasks cfg limit s = Ok (length (due_tasks limit s)) s' \<and> integrity s' \<and>
      takes_to_queue cfg requeued_row (due_tasks limit s) s s') \<and>
    (if dlq_retry_enabled cfg
     then \<exists>s'. requeue_dlq_tasks cfg limit s = Ok (length (dlq_due_tasks cfg limit s)) s' \<and> integrity s' \<and>
       takes_to_queue cfg dlq_row (dlq_due_tasks cfg limit s) s s'
     else requeue_dlq_tasks cfg limit s = Ok 0 s) \<and>
    (\<exists>a b c d s'. coordinator_tick cfg s = (Some [a, b, c, d], s') \<and> integrity s')"
  using stuck_tasks_recovered [OF assms, of cfg limit] due_tasks_requeued [OF assms, of cfg limit]
    coordinator_tick_complete [OF assms, of cfg]
  by (intro conjI) simp_all

theorem passes_requeue_witness:
  "(\<exists>s' t. recover_stuck_tasks default_settings 50 sample_db = Ok 1 s' \<and> get_task_row 1 s' = Some t \<and>
      t_status t = Queued \<and> t_lease_owner t = None) \<and>
   (\<exists>s' t. requeue_dlq_tasks default_settings 50 sample_db = Ok 1 s' \<and> get_task_row 5 s' = Some t \<and> t_status t = Queued)"
proof -
  have "map t_id (expired_tasks 50 sample_db) = [1]" "map t_id (dlq_due_tasks default_settings 50 sample_db) = [5]"
    "dlq_retry_enabled default_settings"
    by code_simp+
  then obtain u v where uv: "expired_tasks 50 sample_db = [u]" "t_id u = 1"
      "dlq_due_tasks default_settings 50 sample_db = [v]" "t_id v = 5" "dlq_retry_enabled default_settings"
    by auto
  note passes = passes_requeue [OF sample_integrity, of default_settings 50]
  from passes obtain s1 where "recover_stuck_tasks default_settings 50 sample_db = Ok (length (expired_tasks 50 sample_db)) s1"
    "takes_to_queue default_settings requeued_row (expired_tasks 50 sample_db) sample_db s1"
    by blast
  moreover from passes obtain s2 where "requeue_dlq_tasks default_settings 50 sample_db = Ok (length (dlq_due_tasks default_settings 50 sample_db)) s2"
    "takes_to_queue default_settings dlq_row (dlq_due_tasks default_settings 50 sample_db) sample_db s2"
    using uv(5) by auto
  ultimately show ?thesis using uv by (auto simp: takes_to_queue_def requeued_row_def dlq_row_def)
qed

section \<open>Messages and deliveries\<close>

text \<open>C18: a relay pass with a working broker offers it exactly the pending messages up to the limit,
  in the order of their ids; those it takes are marked as sent, those it refuses stay pending, and
  no message is lost or changed.\<close>

theorem relay_in_order:
  "\<exists>s'. publish_pending_events True send limit s =
      Some (length (pending_events limit s), relayed send (pending_events limit s), s') \<and>
    map key_of (outbox s') = map key_of (outbox s) \<and>
    map (\<lambda>e. (o_id e, o_status e)) (outbox s') =
      map (\<lambda>e. (o_id e, if \<exists>oe\<in>set (pending_events limit s). o_id oe = o_id e \<and> send oe = None
        then OUTBOX_SENT else o_status e)) (outbox s) \<and>
    sorted (map o_id (pending_events limit s))"
proof -
  have "sorted (map o_id (pending_events limit s))"
    by (simp add: pending_events_def order_limit_def sorted_wrt_take flip: take_map)
  moreover obtain s' where "publish_pending_events True send limit s =
      Some (length (pending_events limit s), relayed send (pending_events limit s), s')"
    "map key_of (outbox s') = map key_of (outbox s)"
    "map (\<lambda>e. (o_id e, o_status e)) (outbox s') =
      map (\<lambda>e. (o_id e, if \<exists>oe\<in>set (pending_events limit s). o_id oe = o_id e \<and> send oe = None
        then OUTBOX_SENT else o_status e)) (outbox s)"
    by (rule relay_effect)
  ultimately show ?thesis by (intro exI conjI)
qed

text \<open>C14: a pending message with fewer than 200 pending messages before it is sent by the relay
  loop, whatever happens in the turns: at the latest in the first turn that finds the broker online
  and willing to take it, through any outages, refusals and lost commits, and whatever messages
  other sessions add.\<close>

theorem relay_loop_delivers:
  assumes "streams_ok cfg s" "oe \<in> set (outbox s)" "o_status oe = OUTBOX_PENDING" "in_front (o_id oe) s < 200"
    and "\<forall>turn\<in>set turns. adds_messages cfg (before_turn turn)"
    and "turn \<in> set turns" "broker_online turn" "\<forall>oe'. key_of oe' = key_of oe \<longrightarrow> publish_error turn oe' = None"
  shows "message_of oe \<in> set (concat (fst (outbox_relay_loop turns s)))"
proof -
  have "waiting (key_of oe) s" "in_front (fst (key_of oe)) s < 200"
    using assms(2-4) by (simp_all add: waiting_def pending_def key_of_def)
  from outbox_relay_loop_delivers [OF assms(1) this assms(5-8)] show ?thesis using message_of_key by metis
qed

definition sample_turns :: "relay_turn list" where
  "sample_turns =
     [\<lparr>before_turn = \<lambda>s. s, broker_online = False, publish_error = \<lambda>_. None, commit_succeeds = True\<rparr>,
      \<lparr>before_turn = \<lambda>s. s, broker_online = True, publish_error = \<lambda>_. Some ''refused'', commit_succeeds = True\<rparr>,
      \<lparr>before_turn = \<lambda>s. s, broker_online = True, publish_error = \<lambda>_. None, commit_succeeds = True\<rparr>]"

theorem relay_loop_delivers_witness:
  "message_of (hd (outbox sample_db)) \<in> set (concat (fst (outbox_relay_loop sample_turns sample_db)))"
proof -
  have ok: "streams_ok default_settings sample_db" "in_front (o_id (hd (outbox sample_db))) sample_db < 200"
    "hd (outbox sample_db) \<in> set (outbox sample_db)" "o_status (hd (outbox sample_db)) = OUTBOX_PENDING"
    by code_simp+
  have adds: "\<forall>turn\<in>set sample_turns. adds_messages default_settings (before_turn turn)"
    by (auto simp: sample_turns_def adds_messages_def)
  have "last sample_turns \<in> set sample_turns" "broker_online (last sample_turns)"
    "\<forall>oe'. key_of oe' = key_of (hd (outbox sample_db)) \<longrightarrow> publish_error (last sample_turns) oe' = None"
    by (simp_all add: sample_turns_def)
  from relay_loop_delivers [OF ok(1,3,4,2) adds this] show ?thesis .
qed

section \<open>Webhooks\<close>

text \<open>C32: an event of a task creates one pending delivery for every active subscription that wants
  the event, in the order of the subscriptions, with the event, the task and the delivery's own id
  in its body, and none for the others; and a dispatch pass attempts exactly the pending deliveries
  that are due, up to the limit: a success ends them, a failure counts and postpones them by the
  backoff until their attempts are used up, and all other deliveries stay as they are.\<close>

theorem webhook_deliveries:
  assumes "distinct (map w_id (deliveries s))"
  shows "(\<exists>new. deliveries (enqueue_for ev obj s) = deliveries s @ new \<and>
      map w_subscription_id new = map s_id (filter (\<lambda>sub. s_is_active sub \<and> matches sub ev) (subscriptions s)) \<and>
      (\<forall>d\<in>set new. new_delivery ev obj d)) \<and>
    dispatch_due cfg send limit s =
      (length (due_deliveries limit s),
       s\<lparr>ticks := Suc (ticks s),
         deliveries := map (\<lambda>d. if d \<in> set (due_deliveries limit s)
           then attempt_delivery cfg send (clock s (ticks s)) (find_row s_id (w_subscription_id d) (subscriptions s)) d
           else d) (deliveries s)\<rparr>)"
proof
  show "\<exists>new. deliveries (enqueue_for ev obj s) = deliveries s @ new \<and>
      map w_subscription_id new = map s_id (filter (\<lambda>sub. s_is_active sub \<and> matches sub ev) (subscriptions s)) \<and>
      (\<forall>d\<in>set new. new_delivery ev obj d)"
    by (rule enqueue_for_effect [of ev obj s]) blast
qed (rule dispatch_due_effect [OF assms])

theorem webhook_deliveries_witness:
  "fst (dispatch_due default_settings (\<lambda>sub body. (True, Some 200, [])) 50 sample_db) = 1 \<and>
   (\<exists>d. deliveries (enqueue_for ''task.queued'' (sample_task 4 Queued 0) sample_db) = deliveries sample_db @ [d] \<and>
     w_subscription_id d = 1 \<and> new_delivery ''task.queued'' (sample_task 4 Queued 0) d)"
proof -
  have "distinct (map w_id (deliveries sample_db))" by code_simp
  note both = webhook_deliveries [OF this, where ev = "''task.queued''" and obj = "sample_task 4 Queued 0"
      and cfg = default_settings and send = "\<lambda>sub body. (True, Some 200, [])" and limit = 50]
  have "map s_id (filter (\<lambda>sub. s_is_active sub \<and> matches sub ''task.queued'') (subscriptions sample_db)) = [1]"
    by code_simp
  moreover obtain new where "deliveries (enqueue_for ''task.queued'' (sample_task 4 Queued 0) sample_db) = deliveries sample_db @ new"
      "map w_subscription_id new = map s_id (filter (\<lambda>sub. s_is_active sub \<and> matches sub ''task.queued'') (subscriptions sample_db))"
      "\<forall>d\<in>set new. new_delivery ''task.queued'' (sample_task 4 Queued 0) d"
    using conjunct1 [OF both] by (elim exE conjE) (rule that)
  moreover have "length (due_deliveries 50 sample_db) = 1" by code_simp
  ultimately show ?thesis using conjunct2 [OF both] by (cases new) auto
qed

section \<open>Retention\<close>

text \<open>C33: the retention deletes only tasks that are old enough: those that ended before the limit of
  ended tasks, and dead letters without a further cycle that ended before the limit of dead
  letters; it changes no task it keeps.\<close>

theorem purge_only_old:
  assumes "distinct (map t_id (tasks s))" "s' = snd (purge_old_data cfg limit_arg s)"
  shows "set (tasks s') \<subseteq> set (tasks s) \<and>
    (\<forall>t\<in>set (tasks s). t \<notin> set (tasks s') \<longrightarrow> old_enough cfg (clock s (ticks s)) t)"
  using purge_effect [OF assms(1)] unfolding assms(2) by blast

theorem purge_only_old_witness:
  "set (tasks (snd (purge_old_data default_settings None sample_db))) = set (tasks sample_db)"
proof -
  have "distinct (map t_id (tasks sample_db))" by code_simp
  moreover have "\<forall>t\<in>set (tasks sample_db). \<not> old_enough default_settings (clock sample_db (ticks sample_db)) t" by code_simp
  ultimately show ?thesis using purge_only_old [of sample_db _ default_settings None] by blast
qed

section \<open>What the API shows\<close>


end
