(* ===== verification/Auth_Correct.thy ===== *)
theory Auth_Correct
  imports Accounts
begin

text \<open>
  What the authentication does: tokens are accepted exactly in their lifetime and for active
  users, a refresh token is rotated on use, a password change and a deactivation revoke the
  user's refresh tokens, an API token authenticates its owner, and a refused request leaves the
  tables as they were. The documented behaviour of PyJWT and bcrypt is a hypothesis.
\<close>

section \<open>The libraries\<close>

text \<open>
  PyJWT writes instants as whole seconds, and accepts a token it has signed from its \<open>iat\<close> on and
  before its \<open>exp\<close>; \<open>int\<close> reads what \<open>str\<close> wrote.
\<close>

definition whole_second :: "time \<Rightarrow> time" where
  "whole_second t = t div 1000000 * 1000000"

definition wire_claims :: "string \<Rightarrow> string \<Rightarrow> string \<Rightarrow> time \<Rightarrow> time \<Rightarrow> claims" where
  "wire_claims sub ty jti iat ex =
     [(''sub'', JStr sub), (''type'', JStr ty), (''jti'', JStr jti),
      (''iat'', JInt (iat div 1000000)), (''exp'', JInt (ex div 1000000))]"

definition jwt_documented :: "auth_api \<Rightarrow> bool" where
  "jwt_documented api \<longleftrightarrow>
     (\<forall>t sub ty jti iat ex.
        jwt_decode api t (jwt_encode api [(''sub'', JStr sub), (''type'', JStr ty), (''jti'', JStr jti),
          (''iat'', JIso iat), (''exp'', JIso ex)]) =
        (if whole_second iat \<le> t \<and> t < whole_second ex then Some (wire_claims sub ty jti iat ex) else None)) \<and>
     (\<forall>n. int_of_text api (show_int n) = Some n)"

definition bcrypt_documented :: "auth_api \<Rightarrow> bool" where
  "bcrypt_documented api \<longleftrightarrow> (\<forall>salt p. checkpw api p (hashpw api salt p) = Some True)"

text \<open>A clock that does not run backwards nor jump by a day between two readings.\<close>

definition steady :: "db \<Rightarrow> bool" where
  "steady s \<longleftrightarrow> (\<forall>n. clock s n \<le> clock s (Suc n) \<and> clock s (Suc n) + 1000000 < clock s n + timedelta_days 1)"

section \<open>Issued tokens\<close>

definition issued :: "auth_api \<Rightarrow> int \<Rightarrow> string \<Rightarrow> string \<Rightarrow> time \<Rightarrow> time \<Rightarrow> string" where
  \<comment> \<open>the token of a user issued at \<open>iat\<close>\<close>
  "issued api uid ty jti d iat = jwt_encode api (token_claims uid ty jti d iat)"

definition in_lifetime :: "time \<Rightarrow> time \<Rightarrow> time \<Rightarrow> bool" where
  "in_lifetime d iat t \<longleftrightarrow> whole_second iat \<le> t \<and> t < whole_second (iat + d)"

lemma jwt_token_issued: "jwt_token api uid ty jti d s = (issued api uid ty jti d (clock s (ticks s)), s\<lparr>ticks := Suc (ticks s)\<rparr>)"
  by (simp add: jwt_token_def now_utc_def issued_def)

lemma decode_issued:
  assumes "jwt_documented api"
  shows "decode_token api (issued api uid ty jti d iat) s =
    (if in_lifetime d iat (clock s (ticks s)) then Some (wire_claims (show_int uid) ty jti iat (iat + d)) else None,
     s\<lparr>ticks := Suc (ticks s)\<rparr>)"
  using assms by (simp add: decode_token_def now_utc_def issued_def token_claims_def jwt_documented_def in_lifetime_def)

lemma checked_issued:
  assumes "jwt_documented api"
  shows "checked_claims api ty' (Some (wire_claims (show_int uid) ty jti iat ex)) =
    (if ty = ty' then Inr (wire_claims (show_int uid) ty jti iat ex, uid) else Inl 401)"
  using assms by (auto simp: checked_claims_def wire_claims_def subject_of_def jwt_documented_def)

lemma checked_None [simp]: "checked_claims api ty None = Inl 401"
  by (simp add: checked_claims_def)

lemma get_user_ticks [simp]: "get_user_by_id (s\<lparr>ticks := n\<rparr>) uid = get_user_by_id s uid"
  by (simp add: get_user_by_id_def)

lemma get_current_user_issued:
  assumes "jwt_documented api" "\<not> is_api_token cfg (issued api uid ty jti d iat)"
  shows "get_current_user cfg api (Some (issued api uid ty jti d iat)) s =
    (case get_user_by_id s uid of
       Some u \<Rightarrow> (if ty = TOKEN_TYPE_ACCESS \<and> in_lifetime d iat (clock s (ticks s)) \<and> u_active u then Reply u else Status 401)
     | None \<Rightarrow> Status 401, s\<lparr>ticks := Suc (ticks s)\<rparr>)"
  using assms(2) by (auto simp: get_current_user_def decode_issued [OF assms(1)] checked_issued [OF assms(1)] split: option.split)

lemma get_current_user_sound:
  assumes "get_current_user cfg api credentials s = (Reply u, s')"
  shows "u \<in> set (users s) \<and> u_active u \<and> users s' = users s"
  using assms
  by (auto simp: get_current_user_def decode_token_def authenticate_api_token_def authenticate_def now_utc_def
      get_user_by_id_def split: option.splits if_splits prod.splits sum.splits dest!: find_row_SomeD)

lemma require_roles_iff:
  "require_roles allowed who = Reply u \<longleftrightarrow> who = Reply u \<and> u_role u \<in> set allowed"
  "require_roles allowed who = Status c \<longleftrightarrow> who = Status c \<or> (\<exists>u. who = Reply u \<and> u_role u \<notin> set allowed \<and> c = 403)"
  by (cases who; auto simp: require_roles_def)+

lemma authenticate_ws_iff:
  assumes "\<not> is_api_token cfg token"
  shows "fst (authenticate_ws api token s) = Some i \<longleftrightarrow>
    (\<exists>u. fst (get_current_user cfg api (Some token) s) = Reply u \<and> u_id u = i)"
  using assms
  by (auto simp: authenticate_ws_def get_current_user_def case_prod_beta split: sum.split option.split)

section \<open>Refresh tokens\<close>

lemma whole_second_div [simp]: "whole_second t div 1000000 = t div 1000000"
  by (simp add: whole_second_def)

lemma whole_second_bounds: "whole_second t \<le> t" "t < whole_second t + 1000000"
  unfolding whole_second_def by linarith+

lemma in_lifetime_next:
  assumes "steady s" "1 \<le> days"
  shows "in_lifetime (timedelta_days days) (clock s n) (clock s (Suc n))"
proof -
  have "clock s n \<le> clock s (Suc n)" "clock s (Suc n) + 1000000 < clock s n + timedelta_days 1"
    using assms(1) by (auto simp: steady_def)
  moreover have "timedelta_days 1 \<le> timedelta_days days" using assms(2) by (simp add: timedelta_days_def)
  ultimately show ?thesis
    unfolding in_lifetime_def
    using whole_second_bounds [of "clock s n"] whole_second_bounds [of "clock s n + timedelta_days days"] by linarith
qed

definition new_refresh :: "settings \<Rightarrow> string \<Rightarrow> int \<Rightarrow> db \<Rightarrow> refresh_token" where
  \<comment> \<open>the row of a refresh token issued in the state\<close>
  "new_refresh cfg jti uid s =
     \<lparr>r_id = seq_refresh s, r_user_id = uid, r_jti = jti,
      r_expires_at = whole_second (clock s (ticks s) + timedelta_days (refresh_token_expire_days cfg)), r_revoked_at = None\<rparr>"

definition can_issue :: "settings \<Rightarrow> auth_api \<Rightarrow> string \<Rightarrow> db \<Rightarrow> bool" where
  \<comment> \<open>a fresh \<open>uuid4\<close>, a lifetime of a day at least, and libraries that do what they document\<close>
  "can_issue cfg api jti s \<longleftrightarrow>
     jwt_documented api \<and> 1 \<le> refresh_token_expire_days cfg \<and> steady s \<and> jti \<noteq> [] \<and> jti \<notin> r_jti ` set (refresh_tokens s)"

lemma issue_refresh_effect:
  assumes "can_issue cfg api jti s"
  shows "issue_refresh cfg api jti uid s =
    (Some (issued api uid TOKEN_TYPE_REFRESH jti (timedelta_days (refresh_token_expire_days cfg)) (clock s (ticks s))),
     s\<lparr>ticks := ticks s + 2, seq_refresh := seq_refresh s + 1, refresh_tokens := refresh_tokens s @ [new_refresh cfg jti uid s]\<rparr>)"
proof -
  let ?d = "timedelta_days (refresh_token_expire_days cfg)" and ?t = "clock s (ticks s)"
  have a: "jwt_documented api" "1 \<le> refresh_token_expire_days cfg" "steady s" "jti \<noteq> []" "jti \<notin> r_jti ` set (refresh_tokens s)"
    using assms by (simp_all add: can_issue_def)
  have "in_lifetime ?d ?t (clock s (Suc (ticks s)))" using a by (intro in_lifetime_next)
  then show ?thesis
    using a by (auto simp: issue_refresh_def create_refresh_token_def jwt_token_issued decode_issued persist_refresh_token_def
        wire_claims_def insert_refresh_def new_refresh_def whole_second_def Let_def)
qed

lemma refresh_is_valid_iff:
  assumes "accounts_ok s"
  shows "refresh_is_valid payload s = (Some r, s') \<longleftrightarrow>
    r \<in> set (refresh_tokens s) \<and> r_jti r = claims_jti payload \<and> r_revoked_at r = None \<and>
    clock s (ticks s) < r_expires_at r \<and> s' = s\<lparr>ticks := Suc (ticks s)\<rparr>"
proof -
  have "stored_refresh (claims_jti payload) s = Some r \<longleftrightarrow> r \<in> set (refresh_tokens s) \<and> r_jti r = claims_jti payload"
    using assms find_distinct [of r_jti "refresh_tokens s" r "claims_jti payload"]
    by (auto simp: stored_refresh_def accounts_ok_def find_Some_iff)
  then show ?thesis
    by (auto simp: refresh_is_valid_def now_utc_def split: option.split if_splits)
qed

lemma accounts_ok_ticks [simp]: "accounts_ok (s\<lparr>ticks := n\<rparr>) = accounts_ok s"
  by (simp add: accounts_ok_def)

lemma claims_jti_wire [simp]: "claims_jti (wire_claims sub ty jti iat ex) = jti"
  by (simp add: claims_jti_def wire_claims_def)

lemma snd_decode_token [simp]: "decode_token api token s = (p, s1) \<Longrightarrow> s1 = s\<lparr>ticks := Suc (ticks s)\<rparr> \<and> p = jwt_decode api (clock s (ticks s)) token"
  by (auto simp: decode_token_def now_utc_def)

text \<open>An accepted refresh token was active, its owner is active, and it is revoked from then on.\<close>

lemma refresh_route_reply:
  assumes "accounts_ok s" "refresh_route cfg api allowed jti1 jti2 token s = (Reply r, s')"
  obtains payload uid u old where "jwt_decode api (clock s (ticks s)) token = Some payload"
    and "map_of payload ''type'' = Some (JStr TOKEN_TYPE_REFRESH)"
    and "old \<in> set (refresh_tokens s)" "r_jti old = claims_jti payload" "r_revoked_at old = None"
    and "clock s (Suc (ticks s)) < r_expires_at old"
    and "get_user_by_id s uid = Some u" "u_active u" "token_user r = u"
    and "refresh_revoked (claims_jti payload) s'"
proof -
  obtain p s1 where 1: "decode_token api token s = (p, s1)" by fastforce
  have s1: "s1 = s\<lparr>ticks := Suc (ticks s)\<rparr>" "p = jwt_decode api (clock s (ticks s)) token" using 1 by simp_all
  obtain payload uid where 2: "checked_claims api TOKEN_TYPE_REFRESH p = Inr (payload, uid)"
    using assms(2) by (auto simp: refresh_route_def 1 split: if_splits sum.splits)
  obtain old s2 where 3: "refresh_is_valid payload s1 = (Some old, s2)"
    using assms(2) by (auto simp: refresh_route_def 1 2 split: if_splits option.splits prod.splits)
  obtain u where 4: "get_user_by_id s2 uid = Some u" "u_active u"
    using assms(2) by (auto simp: refresh_route_def 1 2 3 split: if_splits option.splits prod.splits)
  obtain refresh s3 where 5: "issue_refresh cfg api jti1 (u_id u) (revoke_refresh old s2) = (Some refresh, s3)"
    using assms(2) 4(2) by (auto simp: refresh_route_def 1 2 3 4(1) split: if_splits option.splits prod.splits)
  obtain access s4 where 6: "create_access_token cfg api jti2 (u_id u) s3 = (access, s4)" by fastforce
  have r: "token_user r = u" "s' = s4"
    using assms(2) 4(2) by (auto simp: refresh_route_def 1 2 3 4(1) 5 6 split: if_splits)
  have payload: "p = Some payload" "map_of payload ''type'' = Some (JStr TOKEN_TYPE_REFRESH)"
    using 2 by (auto simp: checked_claims_def split: option.splits if_splits sum.splits)
  have valid: "old \<in> set (refresh_tokens s)" "r_jti old = claims_jti payload" "r_revoked_at old = None"
    "clock s (Suc (ticks s)) < r_expires_at old" and s2: "s2 = s\<lparr>ticks := Suc (Suc (ticks s))\<rparr>"
    using 3 assms(1) by (simp_all add: s1 refresh_is_valid_iff)
  have "refresh_revoked (claims_jti payload) (revoke_refresh old s2)"
    using valid(1,2) unfolding refresh_revoked_def
    by (intro bexI [of _ "old\<lparr>r_revoked_at := Some (clock s2 (ticks s2))\<rparr>"])
      (auto simp: revoke_refresh_def now_utc_def s2 set_update_row)
  moreover have "keeps_accounts (revoke_refresh old s2) s4"
    by (rule keeps_eqI(1) [OF 6], rule keeps_read, rule keeps_eqI(1) [OF 5], rule keeps_issue) simp
  ultimately have "refresh_revoked (claims_jti payload) s'" unfolding r(2) by (rule keeps_revocations(1) [rotated])
  then show ?thesis
    using that payload valid 4 r(1) unfolding s1 s2 by simp
qed

lemma refresh_route_rotates:
  assumes "accounts_ok s" "can_issue cfg api jti1 s"
    and "in_lifetime d iat (clock s (ticks s))"
    and "old \<in> set (refresh_tokens s)" "r_jti old = jti" "r_revoked_at old = None" "clock s (Suc (ticks s)) < r_expires_at old"
    and "get_user_by_id s uid = Some u" "u_active u"
  shows "\<exists>r s'. refresh_route cfg api True jti1 jti2 (issued api uid TOKEN_TYPE_REFRESH jti d iat) s = (Reply r, s') \<and>
    token_user r = u \<and> users s' = users s \<and>
    (\<exists>now. refresh_tokens s' = update_row r_id (r_id old) (\<lambda>r. r\<lparr>r_revoked_at := Some now\<rparr>) (refresh_tokens s) @
       [new_refresh cfg jti1 (u_id u) (s\<lparr>ticks := ticks s + 3\<rparr>)])"
proof -
  have docs: "jwt_documented api" using assms(2) by (simp add: can_issue_def)
  let ?s1 = "s\<lparr>ticks := Suc (ticks s)\<rparr>" and ?s2 = "s\<lparr>ticks := Suc (Suc (ticks s))\<rparr>"
  let ?c = "wire_claims (show_int uid) TOKEN_TYPE_REFRESH jti iat (iat + d)"
  have "refresh_is_valid ?c ?s1 = (Some old, ?s2)"
    using assms(1,4-7) by (simp add: refresh_is_valid_iff)
  note steps = decode_issued [OF docs] checked_issued [OF docs] this
  let ?s3 = "revoke_refresh old ?s2"
  have "can_issue cfg api jti1 ?s3"
    using assms(2) by (simp add: can_issue_def steady_def revoke_refresh_def now_utc_def set_update_row image_image)
      (auto simp: image_iff)
  note issue = issue_refresh_effect [OF this, of "u_id u"]
  show ?thesis
    using assms(3,8,9)
    by (simp add: refresh_route_def steps issue create_access_token_def jwt_token_issued)
      (auto simp: revoke_refresh_def now_utc_def new_refresh_def numeral_3_eq_3)
qed

section \<open>Login and accounts\<close>

lemma login_route_effect:
  assumes "can_issue cfg api jti1 s" "bcrypt_documented api"
    and "login_failure_limiter (auth_rate_limit_max cfg) (auth_rate_limit_minutes cfg) host now1 fs"
    and "get_user_by_username s username = Some u" "u_password_hash u = hash_password api salt password"
  shows "\<exists>r s'. login_route cfg api now1 now2 jti1 jti2 username password (Some host) fs s =
      (Reply r, clear_login_failures host fs, s') \<and>
    u_id (token_user r) = u_id u \<and>
    refresh_token r = issued api (u_id u) TOKEN_TYPE_REFRESH jti1 (timedelta_days (refresh_token_expire_days cfg)) (clock s (Suc (ticks s))) \<and>
    refresh_tokens s' = refresh_tokens s @ [new_refresh cfg jti1 (u_id u) (s\<lparr>ticks := Suc (ticks s)\<rparr>)]"
proof -
  let ?s1 = "update_user (u_id u) (\<lambda>u. u\<lparr>u_last_login_at := Some (clock s (ticks s))\<rparr>) (s\<lparr>ticks := Suc (ticks s)\<rparr>)"
  have "can_issue cfg api jti1 ?s1" using assms(1) by (simp add: can_issue_def steady_def update_user_def)
  note issue = issue_refresh_effect [OF this, of "u_id u"]
  have "verify_password api password (u_password_hash u)"
    using assms(2,5) by (simp add: verify_password_def hash_password_def bcrypt_documented_def)
  then show ?thesis
    using assms(3,4)
    by (simp add: login_route_def Let_def now_utc_def issue create_access_token_def jwt_token_issued case_prod_beta)
      (simp add: update_user_def new_refresh_def db_simps)
qed

lemma login_route_wrong:
  assumes "login_failure_limiter (auth_rate_limit_max cfg) (auth_rate_limit_minutes cfg) host now1 fs"
    and "\<And>u. get_user_by_username s username = Some u \<Longrightarrow> \<not> verify_password api password (u_password_hash u)"
  shows "login_route cfg api now1 now2 jti1 jti2 username password (Some host) fs s =
    (Status 401, record_login_failure (auth_rate_limit_minutes cfg) host now2 fs, s)"
  using assms by (simp add: login_route_def Let_def split: option.split)

lemma get_user_by_username_active: "get_user_by_username s name = Some u \<Longrightarrow> u \<in> set (users s) \<and> u_active u \<and> u_username u = name"
  by (auto simp: get_user_by_username_def find_Some_iff)

lemma revoke_all_effect:
  "refresh_tokens (snd (revoke_all_refresh_tokens uid s)) =
     map (\<lambda>r. if active_refresh uid r then r\<lparr>r_revoked_at := Some (clock s (ticks s))\<rparr> else r) (refresh_tokens s)"
  by (simp add: revoke_all_refresh_tokens_def now_utc_def)

lemma revoked_all:
  assumes "r \<in> set (refresh_tokens (snd (revoke_all_refresh_tokens uid s)))" "r_user_id r = uid"
  shows "r_revoked_at r \<noteq> None"
proof -
  obtain r0 where "r = (if active_refresh uid r0 then r0\<lparr>r_revoked_at := Some (clock s (ticks s))\<rparr> else r0)"
    using assms(1) unfolding revoke_all_effect set_map by blast
  with assms(2) show ?thesis by (simp add: active_refresh_def split: if_splits)
qed

lemma change_password_effect:
  assumes "bcrypt_documented api" "change_password_route api salt who current_pw new_pw ip s = (Reply u', s')"
  shows "get_user_by_id s' (u_id who) = Some u' \<and> verify_password api new_pw (u_password_hash u') \<and>
    (\<exists>u. get_user_by_id s (u_id who) = Some u \<and> u_active u \<and> verify_password api current_pw (u_password_hash u)) \<and>
    (\<forall>r\<in>set (refresh_tokens s'). r_user_id r = u_id who \<longrightarrow> r_revoked_at r \<noteq> None) \<and>
    filter (\<lambda>r. r_user_id r \<noteq> u_id who) (refresh_tokens s') = filter (\<lambda>r. r_user_id r \<noteq> u_id who) (refresh_tokens s)"
proof -
  obtain u where u: "get_user_by_id s (u_id who) = Some u" "u_active u" "verify_password api current_pw (u_password_hash u)"
    "current_pw \<noteq> new_pw" "u' = u\<lparr>u_password_hash := hash_password api salt new_pw\<rparr>"
    and s': "s' = audit (actor_of u) ''user.change_password'' ''user'' (Some (show_int (u_id u)))
      (Some (JObj [(''revoked_refresh'', JInt (fst (revoke_all_refresh_tokens (u_id u)
        (update_user (u_id u) (\<lambda>u. u\<lparr>u_password_hash := hash_password api salt new_pw\<rparr>) s))))])) ip
      (snd (revoke_all_refresh_tokens (u_id u) (update_user (u_id u) (\<lambda>u. u\<lparr>u_password_hash := hash_password api salt new_pw\<rparr>) s)))"
    using assms(2) by (auto simp: change_password_route_def Let_def case_prod_beta split: option.splits if_splits)
  have id: "u_id u = u_id who" using u(1) by (auto simp: get_user_by_id_def dest: find_row_SomeD)
  have "users s' = update_row u_id (u_id who) (\<lambda>u. u\<lparr>u_password_hash := hash_password api salt new_pw\<rparr>) (users s)"
    by (simp add: s' db_simps revoke_all_refresh_tokens_def now_utc_def update_user_def id)
  then have "get_user_by_id s' (u_id who) = Some u'"
    using u(1,5) by (simp add: get_user_by_id_def table_simps)
  moreover have "refresh_tokens s' = map (\<lambda>r. if active_refresh (u_id who) r
      then r\<lparr>r_revoked_at := Some (clock s (ticks s))\<rparr> else r) (refresh_tokens s)"
    by (simp add: s' db_simps revoke_all_effect id) (simp add: update_user_def)
  moreover have "filter (\<lambda>r. r_user_id r \<noteq> uid) (map (\<lambda>r. if active_refresh uid r then r\<lparr>r_revoked_at := v\<rparr> else r) rs) =
      filter (\<lambda>r. r_user_id r \<noteq> uid) rs" for uid v rs
    by (induction rs) (auto simp: active_refresh_def)
  ultimately show ?thesis
    using u assms(1) by (auto simp: verify_password_def hash_password_def bcrypt_documented_def active_refresh_def)
qed

lemma set_active_effect:
  assumes "get_user_by_id s uid = Some u"
  shows "\<exists>s'. set_active_route admin uid active ip s = (Reply (u\<lparr>u_active := active\<rparr>), s') \<and>
    get_user_by_id s' uid = Some (u\<lparr>u_active := active\<rparr>) \<and>
    (\<not> active \<longrightarrow> (\<forall>r\<in>set (refresh_tokens s'). r_user_id r = uid \<longrightarrow> r_revoked_at r \<noteq> None)) \<and>
    (active \<longrightarrow> refresh_tokens s' = refresh_tokens s)"
proof (cases active)
  case True
  then show ?thesis
    using assms by (simp add: set_active_route_def Let_def get_user_by_id_def db_simps update_user_def table_simps)
next
  case False
  have users: "users (snd (revoke_all_refresh_tokens uid s1)) = users s1" for s1
    by (simp add: revoke_all_refresh_tokens_def now_utc_def)
  let ?s1 = "update_user uid (\<lambda>u. u\<lparr>u_active := active\<rparr>) s"
  obtain d where d: "set_active_route admin uid active ip s =
      (Reply (u\<lparr>u_active := active\<rparr>), audit admin ''user.set_active'' ''user'' (Some (show_int uid)) d ip
        (snd (revoke_all_refresh_tokens uid ?s1)))"
    using False assms by (simp add: set_active_route_def Let_def case_prod_beta)
  have "get_user_by_id ?s1 uid = Some (u\<lparr>u_active := active\<rparr>)"
    using assms by (simp add: get_user_by_id_def update_user_def table_simps)
  then show ?thesis
    unfolding d using False by (simp add: get_user_by_id_def db_simps users) (blast dest: revoked_all)
qed

section \<open>API tokens\<close>

lemma create_token_effect:
  assumes "sha256_hex api (generate_token cfg hex) \<notin> p_token_hash ` set (api_tokens s)"
  obtains p s' where "create_token cfg api hex uid name None s = Ok (generate_token cfg hex, p) s'"
    and "p_token_hash p = sha256_hex api (generate_token cfg hex)" "p_user_id p = uid" "p_revoked_at p = None" "p_is_active p"
    and "p_id p = seq_token s" "p_expires_at p = (if 0 < api_token_expire_days cfg
      then Some (clock s (ticks s) + timedelta_days (api_token_expire_days cfg)) else None)"
    and "api_tokens s' = api_tokens s @ [p]" "users s' = users s" "clock s' = clock s" "ticks s' \<le> Suc (ticks s)"
proof (cases "0 < api_token_expire_days cfg")
  case True
  then show ?thesis using assms by (intro that) (simp add: create_token_def now_utc_def Let_def, simp_all)
next
  case False
  then show ?thesis using assms by (intro that) (simp add: create_token_def Let_def, simp_all)
qed

lemma find_token_iff:
  "accounts_ok s \<Longrightarrow> find_token api token s = Some p \<longleftrightarrow> p \<in> set (api_tokens s) \<and> p_token_hash p = sha256_hex api token"
  using find_distinct [of p_token_hash "api_tokens s" p "sha256_hex api token"]
  by (auto simp: find_token_def accounts_ok_def find_Some_iff)

definition token_usable :: "time \<Rightarrow> api_token \<Rightarrow> bool" where
  "token_usable now p \<longleftrightarrow> p_revoked_at p = None \<and> p_is_active p \<and> (\<forall>e\<in>set_option (p_expires_at p). now < e)"

lemma authenticate_cases:
  "authenticate api token s = (case find_token api token s of
     None \<Rightarrow> (None, s)
   | Some p \<Rightarrow> (if token_usable (clock s (ticks s)) p then Some p else None, s\<lparr>ticks := Suc (ticks s)\<rparr>))"
  by (auto simp: authenticate_def now_utc_def token_usable_def split: option.split)

lemma authenticate_iff:
  assumes "accounts_ok s"
  shows "fst (authenticate_api_token api token s) = Some u \<longleftrightarrow>
    (\<exists>p\<in>set (api_tokens s). p_token_hash p = sha256_hex api token \<and> token_usable (clock s (ticks s)) p \<and>
      get_user_by_id s (p_user_id p) = Some u \<and> u_active u)"
proof (cases "find_token api token s")
  case None
  then have "\<not> (p \<in> set (api_tokens s) \<and> p_token_hash p = sha256_hex api token)" for p
    using find_token_iff [OF assms, of api token p] by simp
  then show ?thesis using None by (auto simp: authenticate_api_token_def authenticate_cases)
next
  case (Some p)
  then have "q \<in> set (api_tokens s) \<and> p_token_hash q = sha256_hex api token \<longleftrightarrow> q = p" for q
    using find_token_iff [OF assms, of api token q] by auto
  moreover have "fst (authenticate_api_token api token s) = Some u \<longleftrightarrow>
      token_usable (clock s (ticks s)) p \<and> get_user_by_id s (p_user_id p) = Some u \<and> u_active u"
    using Some by (auto simp: authenticate_api_token_def authenticate_cases now_utc_def split: option.split)
  ultimately show ?thesis by metis
qed

lemma revoke_token_other:
  assumes "accounts_ok s" "p \<in> set (api_tokens s)" "p_user_id p \<noteq> u_id who" "u_role who \<noteq> ''admin''"
  shows "revoke_api_token_route who (p_id p) ip s = (Status 404, s)"
proof -
  have "inj_on p_id (set (api_tokens s))" using assms(1) by (simp add: accounts_ok_def distinct_map)
  then have "List.find (\<lambda>q. p_id q = p_id p \<and> p_user_id q = u_id who) (api_tokens s) = None"
    using assms(2,3) by (auto simp: find_None_iff dest: inj_onD)
  then show ?thesis using assms(4) by (simp add: revoke_api_token_route_def revoke_token_def)
qed

lemma revoke_token_own:
  assumes "accounts_ok s" "p \<in> set (api_tokens s)" "p_user_id p = u_id who \<or> u_role who = ''admin''"
  shows "\<exists>s'. revoke_api_token_route who (p_id p) ip s = (Reply (), s') \<and> token_revoked (p_token_hash p) s'"
proof -
  have "inj_on p_id (set (api_tokens s))" using assms(1) by (simp add: accounts_ok_def distinct_map)
  then have "List.find (\<lambda>q. p_id q = p_id p \<and> (u_role who = ''admin'' \<or> p_user_id q = u_id who)) (api_tokens s) = Some p"
    using assms(2,3) find_distinct [of p_id "api_tokens s" p "p_id p"] assms(1)
    by (auto simp: find_Some_iff accounts_ok_def)
  moreover have "\<exists>q\<in>set (update_row p_id (p_id p) (\<lambda>p. p\<lparr>p_revoked_at := Some now\<rparr>) (api_tokens s)).
      p_token_hash q = p_token_hash p \<and> p_revoked_at q \<noteq> None" for now
    by (rule bexI [of _ "p\<lparr>p_revoked_at := Some now\<rparr>"]) (use assms(2) in \<open>auto simp: set_update_row\<close>)
  ultimately show ?thesis
    using assms(2)
    by (auto simp: revoke_api_token_route_def revoke_token_def now_utc_def token_revoked_def db_simps)
qed

section \<open>A refused request leaves no trace\<close>

lemma auth_routes_refused:
  "register_route api allowed salt username password ip s = (Status c, s') \<Longrightarrow> same_tables s s'"
  "login_route cfg api now1 now2 jti1 jti2 username password ip fs s = (Status c, fs', s') \<Longrightarrow> same_tables s s'"
  "change_password_route api salt who current_pw new_pw ip s = (Status c, s') \<Longrightarrow> same_tables s s'"
  "set_active_route admin uid active ip s = (Status c, s') \<Longrightarrow> same_tables s s'"
  "set_role_route admin uid role ip s = (Status c, s') \<Longrightarrow> same_tables s s'"
  "create_api_token_route cfg api hex who name ip s = (Status c, s') \<Longrightarrow> same_tables s s'"
  "revoke_api_token_route who tid ip s = (Status c, s') \<Longrightarrow> same_tables s s'"
  by (auto simp: register_route_def login_route_def change_password_route_def set_active_route_def set_role_route_def
      create_api_token_route_def revoke_api_token_route_def revoke_token_def now_utc_def Let_def case_prod_beta
      split: if_splits option.splits prod.splits outcome.splits)

end
