(* ===== verification/Credentials.thy ===== *)
theory Credentials
  imports System Auth_Correct
begin

text \<open>
  The accounts in the whole platform: every step keeps their keys sound and their revocations, so
  a credential that was revoked once is never accepted again, whatever happens in between.
\<close>

section \<open>Every step keeps the accounts\<close>

interpretation accounts_kept: message_invariant "keeps_accounts s0" for s0
proof unfold_locales
  fix s s' :: db
  assume "keeps_accounts s0 s" "accounts s' = accounts s"
  then show "keeps_accounts s0 s'"
    by (elim keeps_trans) (rule keeps_same, simp_all add: grown_def)
next
  fix s :: db and k p
  assume "keeps_accounts s0 s"
  then show "keeps_accounts s0 (add_outbox k p s)"
    by (elim keeps_trans) (rule keeps_same, simp_all add: grown_def db_simps)
next
  fix s :: db and ev obj
  assume "keeps_accounts s0 s"
  then show "keeps_accounts s0 (enqueue_for ev obj s)"
    by (elim keeps_trans) (rule keeps_same, simp_all add: grown_def db_simps)
qed

lemma keeps_equal: "accounts s' = accounts s \<Longrightarrow> keeps_accounts s s'"
  by (rule keeps_same) (simp_all add: grown_def)

lemma accounts_fold_publish: "accounts (snd (fold (publish_one send) evs acc)) = accounts (snd acc)"
  by (induction evs arbitrary: acc)
    (simp_all add: publish_one_def now_utc_def case_prod_beta Let_def split: option.split)

lemma accounts_purge: "accounts (snd (purge_old_data cfg limit_arg s)) = accounts s"
proof -
  have "accounts (snd (purge_tasks P limit s)) = accounts s" "accounts (snd (delete_old_outbox c limit s)) = accounts s"
    "accounts (snd (delete_old_audit c limit s)) = accounts s" for P c limit s
    by (simp_all add: purge_tasks_def delete_tasks_def delete_old_outbox_def delete_old_audit_def Let_def)
  then show ?thesis
    by (simp add: purge_old_data_def now_utc_def Let_def case_prod_beta)
qed

lemma committed_keeps: "committed cfg s s' \<Longrightarrow> keeps_accounts s s'"
proof (induction rule: committed.induct)
  case (relay online broker limit s n sent s')
  then have "accounts s' = accounts s"
    using accounts_fold_publish [of broker "pending_events limit s" "([], s)"]
    by (auto simp: publish_pending_events_def Let_def split: if_splits)
  then show ?case by (rule keeps_equal)
next
  case (purge s limit_arg)
  show ?case by (rule keeps_equal) (rule accounts_purge)
next
  case (delete_webhook s u ip wid)
  show ?case by (rule keeps_equal) (simp add: delete_webhook_def Let_def db_simps split: option.split)
next
  case (dispatch s send limit)
  show ?case by (rule keeps_equal) (simp add: dispatch_due_def now_utc_def Let_def fold_dispatch_one)
next
  case (account api s s')
  then show ?case by (rule keeps_committed)
next
  case (time_passes s t c)
  show ?case by (rule keeps_equal) simp
qed (simp_all only: accounts_kept.committed_routes accounts_kept.committed_passes keeps_refl)

lemma step_keeps: "step cfg p p' \<Longrightarrow> keeps_accounts (fst p) (fst p')"
proof (induction rule: step.induct)
  case (transaction s s' running)
  then show ?case by (simp add: committed_keeps)
next
  case (claimed w tid s obj aid s' running)
  then show ?case using accounts_kept.claimed [of s s cfg w tid] by simp
qed (simp_all add: accounts_kept.claim_rolled_back accounts_kept.committed_passes)

section \<open>The keys of the accounts are sound in every reachable state\<close>

interpretation accounts_platform: platform_invariant cfg accounts_ok "\<lambda>_. True" for cfg
proof unfold_locales
  fix s s' :: db and w tid obj aid outcome
  show "accounts_ok s \<Longrightarrow> committed cfg s s' \<Longrightarrow> accounts_ok s'"
    by (rule keeps_sound [OF committed_keeps])
  show "accounts_ok s \<Longrightarrow> accounts_ok (final_state (claim cfg w tid s))"
    using accounts_kept.claimed [OF keeps_refl] by (rule keeps_sound)
  show "accounts_ok s \<Longrightarrow> accounts_ok (rollback_to s (final_state (claim cfg w tid s)))"
    using accounts_kept.claim_rolled_back [OF keeps_refl] by (rule keeps_sound)
  show "accounts_ok s \<Longrightarrow> accounts_ok (commit s (finish cfg obj aid outcome s))"
    using accounts_kept.committed_passes(5) [OF keeps_refl] by (rule keeps_sound)
qed (simp_all add: accounts_ok_def empty_db_def)

section \<open>A revoked credential is never accepted again\<close>

definition moves :: "settings \<Rightarrow> db \<Rightarrow> db \<Rightarrow> bool" where
  "moves cfg s s' \<longleftrightarrow> (\<exists>running running'. step cfg (s, running) (s', running'))"

lemma moves_keeps: "moves cfg s s' \<Longrightarrow> keeps_accounts s s'"
  unfolding moves_def using step_keeps by fastforce

definition refresh_accepted :: "string \<Rightarrow> db \<Rightarrow> bool" where
  \<comment> \<open>some request with a token of that \<open>jti\<close> is answered with a new session\<close>
  "refresh_accepted jti s \<longleftrightarrow>
     (\<exists>cfg api allowed jti1 jti2 token payload r. jwt_decode api (clock s (ticks s)) token = Some payload \<and>
        claims_jti payload = jti \<and> fst (refresh_route cfg api allowed jti1 jti2 token s) = Reply r)"

lemma revoked_not_accepted:
  assumes "accounts_ok s" "refresh_revoked jti s"
  shows "\<not> refresh_accepted jti s"
proof
  assume "refresh_accepted jti s"
  then obtain cfg api allowed jti1 jti2 token payload r s' where
    1: "jwt_decode api (clock s (ticks s)) token = Some payload" "claims_jti payload = jti"
      "refresh_route cfg api allowed jti1 jti2 token s = (Reply r, s')"
    unfolding refresh_accepted_def by (metis prod.collapse)
  obtain old where old: "old \<in> set (refresh_tokens s)" "r_jti old = jti" "r_revoked_at old = None"
    by (rule refresh_route_reply [OF assms(1) 1(3)]) (use 1 in auto)
  obtain r' where r': "r' \<in> set (refresh_tokens s)" "r_jti r' = jti" "r_revoked_at r' \<noteq> None"
    using assms(2) by (auto simp: refresh_revoked_def)
  have "inj_on r_jti (set (refresh_tokens s))" using assms(1) by (simp add: accounts_ok_def distinct_map)
  then have "old = r'" using old r' by (auto dest: inj_onD)
  then show False using old r' by simp
qed

interpretation refresh_credential: revocable "moves cfg" accounts_ok refresh_revoked refresh_accepted for cfg
  by unfold_locales
    (auto intro: keeps_sound [OF moves_keeps] keeps_revocations [OF moves_keeps] dest: revoked_not_accepted)

interpretation api_credential: revocable "moves cfg" accounts_ok token_revoked
  "\<lambda>hash s. \<exists>api token. sha256_hex api token = hash \<and> fst (authenticate_api_token api token s) \<noteq> None" for cfg
proof unfold_locales
  fix k s
  assume "accounts_ok s" "token_revoked k s"
  then have "fst (authenticate_api_token api token s) = None" if "sha256_hex api token = k" for api token
    using token_refused [of s api token] that
    by (auto simp: authenticate_api_token_def split: prod.split option.split)
  then show "\<not> (\<exists>api token. sha256_hex api token = k \<and> fst (authenticate_api_token api token s) \<noteq> None)" by auto
qed (auto intro: keeps_sound [OF moves_keeps] keeps_revocations [OF moves_keeps])

end
