(* ===== verification/Api.thy ===== *)
theory Api
  imports Credentials Views
begin

text \<open>
  The API behind its authentication (\<open>app/api/routes\<close>): every request that needs a user, the role
  its route demands (\<open>require_roles\<close>, the \<open>dependencies\<close> of the routers), and the handling of a
  request from the credentials to the answer. The login, the registration and the exchange of refresh
  tokens need no user and are not requests of this kind.
\<close>

section \<open>Requests and answers\<close>

type_synonym host = "string option"

text \<open>
  A request with its validated parameters and the address it comes from. What a route draws from
  outside (the decision of a limiter, a salt, a random hexadecimal string, the depth of the queue)
  comes with the request.
\<close>

datatype request =
    CreateTask bool host task_create
  | BulkCreate bool host "task_create list"
  | BulkRetry host "int list"
  | BulkCancel host "int list"
  | RetryTask host int
  | CancelTask host int
  | ListTasks task_query nat nat
  | GetTask int
  | TaskEvents int
  | CreateBatch host string "task_create list"
  | CancelBatch host int
  | ListBatches nat nat
  | GetBatch int nat nat
  | CreateWebhook host string string "string option" "string list"
  | UpdateWebhook host int webhook_update
  | DeleteWebhook host int
  | TestWebhook host int
  | ListWebhooks
  | ListDeliveries "int option" "string option" nat nat
  | ListWorkers
  | GetStats "nat option"
  | ListAudit audit_query int int
  | Me
  | ChangePassword host string string string
  | SetRole host int string
  | SetActive host int bool
  | CreateApiToken host string string
  | ListApiTokens
  | RevokeApiToken host int

datatype answer =
    CreatedAnswer created
  | BulkCreated "task_spec bulk_result"
  | BulkDone "(int \<times> bulk_reason) bulk_result"
  | TaskAnswer task
  | TasksAnswer "nat \<times> task list"
  | DetailAnswer "task \<times> attempt list \<times> event list"
  | EventsAnswer "event list"
  | BatchCreated "batch \<times> progress \<times> task list"
  | BatchCancelled "batch option \<times> progress \<times> (int \<times> conflict) list"
  | BatchesAnswer "nat \<times> (batch \<times> progress) list"
  | BatchAnswer "batch \<times> progress \<times> nat \<times> task list"
  | WebhookAnswer subscription
  | WebhooksAnswer "subscription list"
  | WebhookTested "bool \<times> string \<times> int option"
  | DeliveriesAnswer "nat \<times> delivery list"
  | WorkersAnswer "worker list"
  | StatsAnswer "stats \<times> nat option"
  | AuditAnswer "nat \<times> audit_log list"
  | UserAnswer user
  | TokenAnswer "string \<times> api_token"
  | TokensAnswer "nat \<times> api_token list"
  | NoContent

section \<open>Who may do what\<close>

definition OPERATOR :: "string list" where
  "OPERATOR = [''operator'', ''admin'']"

definition ADMIN :: "string list" where
  "ADMIN = [''admin'']"

fun required_roles :: "request \<Rightarrow> string list option" where
  \<comment> \<open>the roles of a route, None where any user will do\<close>
  "required_roles (CreateTask _ _ _) = Some OPERATOR"
| "required_roles (BulkCreate _ _ _) = Some OPERATOR"
| "required_roles (BulkRetry _ _) = Some OPERATOR"
| "required_roles (BulkCancel _ _) = Some OPERATOR"
| "required_roles (RetryTask _ _) = Some OPERATOR"
| "required_roles (CancelTask _ _) = Some OPERATOR"
| "required_roles (CreateBatch _ _ _) = Some OPERATOR"
| "required_roles (CancelBatch _ _) = Some OPERATOR"
| "required_roles (CreateWebhook _ _ _ _ _) = Some ADMIN"
| "required_roles (UpdateWebhook _ _ _) = Some ADMIN"
| "required_roles (DeleteWebhook _ _) = Some ADMIN"
| "required_roles (TestWebhook _ _) = Some ADMIN"
| "required_roles ListWebhooks = Some ADMIN"
| "required_roles (ListDeliveries _ _ _ _) = Some ADMIN"
| "required_roles (ListAudit _ _ _) = Some ADMIN"
| "required_roles (SetRole _ _ _) = Some ADMIN"
| "required_roles (SetActive _ _ _) = Some ADMIN"
| "required_roles _ = None"

section \<open>The handling of a request\<close>

definition answered :: "('a \<Rightarrow> answer) \<Rightarrow> 'a response \<times> db \<Rightarrow> answer response \<times> db" where
  "answered f x = (map_response f (fst x), snd x)"

definition reading :: "(db \<Rightarrow> 'a response) \<Rightarrow> db \<Rightarrow> 'a response \<times> db" where
  "reading f s = (f s, s)"

text \<open>The routes, for the user the dependencies let through.\<close>

fun route ::
    "(string \<Rightarrow> string \<Rightarrow> bool) \<Rightarrow> sender \<Rightarrow> settings \<Rightarrow> auth_api \<Rightarrow> user \<Rightarrow> request \<Rightarrow> db \<Rightarrow> answer response \<times> db" where
  "route ilike send cfg api u (CreateTask ok ip body) s = answered CreatedAnswer (create_task_route cfg ok (actor_of u) ip body s)"
| "route ilike send cfg api u (BulkCreate ok ip bodies) s = answered BulkCreated (bulk_create_route cfg ok (actor_of u) ip bodies s)"
| "route ilike send cfg api u (BulkRetry ip ids) s = answered BulkDone (bulk_retry_route cfg (actor_of u) ip ids s)"
| "route ilike send cfg api u (BulkCancel ip ids) s = answered BulkDone (bulk_cancel_route cfg (actor_of u) ip ids s)"
| "route ilike send cfg api u (RetryTask ip tid) s = answered TaskAnswer (retry_task_route cfg (actor_of u) ip tid s)"
| "route ilike send cfg api u (CancelTask ip tid) s = answered TaskAnswer (cancel_task_route cfg (actor_of u) ip tid s)"
| "route ilike send cfg api u (ListTasks q limit offset) s =
     answered TasksAnswer (reading (\<lambda>s. Reply (list_tasks_route ilike q limit offset s)) s)"
| "route ilike send cfg api u (GetTask tid) s = answered DetailAnswer (reading (get_task_route tid) s)"
| "route ilike send cfg api u (TaskEvents tid) s = answered EventsAnswer (reading (task_events_route tid) s)"
| "route ilike send cfg api u (CreateBatch ip name bodies) s =
     answered BatchCreated (create_batch_route cfg (actor_of u) ip name bodies s)"
| "route ilike send cfg api u (CancelBatch ip bid) s = answered BatchCancelled (cancel_batch_route cfg (actor_of u) ip bid s)"
| "route ilike send cfg api u (ListBatches limit offset) s =
     answered BatchesAnswer (reading (\<lambda>s. Reply (list_batches_route limit offset s)) s)"
| "route ilike send cfg api u (GetBatch bid limit offset) s = answered BatchAnswer (reading (get_batch_route bid limit offset) s)"
| "route ilike send cfg api u (CreateWebhook ip name url secret evs) s =
     answered WebhookAnswer (create_webhook (actor_of u) ip name url secret evs s)"
| "route ilike send cfg api u (UpdateWebhook ip wid body) s = answered WebhookAnswer (update_webhook (actor_of u) ip wid body s)"
| "route ilike send cfg api u (DeleteWebhook ip wid) s = answered (\<lambda>_. NoContent) (delete_webhook (actor_of u) ip wid s)"
| "route ilike send cfg api u (TestWebhook ip wid) s = answered WebhookTested (test_webhook send (actor_of u) ip wid s)"
| "route ilike send cfg api u ListWebhooks s = answered WebhooksAnswer (reading (\<lambda>s. Reply (list_webhooks s)) s)"
| "route ilike send cfg api u (ListDeliveries sid st limit offset) s =
     answered DeliveriesAnswer (reading (\<lambda>s. Reply (count_deliveries sid st s, list_deliveries sid st limit offset s)) s)"
| "route ilike send cfg api u ListWorkers s = answered WorkersAnswer (reading (\<lambda>s. Reply (list_workers_route s)) s)"
| "route ilike send cfg api u (GetStats depth) s = answered StatsAnswer (reading (\<lambda>s. Reply (get_stats depth s)) s)"
| "route ilike send cfg api u (ListAudit q limit offset) s = answered AuditAnswer (reading (list_audit_route ilike q limit offset) s)"
| "route ilike send cfg api u Me s = answered UserAnswer (reading (\<lambda>s. Reply u) s)"
| "route ilike send cfg api u (ChangePassword ip salt current_pw new_pw) s =
     answered UserAnswer (change_password_route api salt u current_pw new_pw ip s)"
| "route ilike send cfg api u (SetRole ip uid role) s = answered UserAnswer (set_role_route (actor_of u) uid role ip s)"
| "route ilike send cfg api u (SetActive ip uid active) s = answered UserAnswer (set_active_route (actor_of u) uid active ip s)"
| "route ilike send cfg api u (CreateApiToken ip hex name) s = answered TokenAnswer (create_api_token_route cfg api hex u name ip s)"
| "route ilike send cfg api u ListApiTokens s = answered TokensAnswer (reading (\<lambda>s. Reply (list_api_tokens_route u s)) s)"
| "route ilike send cfg api u (RevokeApiToken ip tid) s = answered (\<lambda>_. NoContent) (revoke_api_token_route u tid ip s)"

definition guarded :: "request \<Rightarrow> user response \<Rightarrow> user response" where
  "guarded req who = (case required_roles req of None \<Rightarrow> who | Some roles \<Rightarrow> require_roles roles who)"

text \<open>
  The user comes from the credentials, in a session of its own; the roles are checked before the
  route runs.
\<close>

definition serve ::
    "(string \<Rightarrow> string \<Rightarrow> bool) \<Rightarrow> sender \<Rightarrow> settings \<Rightarrow> auth_api \<Rightarrow> string option \<Rightarrow> request \<Rightarrow> db \<Rightarrow> answer response \<times> db" where
  "serve ilike send cfg api credentials req s =
     (case get_current_user cfg api credentials s of (who, s1) \<Rightarrow>
        (case guarded req who of
           Status c \<Rightarrow> (Status c, s1)
         | Reply u \<Rightarrow> route ilike send cfg api u req s1))"

section \<open>What authentication touches\<close>

text \<open>At most the time at which an API token was last used.\<close>

lemma get_current_user_leaves:
  defines "s1 \<equiv> \<lambda>cfg api credentials s. snd (get_current_user cfg api credentials s)"
  shows "work (s1 cfg api credentials s) = work s" "users (s1 cfg api credentials s) = users s"
    and "refresh_tokens (s1 cfg api credentials s) = refresh_tokens s"
    and "audit_logs (s1 cfg api credentials s) = audit_logs s"
    and "map (\<lambda>p. p\<lparr>p_last_used_at := None\<rparr>) (api_tokens (s1 cfg api credentials s)) =
      map (\<lambda>p. p\<lparr>p_last_used_at := None\<rparr>) (api_tokens s)"
  unfolding s1_def
  by (auto simp: get_current_user_def authenticate_api_token_def authenticate_def decode_token_def now_utc_def
      update_row_def split: option.split prod.split sum.split)

section \<open>Refusals\<close>

lemma answered_Status: "answered f x = (Status c, s') \<longleftrightarrow> x = (Status c, s')"
  by (cases x; cases "fst x") (auto simp: answered_def)

lemma webhook_routes_refused:
  "create_webhook u ip name url secret evs s = (Status c, s') \<Longrightarrow> same_tables s s'"
  "update_webhook u ip wid body s = (Status c, s') \<Longrightarrow> same_tables s s'"
  "delete_webhook u ip wid s = (Status c, s') \<Longrightarrow> same_tables s s'"
  "test_webhook send u ip wid s = (Status c, s') \<Longrightarrow> same_tables s s'"
  by (auto simp: create_webhook_def update_webhook_def delete_webhook_def test_webhook_def Let_def
      split: if_splits option.splits prod.splits)

lemma account_routes_refused:
  "change_password_route api salt who a b ip s = (Status c, s') \<Longrightarrow> same_tables s s'"
  "set_role_route u uid role ip s = (Status c, s') \<Longrightarrow> same_tables s s'"
  "set_active_route u uid active ip s = (Status c, s') \<Longrightarrow> same_tables s s'"
  "create_api_token_route cfg api hex who name ip s = (Status c, s') \<Longrightarrow> same_tables s s'"
  "revoke_api_token_route who tid ip s = (Status c, s') \<Longrightarrow> same_tables s s'"
  by (auto simp: change_password_route_def set_role_route_def set_active_route_def create_api_token_route_def
      revoke_api_token_route_def revoke_token_def now_utc_def Let_def
      split: if_splits option.splits prod.splits outcome.splits)

lemma route_refused: "route ilike send cfg api u req s = (Status c, s') \<Longrightarrow> same_tables s s'"
  by (cases req) (auto simp: answered_Status reading_def dest: task_routes_refused webhook_routes_refused account_routes_refused)

section \<open>Requests that need no role\<close>

definition only_own :: "user \<Rightarrow> db \<Rightarrow> db \<Rightarrow> bool" where
  \<comment> \<open>of the accounts only the user's own password, sessions and tokens change\<close>
  "only_own u s s' \<longleftrightarrow>
     filter (\<lambda>v. u_id v \<noteq> u_id u) (users s') = filter (\<lambda>v. u_id v \<noteq> u_id u) (users s) \<and>
     map (\<lambda>v. v\<lparr>u_password_hash := []\<rparr>) (users s') = map (\<lambda>v. v\<lparr>u_password_hash := []\<rparr>) (users s) \<and>
     filter (\<lambda>r. r_user_id r \<noteq> u_id u) (refresh_tokens s') = filter (\<lambda>r. r_user_id r \<noteq> u_id u) (refresh_tokens s) \<and>
     (u_role u \<noteq> ''admin'' \<longrightarrow>
        filter (\<lambda>p. p_user_id p \<noteq> u_id u) (api_tokens s') = filter (\<lambda>p. p_user_id p \<noteq> u_id u) (api_tokens s))"

lemma only_own_refl [simp]: "only_own u s s"
  by (simp add: only_own_def)

lemma filter_others_map:
  assumes "\<And>r. own (f r) = own r" "\<And>r. r \<in> set rows \<Longrightarrow> own r \<noteq> uid \<Longrightarrow> f r = r"
  shows "filter (\<lambda>r. own r \<noteq> uid) (map f rows) = filter (\<lambda>r. own r \<noteq> uid) rows"
  using assms(2) by (induction rows) (auto simp: assms(1))

lemma change_password_own: "only_own who s (snd (change_password_route api salt who current_pw new_pw ip s))"
proof (cases "get_user_by_id s (u_id who)")
  case (Some u)
  have id: "u_id u = u_id who" using Some by (auto simp: get_user_by_id_def dest: find_row_SomeD)
  let ?f = "\<lambda>v. if u_id v = u_id who then v\<lparr>u_password_hash := hash_password api salt new_pw\<rparr> else v"
  have "map (\<lambda>v. v\<lparr>u_password_hash := []\<rparr>) (map ?f (users s)) = map (\<lambda>v. v\<lparr>u_password_hash := []\<rparr>) (users s)"
    by simp
  moreover have "filter (\<lambda>v. u_id v \<noteq> u_id who) (map ?f (users s)) = filter (\<lambda>v. u_id v \<noteq> u_id who) (users s)"
    by (rule filter_others_map) auto
  moreover have "filter (\<lambda>r. r_user_id r \<noteq> u_id who)
      (map (\<lambda>r. if active_refresh (u_id who) r then r\<lparr>r_revoked_at := v\<rparr> else r) (refresh_tokens s)) =
    filter (\<lambda>r. r_user_id r \<noteq> u_id who) (refresh_tokens s)" for v
    by (rule filter_others_map) (auto simp: active_refresh_def)
  ultimately show ?thesis
    using Some by (simp add: change_password_route_def only_own_def revoke_all_refresh_tokens_def now_utc_def
        update_user_def update_row_def db_simps Let_def id)
qed (simp add: change_password_route_def)

lemma create_api_token_own: "only_own who s (snd (create_api_token_route cfg api hex who name ip s))"
  by (auto simp: create_api_token_route_def create_token_def only_own_def now_utc_def db_simps rollback_to_def Let_def
      split: option.split)

lemma revoke_api_token_own:
  assumes "distinct (map p_id (api_tokens s))"
  shows "only_own who s (snd (revoke_api_token_route who tid ip s))"
proof (cases "u_role who = ''admin''")
  case True
  then show ?thesis
    by (simp add: revoke_api_token_route_def revoke_token_def only_own_def now_utc_def db_simps split: option.split)
next
  case False
  have "filter (\<lambda>p. p_user_id p \<noteq> u_id who) (update_row p_id (p_id p) (\<lambda>p. p\<lparr>p_revoked_at := v\<rparr>) (api_tokens s)) =
      filter (\<lambda>p. p_user_id p \<noteq> u_id who) (api_tokens s)"
    if "List.find (\<lambda>p. p_id p = tid \<and> p_user_id p = u_id who) (api_tokens s) = Some p" for p v
    unfolding update_row_def
  proof (rule filter_others_map)
    show "p_user_id (if p_id r = p_id p then r\<lparr>p_revoked_at := v\<rparr> else r) = p_user_id r" for r by simp
    show "(if p_id r = p_id p then r\<lparr>p_revoked_at := v\<rparr> else r) = r" if r: "r \<in> set (api_tokens s)" "p_user_id r \<noteq> u_id who" for r
    proof -
      have "p \<in> set (api_tokens s)" "p_user_id p = u_id who"
        using \<open>List.find _ _ = _\<close> by (auto simp: find_Some_iff)
      then show ?thesis using r assms by (auto simp: distinct_map dest: inj_onD)
    qed
  qed
  then show ?thesis
    using False by (simp add: revoke_api_token_route_def revoke_token_def only_own_def now_utc_def db_simps split: option.split)
qed

lemma route_own:
  assumes "required_roles req = None" "distinct (map p_id (api_tokens s))"
  shows "work (snd (route ilike send cfg api u req s)) = work s" "only_own u s (snd (route ilike send cfg api u req s))"
proof -
  show "work (snd (route ilike send cfg api u req s)) = work s"
    using assms(1) by (cases req)
      (simp_all add: answered_def reading_def work_committed [OF auth_committed.change_password]
        work_committed [OF auth_committed.create_api_token] work_committed [OF auth_committed.revoke_api_token])
  show "only_own u s (snd (route ilike send cfg api u req s))"
    using assms by (cases req)
      (simp_all add: answered_def reading_def change_password_own create_api_token_own revoke_api_token_own)
qed

lemma required_roles_cases: "required_roles req \<in> {None, Some OPERATOR, Some ADMIN}"
  by (cases req) simp_all

lemma admin_operates: "set ADMIN \<subseteq> set OPERATOR"
  by (simp add: ADMIN_def OPERATOR_def)

lemma same_token_keys:
  assumes "map (\<lambda>p. p\<lparr>p_last_used_at := None\<rparr>) ps = map (\<lambda>p. p\<lparr>p_last_used_at := None\<rparr>) qs"
  shows "map p_id ps = map p_id qs"
proof -
  have "map p_id xs = map p_id (map (\<lambda>p. p\<lparr>p_last_used_at := None\<rparr>) xs)" for xs by simp
  then show ?thesis using assms by metis
qed

section \<open>The API keeps the platform sound\<close>

text \<open>What a request does to the database are transactions of the platform, at most two.\<close>

lemma route_committed:
  assumes "\<And>ip uid role. req = SetRole ip uid role \<Longrightarrow> valid_role_change role"
  shows "snd (route ilike send cfg api u req s) = s \<or> committed cfg s (snd (route ilike send cfg api u req s))"
  using assms by (cases req) (auto simp: answered_def reading_def intro: committed.intros auth_committed.intros)

lemma get_current_user_committed:
  "snd (get_current_user cfg api credentials s) = s \<or>
   (\<exists>n. snd (get_current_user cfg api credentials s) = s\<lparr>ticks := n\<rparr>) \<or>
   committed cfg s (snd (get_current_user cfg api credentials s))"
proof (cases credentials)
  case (Some token)
  have "committed cfg s (snd (authenticate_api_token api token s))"
    by (rule committed.account, rule auth_committed.api_token_used)
  then show ?thesis using Some
    by (auto simp: get_current_user_def decode_token_def now_utc_def dest: snd_eqD split: option.split prod.split sum.split)
qed (simp add: get_current_user_def)

lemma serve_integrity:
  assumes "integrity s" "\<And>ip uid role. req = SetRole ip uid role \<Longrightarrow> valid_role_change role"
  shows "integrity (snd (serve ilike send cfg api credentials req s))"
proof -
  obtain who s1 where who: "get_current_user cfg api credentials s = (who, s1)" by force
  have "integrity s1"
    using get_current_user_committed [of cfg api credentials s] assms(1) integrity_committed integrity_ticks who by fastforce
  then have "integrity (snd (route ilike send cfg api u req s1))" for u
    using route_committed [where req = req and ilike = ilike and send = send and cfg = cfg and api = api and u = u and s = s1] assms(2) integrity_committed
    by metis
  then show ?thesis using who \<open>integrity s1\<close> by (simp add: serve_def split: response.split)
qed

end
