(* ===== verification/Account_Properties.thy ===== *)
theory Account_Properties
  imports Api Auth_Correct Rate_Limit Sample
begin

text \<open>
  The properties of authentication and of rate limiting. The libraries are instantiated for the
  witnesses by \<open>sample_api\<close>, which keeps what PyJWT and bcrypt document: its tokens are the quoted
  claims, its hashes the marked passwords.
\<close>

section \<open>An instance of the libraries\<close>

fun quote :: "string \<Rightarrow> string" where
  "quote [] = ''.''"
| "quote (c # cs) = CHR ''x'' # c # quote cs"

fun unquote :: "string \<Rightarrow> (string \<times> string) option" where
  "unquote (c # d # cs) =
     (if c = CHR ''.'' then Some ([], d # cs)
      else case unquote cs of None \<Rightarrow> None | Some (w, rest) \<Rightarrow> Some (d # w, rest))"
| "unquote [c] = (if c = CHR ''.'' then Some ([], []) else None)"
| "unquote [] = None"

lemma unquote_quote: "unquote (quote w @ rest) = Some (w, rest)"
  by (induction w) (cases rest, simp_all)

fun unquote_all :: "nat \<Rightarrow> string \<Rightarrow> string list option" where
  "unquote_all 0 text = (if text = [] then Some [] else None)"
| "unquote_all (Suc n) text =
     (case unquote text of None \<Rightarrow> None | Some (w, rest) \<Rightarrow> map_option ((#) w) (unquote_all n rest))"

lemma unquote_all_concat: "unquote_all (length ws) (concat (map quote ws)) = Some ws"
  by (induction ws) (simp_all add: unquote_quote)

definition claim_text :: "claims \<Rightarrow> string \<Rightarrow> string" where
  "claim_text c k = (case map_of c k of Some (JStr w) \<Rightarrow> w | Some (JIso t) \<Rightarrow> show_int t | _ \<Rightarrow> [])"

definition sample_encode :: "claims \<Rightarrow> string" where
  "sample_encode c = concat (map quote (map (claim_text c) [''sub'', ''type'', ''jti'', ''iat'', ''exp'']))"

definition sample_decode :: "time \<Rightarrow> string \<Rightarrow> claims option" where
  "sample_decode t token =
     (case unquote_all 5 token of
        Some [sub, ty, jti, iat, ex] \<Rightarrow>
          (case (read_int iat, read_int ex) of
             (Some i, Some e) \<Rightarrow>
               if whole_second i \<le> t \<and> t < whole_second e then Some (wire_claims sub ty jti i e) else None
           | _ \<Rightarrow> None)
      | _ \<Rightarrow> None)"

definition sample_api :: auth_api where
  "sample_api =
     \<lparr>hashpw = (\<lambda>salt p. ''#'' @ p), checkpw = (\<lambda>p h. Some (h = ''#'' @ p)),
      jwt_encode = sample_encode, jwt_decode = sample_decode, sha256_hex = (\<lambda>w. ''h'' @ w), int_of_text = read_int\<rparr>"

lemma sample_api_documented: "jwt_documented sample_api" "bcrypt_documented sample_api"
proof -
  have "unquote_all 5 (sample_encode [(''sub'', JStr sub), (''type'', JStr ty), (''jti'', JStr jti), (''iat'', JIso i), (''exp'', JIso e)]) =
      Some [sub, ty, jti, show_int i, show_int e]" for sub ty jti i e
    using unquote_all_concat [of "[sub, ty, jti, show_int i, show_int e]"]
    by (simp add: sample_encode_def claim_text_def eval_nat_numeral)
  then show "jwt_documented sample_api"
    by (simp add: jwt_documented_def sample_api_def sample_decode_def read_show_int)
  show "bcrypt_documented sample_api" by (simp add: bcrypt_documented_def sample_api_def)
qed

definition sample_session :: db where
  "sample_session = sample_db\<lparr>refresh_tokens :=
     [\<lparr>r_id = 1, r_user_id = 1, r_jti = ''j0'', r_expires_at = timedelta_days 7, r_revoked_at = None\<rparr>], seq_refresh := 2\<rparr>"

lemma sample_accounts: "accounts_ok sample_db" "accounts_ok sample_session"
  by (simp_all add: accounts_ok_def sample_session_def sample_db_def viewer_ok)

lemma sample_can_issue: "can_issue default_settings sample_api ''j1'' sample_session"
  using sample_api_documented
  by (simp add: can_issue_def steady_def sample_session_def sample_db_def default_settings_def timedelta_days_def)

definition sample_admin :: user where
  "sample_admin = \<lparr>u_id = 1, u_username = ''admin'', u_password_hash = ''#admin'', u_role = ''admin'', u_active = True,
     u_last_login_at = None\<rparr>"

lemma sample_user: "get_user_by_id sample_db 1 = Some sample_admin" "get_user_by_id sample_session 1 = Some sample_admin"
  by (simp_all add: get_user_by_id_def sample_session_def sample_db_def sample_admin_def table_simps)

lemma sample_token_not_api: "\<not> is_api_token default_settings (issued sample_api uid ty jti d iat)"
proof -
  have "quote w @ rest \<noteq> CHR ''t'' # v" for w rest v by (cases w) simp_all
  then show ?thesis
    by (simp add: is_api_token_def default_settings_def issued_def sample_api_def sample_encode_def prefix_def)
qed

section \<open>Tokens\<close>

text \<open>C20: a refresh token serves once: after a refresh that was answered with a new session, no
  request with the same token is ever again, whatever the platform does in between.\<close>

theorem refresh_single_use:
  assumes "jwt_documented api" "accounts_ok s"
    and "refresh_route cfg api allowed jti1 jti2 (issued api uid ty jti d iat) s = (Reply r, s')" "(moves cfg')\<^sup>*\<^sup>* s' s''"
  shows "fst (refresh_route cfg api allowed' jti3 jti4 (issued api uid ty jti d iat) s'') \<noteq> Reply r'"
proof
  let ?token = "issued api uid ty jti d iat"
  assume again: "fst (refresh_route cfg api allowed' jti3 jti4 ?token s'') = Reply r'"
  have decode: "payload = wire_claims (show_int uid) ty jti iat (iat + d)" if "jwt_decode api t ?token = Some payload" for t payload
    using assms(1) that by (auto simp: jwt_documented_def issued_def token_claims_def split: if_splits)
  have revoked: "refresh_revoked jti s'"
    by (rule refresh_route_reply [OF assms(2,3)]) (metis decode claims_jti_wire)
  have sound: "accounts_ok s'"
    using keeps_sound [OF keeps_committed [OF auth_committed.refresh] assms(2)] assms(3) by (metis snd_conv)
  have "accounts_ok s''" using refresh_credential.stays_revoked [OF assms(4) sound revoked] by simp
  moreover have "refresh_route cfg api allowed' jti3 jti4 ?token s'' = (Reply r', snd (refresh_route cfg api allowed' jti3 jti4 ?token s''))"
    using again by (metis prod.collapse)
  ultimately obtain payload where "jwt_decode api (clock s'' (ticks s'')) ?token = Some payload"
    by (rule refresh_route_reply)
  then have "refresh_accepted jti s''" using again decode unfolding refresh_accepted_def by fastforce
  then show False using refresh_credential.never_again [OF assms(4) sound revoked] by simp
qed

theorem refresh_single_use_witness:
  "\<exists>r s'. refresh_route default_settings sample_api True ''j1'' ''a1''
      (issued sample_api 1 TOKEN_TYPE_REFRESH ''j0'' (timedelta_days 7) 0) sample_session = (Reply r, s') \<and>
    (\<forall>r'. fst (refresh_route default_settings sample_api True ''j2'' ''a2''
      (issued sample_api 1 TOKEN_TYPE_REFRESH ''j0'' (timedelta_days 7) 0) s') \<noteq> Reply r')"
proof -
  let ?old = "\<lparr>r_id = 1, r_user_id = 1, r_jti = ''j0'', r_expires_at = timedelta_days 7, r_revoked_at = None\<rparr>"
  have "in_lifetime (timedelta_days 7) 0 (clock sample_session (ticks sample_session))" "?old \<in> set (refresh_tokens sample_session)"
    "clock sample_session (Suc (ticks sample_session)) < r_expires_at ?old"
    by (simp_all add: sample_session_def sample_db_def in_lifetime_def whole_second_def timedelta_days_def)
  then obtain r s' where "refresh_route default_settings sample_api True ''j1'' ''a1''
      (issued sample_api 1 TOKEN_TYPE_REFRESH ''j0'' (timedelta_days 7) 0) sample_session = (Reply r, s')"
    using refresh_route_rotates [OF sample_accounts(2) sample_can_issue, of "timedelta_days 7" 0 ?old "''j0''" 1 sample_admin "''a1''"]
      sample_user(2) by (auto simp: sample_admin_def)
  then show ?thesis
    using refresh_single_use [OF sample_api_documented(1) sample_accounts(2) _ rtranclp.rtrancl_refl] by blast
qed

text \<open>C21: a token is accepted as the credentials of a request exactly as an access token, within its
  lifetime and for a user that exists and is active; the user is the one it was issued to.\<close>

theorem access_token_round_trip:
  assumes "jwt_documented api" "\<not> is_api_token cfg (issued api uid ty jti d iat)"
  shows "get_current_user cfg api (Some (issued api uid ty jti d iat)) s =
    (case get_user_by_id s uid of
       Some u \<Rightarrow> (if ty = TOKEN_TYPE_ACCESS \<and> in_lifetime d iat (clock s (ticks s)) \<and> u_active u then Reply u else Status 401)
     | None \<Rightarrow> Status 401, s\<lparr>ticks := Suc (ticks s)\<rparr>)"
  by (rule get_current_user_issued [OF assms])

theorem access_token_round_trip_witness:
  "fst (get_current_user default_settings sample_api (Some (issued sample_api 1 TOKEN_TYPE_ACCESS ''a'' (timedelta_minutes 60) 0)) sample_db) =
    Reply sample_admin"
proof -
  have "\<not> is_api_token default_settings (issued sample_api 1 TOKEN_TYPE_ACCESS ''a'' (timedelta_minutes 60) 0)"
    by (rule sample_token_not_api)
  moreover have "in_lifetime (timedelta_minutes 60) 0 (clock sample_db (ticks sample_db))" "u_active sample_admin"
    by code_simp+
  ultimately show ?thesis
    using access_token_round_trip [OF sample_api_documented(1), of default_settings 1 TOKEN_TYPE_ACCESS "''a''" "timedelta_minutes 60" 0 sample_db]
      sample_user by simp
qed

text \<open>C22: a new API token authenticates its owner, and nobody else, from its creation until its
  end, as long as the owner is active; what is stored of it is its hash.\<close>

theorem api_token_round_trip:
  assumes "accounts_ok s" "sha256_hex api (generate_token cfg hex) \<notin> p_token_hash ` set (api_tokens s)" "0 < api_token_expire_days cfg"
  shows "\<exists>p s'. create_token cfg api hex uid name None s = Ok (generate_token cfg hex, p) s' \<and>
    p_token_hash p = sha256_hex api (generate_token cfg hex) \<and>
    (\<forall>n u. fst (authenticate_api_token api (generate_token cfg hex) (s'\<lparr>ticks := n\<rparr>)) = Some u \<longleftrightarrow>
      clock s n < clock s (ticks s) + timedelta_days (api_token_expire_days cfg) \<and> get_user_by_id s uid = Some u \<and> u_active u)"
proof -
  obtain p s' where p: "create_token cfg api hex uid name None s = Ok (generate_token cfg hex, p) s'"
    "p_token_hash p = sha256_hex api (generate_token cfg hex)" "p_user_id p = uid" "p_revoked_at p = None" "p_is_active p"
    "p_expires_at p = Some (clock s (ticks s) + timedelta_days (api_token_expire_days cfg))"
    "api_tokens s' = api_tokens s @ [p]" "users s' = users s" "clock s' = clock s"
    by (rule create_token_effect [OF assms(2), of uid name]) (use assms(3) in auto)
  have "accounts_ok s'"
    using keeps_sound [OF keeps_create_token [OF keeps_refl] assms(1), of cfg api hex uid name None] p(1) by simp
  then have "fst (authenticate_api_token api (generate_token cfg hex) (s'\<lparr>ticks := n\<rparr>)) = Some u \<longleftrightarrow>
      (\<exists>q\<in>set (api_tokens s'). p_token_hash q = sha256_hex api (generate_token cfg hex) \<and> token_usable (clock s n) q \<and>
        get_user_by_id s (p_user_id q) = Some u \<and> u_active u)" for n u
    using p(8,9) by (simp add: authenticate_iff get_user_by_id_def)
  moreover have "q = p" if "q \<in> set (api_tokens s')" "p_token_hash q = sha256_hex api (generate_token cfg hex)" for q
    using that p(7) assms(2) by (auto simp: image_iff)
  moreover have "p \<in> set (api_tokens s')" using p(7) by simp
  ultimately have "fst (authenticate_api_token api (generate_token cfg hex) (s'\<lparr>ticks := n\<rparr>)) = Some u \<longleftrightarrow>
      token_usable (clock s n) p \<and> get_user_by_id s (p_user_id p) = Some u \<and> u_active u" for n u
    using p(2) by metis
  then have "fst (authenticate_api_token api (generate_token cfg hex) (s'\<lparr>ticks := n\<rparr>)) = Some u \<longleftrightarrow>
      clock s n < clock s (ticks s) + timedelta_days (api_token_expire_days cfg) \<and> get_user_by_id s uid = Some u \<and> u_active u" for n u
    using p(3-6) by (simp add: token_usable_def)
  then show ?thesis using p(1,2) by blast
qed

theorem api_token_round_trip_witness:
  "\<exists>p s'. create_token default_settings sample_api ''ab'' 1 ''ci'' None sample_db = Ok (''tp_ab'', p) s' \<and>
    fst (authenticate_api_token sample_api ''tp_ab'' (s'\<lparr>ticks := 5\<rparr>)) = Some sample_admin"
proof -
  have "sha256_hex sample_api (generate_token default_settings ''ab'') \<notin> p_token_hash ` set (api_tokens sample_db)"
    "0 < api_token_expire_days default_settings" "generate_token default_settings ''ab'' = ''tp_ab''"
    "clock sample_db 5 < clock sample_db (ticks sample_db) + timedelta_days (api_token_expire_days default_settings)"
    "u_active sample_admin"
    by code_simp+
  then show ?thesis
    using api_token_round_trip [OF sample_accounts(1), of sample_api default_settings "''ab''" 1 "''ci''"] sample_user by fastforce
qed

text \<open>C23: an API token can be revoked by its owner and by an administrator only; once revoked it
  authenticates nobody, whatever the platform does afterwards.\<close>

theorem api_token_revocation:
  assumes "accounts_ok s" "p \<in> set (api_tokens s)"
  shows "if p_user_id p = u_id who \<or> u_role who = ''admin''
    then \<exists>s'. revoke_api_token_route who (p_id p) ip s = (Reply (), s') \<and>
      (\<forall>cfg s'' api token. (moves cfg)\<^sup>*\<^sup>* s' s'' \<longrightarrow> sha256_hex api token = p_token_hash p \<longrightarrow>
         fst (authenticate_api_token api token s'') = None)
    else revoke_api_token_route who (p_id p) ip s = (Status 404, s)"
proof (cases "p_user_id p = u_id who \<or> u_role who = ''admin''")
  case True
  obtain s' where s': "revoke_api_token_route who (p_id p) ip s = (Reply (), s')" "token_revoked (p_token_hash p) s'"
    using revoke_token_own [OF assms True] by blast
  have "accounts_ok s'"
    using keeps_sound [OF keeps_committed [OF auth_committed.revoke_api_token] assms(1)] s'(1) by (metis snd_conv)
  then have "fst (authenticate_api_token api token s'') = None"
    if "(moves cfg)\<^sup>*\<^sup>* s' s''" "sha256_hex api token = p_token_hash p" for cfg s'' api token
    using api_credential.never_again [OF that(1) _ s'(2)] that(2) by blast
  with True s'(1) show ?thesis by auto
next
  case False
  then show ?thesis using revoke_token_other [OF assms, of who ip] by simp
qed

definition sample_token :: api_token where
  "sample_token = \<lparr>p_id = 1, p_name = ''ci'', p_user_id = 1, p_token_hash = ''htp_ab'', p_last_used_at = None,
     p_expires_at = None, p_revoked_at = None, p_is_active = True\<rparr>"

theorem api_token_revocation_witness:
  "\<exists>s'. revoke_api_token_route sample_admin 1 None (sample_db\<lparr>api_tokens := [sample_token], seq_token := 2\<rparr>) = (Reply (), s') \<and>
    fst (authenticate_api_token sample_api ''tp_ab'' s') = None"
proof -
  let ?s = "sample_db\<lparr>api_tokens := [sample_token], seq_token := 2\<rparr>"
  have ok: "accounts_ok ?s" "sample_token \<in> set (api_tokens ?s)"
    using sample_accounts(1) by (simp_all add: accounts_ok_def sample_token_def)
  have "u_role sample_admin = ''admin''" "p_id sample_token = 1" "sha256_hex sample_api ''tp_ab'' = p_token_hash sample_token"
    by (simp_all add: sample_admin_def sample_token_def sample_api_def)
  then show ?thesis using api_token_revocation [OF ok, of sample_admin None] by auto
qed

section \<open>Accounts\<close>

text \<open>C24: a password is changed only by an active user who gives the present one; afterwards the
  new one is the user's, and every refresh token of the user, and no other, is revoked.\<close>

theorem password_change:
  assumes "bcrypt_documented api" "change_password_route api salt who current_pw new_pw ip s = (Reply u', s')"
  shows "get_user_by_id s' (u_id who) = Some u' \<and> verify_password api new_pw (u_password_hash u') \<and>
    (\<exists>u. get_user_by_id s (u_id who) = Some u \<and> u_active u \<and> verify_password api current_pw (u_password_hash u)) \<and>
    (\<forall>r\<in>set (refresh_tokens s'). r_user_id r = u_id who \<longrightarrow> r_revoked_at r \<noteq> None) \<and>
    filter (\<lambda>r. r_user_id r \<noteq> u_id who) (refresh_tokens s') = filter (\<lambda>r. r_user_id r \<noteq> u_id who) (refresh_tokens s)"
  by (rule change_password_effect [OF assms])

theorem password_change_witness:
  "\<exists>u' s'. change_password_route sample_api [] sample_admin ''admin'' ''new-secret'' None sample_session = (Reply u', s') \<and>
    (\<forall>r\<in>set (refresh_tokens s'). r_user_id r = 1 \<longrightarrow> r_revoked_at r \<noteq> None)"
proof -
  have user: "get_user_by_id sample_session (u_id sample_admin) = Some sample_admin" "u_active sample_admin" "u_id sample_admin = 1"
    "verify_password sample_api ''admin'' (u_password_hash sample_admin)"
    using sample_user(2) by (simp_all add: sample_admin_def verify_password_def sample_api_def)
  then obtain u' s' where "change_password_route sample_api [] sample_admin ''admin'' ''new-secret'' None sample_session = (Reply u', s')"
    by (auto simp: change_password_route_def Let_def case_prod_beta)
  then show ?thesis using password_change [OF sample_api_documented(2)] user(3) by metis
qed

text \<open>C25: an administrator's deactivation of a user shuts the user out at once: no credentials
  of any kind are accepted for the user, and all of the user's refresh tokens are revoked.\<close>

theorem deactivation:
  assumes "accounts_ok s" "get_user_by_id s uid = Some u"
  shows "\<exists>s'. set_active_route admin uid False ip s = (Reply (u\<lparr>u_active := False\<rparr>), s') \<and>
    (\<forall>cfg api credentials v. fst (get_current_user cfg api credentials s') = Reply v \<longrightarrow> u_id v \<noteq> uid) \<and>
    (\<forall>r\<in>set (refresh_tokens s'). r_user_id r = uid \<longrightarrow> r_revoked_at r \<noteq> None)"
proof -
  obtain s' where s': "set_active_route admin uid False ip s = (Reply (u\<lparr>u_active := False\<rparr>), s')"
    "get_user_by_id s' uid = Some (u\<lparr>u_active := False\<rparr>)"
    "\<forall>r\<in>set (refresh_tokens s'). r_user_id r = uid \<longrightarrow> r_revoked_at r \<noteq> None"
    using set_active_effect [OF assms(2), of admin False ip] by auto
  have ok: "accounts_ok s'"
    using keeps_sound [OF keeps_committed [OF auth_committed.set_active] assms(1)] s'(1) by (metis snd_conv)
  have "u_id v \<noteq> uid" if "fst (get_current_user cfg api credentials s') = Reply v" for cfg api credentials v
  proof
    assume "u_id v = uid"
    have "v \<in> set (users s') \<and> u_active v" using that get_current_user_sound by (metis prod.collapse)
    then have "find_row u_id uid (users s') = Some v"
      using ok \<open>u_id v = uid\<close> find_row_distinct [of u_id "users s'" v] by (simp add: accounts_ok_def)
    then show False using s'(2) \<open>v \<in> set (users s') \<and> u_active v\<close> by (simp add: get_user_by_id_def)
  qed
  then show ?thesis using s' by blast
qed

theorem deactivation_witness:
  "\<exists>s'. set_active_route (1, ''admin'') 1 False None sample_session = (Reply (sample_admin\<lparr>u_active := False\<rparr>), s') \<and>
    (\<forall>r\<in>set (refresh_tokens s'). r_user_id r = 1 \<longrightarrow> r_revoked_at r \<noteq> None)"
  using deactivation [OF sample_accounts(2) sample_user(2), of "(1, ''admin'')" None] by blast



section \<open>Access\<close>

text \<open>C21: access control over every request of the API that needs a user. Without accepted credentials it is
  answered with the refusal of the authentication, without a role its route demands with 403, and
  nothing happens. A user who is neither operator nor administrator changes nothing of the
  tasks, messages, batches, webhooks and workers, and of the accounts nothing but the own password,
  sessions and tokens. A request that is answered with an error status leaves every table as it was.\<close>

theorem access_control:
  assumes "accounts_ok s" "get_current_user cfg api credentials s = (who, s1)"
    and "serve ilike send cfg api credentials req s = (r, s')"
  shows "(\<forall>c. who = Status c \<longrightarrow> r = Status c \<and> s' = s1) \<and>
    (\<forall>u. who = Reply u \<longrightarrow> u \<in> set (users s) \<and> u_active u \<and>
       (\<forall>roles. required_roles req = Some roles \<and> u_role u \<notin> set roles \<longrightarrow> r = Status 403 \<and> s' = s1) \<and>
       (u_role u \<notin> set OPERATOR \<longrightarrow> work s' = work s \<and> only_own u s1 s')) \<and>
    (\<forall>code. r = Status code \<longrightarrow> same_tables s1 s')"
proof (cases who)
  case (Status c)
  then have "r = Status c \<and> s' = s1"
    using assms(2,3) by (auto simp: serve_def guarded_def require_roles_def split: option.splits)
  then show ?thesis using Status by simp
next
  case (Reply u)
  have work1: "work s1 = work s" using get_current_user_leaves(1) [of cfg api credentials s] assms(2) by simp
  have keys: "distinct (map p_id (api_tokens s1))"
    using get_current_user_leaves(5) [of cfg api credentials s] assms(1,2) same_token_keys
    by (metis accounts_ok_def snd_conv)
  have denied: "r = Status 403 \<and> s' = s1" if "required_roles req = Some roles" "u_role u \<notin> set roles" for roles
    using assms(2,3) that Reply by (auto simp: serve_def guarded_def require_roles_def)
  have "work s' = work s \<and> only_own u s1 s'" if viewer: "u_role u \<notin> set OPERATOR"
  proof (cases "required_roles req")
    case None
    then have "route ilike send cfg api u req s1 = (r, s')" using assms(2,3) Reply by (simp add: serve_def guarded_def)
    then show ?thesis using route_own [where ilike = ilike and send = send and cfg = cfg and api = api and u = u, OF None keys] work1 by simp
  next
    case (Some roles)
    then have "u_role u \<notin> set roles" using viewer required_roles_cases [of req] admin_operates by auto
    then show ?thesis using denied [OF Some] work1 by simp
  qed
  moreover have "same_tables s1 s'" if "r = Status code" for code
    using assms(2,3) that Reply route_refused
    by (auto simp: serve_def guarded_def require_roles_def split: option.splits if_splits)
  ultimately show ?thesis
    using Reply denied get_current_user_sound assms(2) by auto
qed

theorem access_control_witness:
  "serve (\<lambda>_ _. True) (\<lambda>_ _. (True, None, [])) default_settings sample_api
     (Some (issued sample_api 1 TOKEN_TYPE_ACCESS ''a'' (timedelta_minutes 60) 0)) (CancelTask None 4)
     (sample_db\<lparr>users := [sample_admin\<lparr>u_role := ''viewer''\<rparr>]\<rparr>) =
   (Status 403, sample_db\<lparr>users := [sample_admin\<lparr>u_role := ''viewer''\<rparr>], ticks := 1\<rparr>)"
proof -
  let ?s = "sample_db\<lparr>users := [sample_admin\<lparr>u_role := ''viewer''\<rparr>]\<rparr>"
  let ?t = "issued sample_api 1 TOKEN_TYPE_ACCESS ''a'' (timedelta_minutes 60) 0"
  have "in_lifetime (timedelta_minutes 60) 0 (clock ?s (ticks ?s))" "ticks sample_db = 0"
    by (simp_all add: in_lifetime_def whole_second_def timedelta_minutes_def sample_db_def)
  moreover have "get_user_by_id ?s 1 = Some (sample_admin\<lparr>u_role := ''viewer''\<rparr>)"
    by (simp add: get_user_by_id_def sample_admin_def table_simps)
  ultimately have user: "get_current_user default_settings sample_api (Some ?t) ?s =
      (Reply (sample_admin\<lparr>u_role := ''viewer''\<rparr>), ?s\<lparr>ticks := 1\<rparr>)"
    using get_current_user_issued [OF sample_api_documented(1) sample_token_not_api, of 1 TOKEN_TYPE_ACCESS "''a''" "timedelta_minutes 60" 0 ?s]
    by (simp add: sample_admin_def)
  have ok: "accounts_ok ?s" using sample_accounts(1) viewer_ok by (simp add: accounts_ok_def sample_admin_def sample_db_def)
  obtain r s' where serve: "serve (\<lambda>_ _. True) (\<lambda>_ _. (True, None, [])) default_settings sample_api (Some ?t) (CancelTask None 4) ?s = (r, s')"
    by force
  have "required_roles (CancelTask None 4) = Some OPERATOR" "u_role (sample_admin\<lparr>u_role := ''viewer''\<rparr>) \<notin> set OPERATOR"
    by (simp_all add: OPERATOR_def)
  then show ?thesis using access_control [OF ok user serve] serve by auto
qed

section \<open>Rate limits\<close>

text \<open>C27: the in-process limiter keeps its promise for every key, whatever the calls for other keys:
  of calls whose times do not decrease, it never accepts more than its maximum within one window.\<close>

theorem window_limit:
  assumes "sorted (times_of key calls)"
  shows "int (length (filter (in_window w t) (times_of key (served calls (LocalRateLimiter n w))))) \<le> max 0 n"
  by (rule served_bound [OF assms])

theorem window_limit_witness:
  "length (filter (in_window 10 3) (times_of ''a'' (served [(''a'', 1), (''b'', 1), (''a'', 2), (''a'', 3)] (LocalRateLimiter 2 10)))) \<le> 2"
  using window_limit [where key = "''a''" and calls = "[(''a'', 1), (''b'', 1), (''a'', 2), (''a'', 3)]" and w = 10 and t = 3 and n = 2] by (simp add: times_of_def)





end
