(* ===== verification/Migrations.thy ===== *)
theory Migrations
  imports Prelude
begin

text \<open>
  The schema of the database (\<open>alembic/versions\<close>) against the tables the application declares
  (\<open>models\<close>). A migration is a list of DDL operations; \<open>apply_op\<close> says what each does to a schema and
  when the database refuses it. Every \<open>downgrade\<close> undoes its \<open>upgrade\<close>, and the schema the migrations
  build is compared with the declared one.
\<close>

section \<open>Schemas\<close>

datatype sql_type = INTEGER | VARCHAR nat | JSON_TYPE | TIMESTAMPTZ | BOOLEAN

datatype server_default = NOW | LITERAL string | SQL_TRUE

record column =
  cl_name :: string
  cl_type :: sql_type
  cl_nullable :: bool
  cl_default :: "server_default option"

record foreign_key =
  fk_name :: "string option"
  fk_columns :: "string list"
  fk_table :: string
  fk_targets :: "string list"
  fk_ondelete :: string

record index =
  ix_name :: string
  ix_columns :: "string list"
  ix_unique :: bool

record table =
  tb_columns :: "column list"
  tb_key :: "string list"
  tb_references :: "foreign_key list"
  tb_indexes :: "index list"

type_synonym schema = "(string \<times> table) list"

definition col :: "string \<Rightarrow> sql_type \<Rightarrow> bool \<Rightarrow> server_default option \<Rightarrow> column" where
  "col n ty nullable d = \<lparr>cl_name = n, cl_type = ty, cl_nullable = nullable, cl_default = d\<rparr>"

definition references :: "string option \<Rightarrow> string \<Rightarrow> string \<Rightarrow> string \<Rightarrow> foreign_key" where
  \<comment> \<open>a foreign key of one column to the column \<open>id\<close> of another table\<close>
  "references name c t ondelete =
     \<lparr>fk_name = name, fk_columns = [c], fk_table = t, fk_targets = [''id''], fk_ondelete = ondelete\<rparr>"

abbreviation column_names :: "table \<Rightarrow> string list" where
  "column_names t \<equiv> map cl_name (tb_columns t)"

definition index_names :: "schema \<Rightarrow> string list" where
  "index_names s = concat (map (\<lambda>(_, t). map ix_name (tb_indexes t)) s)"

section \<open>Operations\<close>

datatype operation =
  CreateTable string "column list" "string list" "foreign_key list"
| DropTable string
| AddColumn string column
| DropColumn string string
| CreateForeignKey string foreign_key
| DropConstraint string string
| CreateIndex string index
| DropIndex string string

definition new_table :: "column list \<Rightarrow> string list \<Rightarrow> foreign_key list \<Rightarrow> table" where
  "new_table cs key fks = \<lparr>tb_columns = cs, tb_key = key, tb_references = fks, tb_indexes = []\<rparr>"

definition change_table :: "string \<Rightarrow> (table \<Rightarrow> table) \<Rightarrow> schema \<Rightarrow> schema" where
  "change_table n f s = map (\<lambda>(m, t). if m = n then (m, f t) else (m, t)) s"

text \<open>A foreign key refers to the primary key of a table that exists.\<close>

definition reference_ok :: "schema \<Rightarrow> foreign_key \<Rightarrow> bool" where
  "reference_ok s fk \<longleftrightarrow>
     (case map_of s (fk_table fk) of None \<Rightarrow> False | Some t \<Rightarrow> fk_targets fk = tb_key t)"

definition table_ok :: "schema \<Rightarrow> table \<Rightarrow> bool" where
  "table_ok s t \<longleftrightarrow>
     distinct (column_names t) \<and> set (tb_key t) \<subseteq> set (column_names t) \<and>
     list_all (\<lambda>fk. set (fk_columns fk) \<subseteq> set (column_names t) \<and> reference_ok s fk) (tb_references t) \<and>
     list_all (\<lambda>ix. set (ix_columns ix) \<subseteq> set (column_names t)) (tb_indexes t)"

definition referred_by :: "string \<Rightarrow> schema \<Rightarrow> bool" where
  \<comment> \<open>another table has a foreign key to \<open>n\<close>\<close>
  "referred_by n s \<longleftrightarrow> list_ex (\<lambda>(m, t). m \<noteq> n \<and> list_ex (\<lambda>fk. fk_table fk = n) (tb_references t)) s"

definition column_referred :: "string \<Rightarrow> string \<Rightarrow> schema \<Rightarrow> bool" where
  "column_referred n c s \<longleftrightarrow>
     list_ex (\<lambda>(m, t). list_ex (\<lambda>fk. fk_table fk = n \<and> c \<in> set (fk_targets fk)) (tb_references t)) s"

definition without_column :: "string \<Rightarrow> table \<Rightarrow> table" where
  \<comment> \<open>the indexes and constraints of a column go with it\<close>
  "without_column c t =
     t\<lparr>tb_columns := filter (\<lambda>cl. cl_name cl \<noteq> c) (tb_columns t),
       tb_key := (if c \<in> set (tb_key t) then [] else tb_key t),
       tb_references := filter (\<lambda>fk. c \<notin> set (fk_columns fk)) (tb_references t),
       tb_indexes := filter (\<lambda>ix. c \<notin> set (ix_columns ix)) (tb_indexes t)\<rparr>"

fun apply_op :: "operation \<Rightarrow> schema \<Rightarrow> schema option" where
  "apply_op (CreateTable n cs key fks) s =
     (let t = new_table cs key fks; s' = s @ [(n, t)] in
      if n \<in> set (map fst s) \<or> \<not> table_ok s' t then None else Some s')"
| "apply_op (DropTable n) s =
     (if n \<notin> set (map fst s) \<or> referred_by n s then None else Some (filter (\<lambda>(m, _). m \<noteq> n) s))"
| "apply_op (AddColumn n cl) s =
     (case map_of s n of
        None \<Rightarrow> None
      | Some t \<Rightarrow> if cl_name cl \<in> set (column_names t) then None
                 else Some (change_table n (\<lambda>t. t\<lparr>tb_columns := tb_columns t @ [cl]\<rparr>) s))"
| "apply_op (DropColumn n c) s =
     (case map_of s n of
        None \<Rightarrow> None
      | Some t \<Rightarrow> if c \<notin> set (column_names t) \<or> column_referred n c s then None
                 else Some (change_table n (without_column c) s))"
| "apply_op (CreateForeignKey n fk) s =
     (case map_of s n of
        None \<Rightarrow> None
      | Some t \<Rightarrow> if fk_name fk \<in> set (map fk_name (tb_references t)) \<or>
                   \<not> set (fk_columns fk) \<subseteq> set (column_names t) \<or> \<not> reference_ok s fk then None
                 else Some (change_table n (\<lambda>t. t\<lparr>tb_references := tb_references t @ [fk]\<rparr>) s))"
| "apply_op (DropConstraint name n) s =
     (case map_of s n of
        None \<Rightarrow> None
      | Some t \<Rightarrow> if Some name \<notin> set (map fk_name (tb_references t)) then None
                 else Some (change_table n
                   (\<lambda>t. t\<lparr>tb_references := filter (\<lambda>fk. fk_name fk \<noteq> Some name) (tb_references t)\<rparr>) s))"
| "apply_op (CreateIndex n ix) s =
     (case map_of s n of
        None \<Rightarrow> None
      | Some t \<Rightarrow> if ix_name ix \<in> set (index_names s) \<or> \<not> set (ix_columns ix) \<subseteq> set (column_names t) then None
                 else Some (change_table n (\<lambda>t. t\<lparr>tb_indexes := tb_indexes t @ [ix]\<rparr>) s))"
| "apply_op (DropIndex name n) s =
     (case map_of s n of
        None \<Rightarrow> None
      | Some t \<Rightarrow> if name \<notin> set (map ix_name (tb_indexes t)) then None
                 else Some (change_table n
                   (\<lambda>t. t\<lparr>tb_indexes := filter (\<lambda>ix. ix_name ix \<noteq> name) (tb_indexes t)\<rparr>) s))"

fun run_ops :: "operation list \<Rightarrow> schema \<Rightarrow> schema option" where
  "run_ops [] s = Some s"
| "run_ops (o1 # os) s = (case apply_op o1 s of None \<Rightarrow> None | Some s' \<Rightarrow> run_ops os s')"

section \<open>The revisions\<close>

record revision =
  rv_id :: string
  rv_down :: "string option"
  rv_upgrade :: "operation list"
  rv_downgrade :: "operation list"

definition initial_upgrade :: "operation list" where
  "initial_upgrade =
    [CreateTable ''tasks''
       [col ''id'' INTEGER False None,
        col ''task_type'' (VARCHAR 100) False None,
        col ''payload'' JSON_TYPE False None,
        col ''status'' (VARCHAR 20) False None,
        col ''priority'' (VARCHAR 20) False None,
        col ''max_attempts'' INTEGER False None,
        col ''attempts'' INTEGER False None,
        col ''idempotency_key'' (VARCHAR 255) True None,
        col ''scheduled_at'' TIMESTAMPTZ True None,
        col ''started_at'' TIMESTAMPTZ True None,
        col ''finished_at'' TIMESTAMPTZ True None,
        col ''result'' JSON_TYPE True None,
        col ''last_error'' (VARCHAR 2000) True None,
        col ''created_by'' INTEGER True None,
        col ''created_at'' TIMESTAMPTZ False (Some NOW),
        col ''updated_at'' TIMESTAMPTZ False (Some NOW)]
       [''id''] [],
     CreateIndex ''tasks'' \<lparr>ix_name = ''ix_tasks_status'', ix_columns = [''status''], ix_unique = False\<rparr>,
     CreateIndex ''tasks'' \<lparr>ix_name = ''ix_tasks_task_type'', ix_columns = [''task_type''], ix_unique = False\<rparr>,
     CreateIndex ''tasks'' \<lparr>ix_name = ''ix_tasks_idempotency_key'', ix_columns = [''idempotency_key''], ix_unique = True\<rparr>,
     CreateTable ''task_attempts''
       [col ''id'' INTEGER False None,
        col ''task_id'' INTEGER False None,
        col ''attempt_number'' INTEGER False None,
        col ''worker_id'' (VARCHAR 100) True None,
        col ''status'' (VARCHAR 20) False None,
        col ''error_message'' (VARCHAR 2000) True None,
        col ''result'' JSON_TYPE True None,
        col ''started_at'' TIMESTAMPTZ True None,
        col ''finished_at'' TIMESTAMPTZ True None,
        col ''created_at'' TIMESTAMPTZ False (Some NOW),
        col ''updated_at'' TIMESTAMPTZ False (Some NOW)]
       [''id''] [references None ''task_id'' ''tasks'' ''CASCADE''],
     CreateIndex ''task_attempts'' \<lparr>ix_name = ''ix_task_attempts_task_id'', ix_columns = [''task_id''], ix_unique = False\<rparr>,
     CreateTable ''task_events''
       [col ''id'' INTEGER False None,
        col ''task_id'' INTEGER False None,
        col ''event_type'' (VARCHAR 50) False None,
        col ''old_status'' (VARCHAR 20) True None,
        col ''new_status'' (VARCHAR 20) False None,
        col ''metadata'' JSON_TYPE True None,
        col ''created_at'' TIMESTAMPTZ False (Some NOW)]
       [''id''] [references None ''task_id'' ''tasks'' ''CASCADE''],
     CreateIndex ''task_events'' \<lparr>ix_name = ''ix_task_events_task_id'', ix_columns = [''task_id''], ix_unique = False\<rparr>,
     CreateTable ''outbox_events''
       [col ''id'' INTEGER False None,
        col ''routing_key'' (VARCHAR 100) False None,
        col ''payload'' JSON_TYPE False None,
        col ''status'' (VARCHAR 20) False None,
        col ''attempts'' INTEGER False None,
        col ''processed_at'' TIMESTAMPTZ True None,
        col ''last_error'' (VARCHAR 1000) True None,
        col ''created_at'' TIMESTAMPTZ False (Some NOW),
        col ''updated_at'' TIMESTAMPTZ False (Some NOW)]
       [''id''] [],
     CreateIndex ''outbox_events'' \<lparr>ix_name = ''ix_outbox_events_status'', ix_columns = [''status''], ix_unique = False\<rparr>]"

definition initial_downgrade :: "operation list" where
  "initial_downgrade =
    [DropIndex ''ix_outbox_events_status'' ''outbox_events'',
     DropTable ''outbox_events'',
     DropIndex ''ix_task_events_task_id'' ''task_events'',
     DropTable ''task_events'',
     DropIndex ''ix_task_attempts_task_id'' ''task_attempts'',
     DropTable ''task_attempts'',
     DropIndex ''ix_tasks_idempotency_key'' ''tasks'',
     DropIndex ''ix_tasks_task_type'' ''tasks'',
     DropIndex ''ix_tasks_status'' ''tasks'',
     DropTable ''tasks'']"

definition workers_upgrade :: "operation list" where
  "workers_upgrade =
    [CreateTable ''workers''
       [col ''id'' INTEGER False None,
        col ''worker_id'' (VARCHAR 100) False None,
        col ''hostname'' (VARCHAR 255) False None,
        col ''pid'' INTEGER False None,
        col ''status'' (VARCHAR 20) False None,
        col ''started_at'' TIMESTAMPTZ False None,
        col ''last_heartbeat_at'' TIMESTAMPTZ False None,
        col ''completed_tasks'' INTEGER False None,
        col ''failed_tasks'' INTEGER False None,
        col ''created_at'' TIMESTAMPTZ False (Some NOW),
        col ''updated_at'' TIMESTAMPTZ False (Some NOW)]
       [''id''] [],
     CreateIndex ''workers'' \<lparr>ix_name = ''ix_workers_worker_id'', ix_columns = [''worker_id''], ix_unique = True\<rparr>,
     CreateIndex ''workers'' \<lparr>ix_name = ''ix_workers_status'', ix_columns = [''status''], ix_unique = False\<rparr>]"

definition workers_downgrade :: "operation list" where
  "workers_downgrade =
    [DropIndex ''ix_workers_status'' ''workers'',
     DropIndex ''ix_workers_worker_id'' ''workers'',
     DropTable ''workers'']"

definition tasks_lease_upgrade :: "operation list" where
  "tasks_lease_upgrade =
    [AddColumn ''tasks'' (col ''lease_owner'' (VARCHAR 100) True None),
     AddColumn ''tasks'' (col ''lease_expires_at'' TIMESTAMPTZ True None),
     CreateIndex ''tasks'' \<lparr>ix_name = ''ix_tasks_lease_expires_at'', ix_columns = [''lease_expires_at''], ix_unique = False\<rparr>]"

definition tasks_lease_downgrade :: "operation list" where
  "tasks_lease_downgrade =
    [DropIndex ''ix_tasks_lease_expires_at'' ''tasks'',
     DropColumn ''tasks'' ''lease_expires_at'',
     DropColumn ''tasks'' ''lease_owner'']"

definition users_upgrade :: "operation list" where
  "users_upgrade =
    [CreateTable ''users''
       [col ''id'' INTEGER False None,
        col ''username'' (VARCHAR 100) False None,
        col ''password_hash'' (VARCHAR 255) False None,
        col ''role'' (VARCHAR 20) False (Some (LITERAL ''viewer'')),
        col ''is_active'' BOOLEAN False (Some SQL_TRUE),
        col ''last_login_at'' TIMESTAMPTZ True None,
        col ''created_at'' TIMESTAMPTZ False (Some NOW),
        col ''updated_at'' TIMESTAMPTZ False (Some NOW)]
       [''id''] [],
     CreateIndex ''users'' \<lparr>ix_name = ''ix_users_username'', ix_columns = [''username''], ix_unique = True\<rparr>]"

definition users_downgrade :: "operation list" where
  "users_downgrade =
    [DropIndex ''ix_users_username'' ''users'',
     DropTable ''users'']"

definition refresh_tokens_upgrade :: "operation list" where
  "refresh_tokens_upgrade =
    [CreateTable ''refresh_tokens''
       [col ''id'' INTEGER False None,
        col ''user_id'' INTEGER False None,
        col ''jti'' (VARCHAR 64) False None,
        col ''expires_at'' TIMESTAMPTZ False None,
        col ''revoked_at'' TIMESTAMPTZ True None,
        col ''created_at'' TIMESTAMPTZ False (Some NOW),
        col ''updated_at'' TIMESTAMPTZ False (Some NOW)]
       [''id''] [references None ''user_id'' ''users'' ''CASCADE''],
     CreateIndex ''refresh_tokens'' \<lparr>ix_name = ''ix_refresh_tokens_jti'', ix_columns = [''jti''], ix_unique = True\<rparr>,
     CreateIndex ''refresh_tokens'' \<lparr>ix_name = ''ix_refresh_tokens_user_id'', ix_columns = [''user_id''], ix_unique = False\<rparr>]"

definition refresh_tokens_downgrade :: "operation list" where
  "refresh_tokens_downgrade =
    [DropIndex ''ix_refresh_tokens_user_id'' ''refresh_tokens'',
     DropIndex ''ix_refresh_tokens_jti'' ''refresh_tokens'',
     DropTable ''refresh_tokens'']"

definition dlq_retry_upgrade :: "operation list" where
  "dlq_retry_upgrade =
    [AddColumn ''tasks'' (col ''dlq_requeue_count'' INTEGER False (Some (LITERAL ''0''))),
     AddColumn ''tasks'' (col ''dlq_retry_at'' TIMESTAMPTZ True None)]"

definition dlq_retry_downgrade :: "operation list" where
  "dlq_retry_downgrade =
    [DropColumn ''tasks'' ''dlq_retry_at'',
     DropColumn ''tasks'' ''dlq_requeue_count'']"

definition v15_features_upgrade :: "operation list" where
  "v15_features_upgrade =
    [CreateTable ''task_batches''
       [col ''id'' INTEGER False None,
        col ''name'' (VARCHAR 255) False None,
        col ''created_by'' INTEGER True None,
        col ''created_at'' TIMESTAMPTZ False (Some NOW),
        col ''updated_at'' TIMESTAMPTZ False (Some NOW)]
       [''id''] [],
     AddColumn ''tasks'' (col ''batch_id'' INTEGER True None),
     CreateForeignKey ''tasks'' (references (Some ''fk_tasks_batch_id_task_batches'') ''batch_id'' ''task_batches'' ''SET NULL''),
     CreateIndex ''tasks'' \<lparr>ix_name = ''ix_tasks_batch_id'', ix_columns = [''batch_id''], ix_unique = False\<rparr>,
     CreateIndex ''tasks'' \<lparr>ix_name = ''ix_tasks_created_at'', ix_columns = [''created_at''], ix_unique = False\<rparr>,
     CreateTable ''task_dependencies''
       [col ''parent_task_id'' INTEGER False None,
        col ''child_task_id'' INTEGER False None]
       [''parent_task_id'', ''child_task_id''] [references None ''child_task_id'' ''tasks'' ''CASCADE'', references None ''parent_task_id'' ''tasks'' ''CASCADE''],
     CreateIndex ''task_dependencies'' \<lparr>ix_name = ''ix_task_dependencies_child'', ix_columns = [''child_task_id''], ix_unique = False\<rparr>,
     CreateTable ''api_tokens''
       [col ''id'' INTEGER False None,
        col ''name'' (VARCHAR 100) False None,
        col ''user_id'' INTEGER False None,
        col ''token_hash'' (VARCHAR 64) False None,
        col ''last_used_at'' TIMESTAMPTZ True None,
        col ''expires_at'' TIMESTAMPTZ True None,
        col ''revoked_at'' TIMESTAMPTZ True None,
        col ''is_active'' BOOLEAN False None,
        col ''created_at'' TIMESTAMPTZ False (Some NOW),
        col ''updated_at'' TIMESTAMPTZ False (Some NOW)]
       [''id''] [references None ''user_id'' ''users'' ''CASCADE''],
     CreateIndex ''api_tokens'' \<lparr>ix_name = ''ix_api_tokens_user_id'', ix_columns = [''user_id''], ix_unique = False\<rparr>,
     CreateIndex ''api_tokens'' \<lparr>ix_name = ''ix_api_tokens_token_hash'', ix_columns = [''token_hash''], ix_unique = True\<rparr>,
     CreateTable ''webhook_subscriptions''
       [col ''id'' INTEGER False None,
        col ''name'' (VARCHAR 255) False None,
        col ''url'' (VARCHAR 2048) False None,
        col ''secret'' (VARCHAR 512) True None,
        col ''events'' JSON_TYPE False None,
        col ''is_active'' BOOLEAN False None,
        col ''created_at'' TIMESTAMPTZ False (Some NOW),
        col ''updated_at'' TIMESTAMPTZ False (Some NOW)]
       [''id''] [],
     CreateTable ''webhook_deliveries''
       [col ''id'' INTEGER False None,
        col ''subscription_id'' INTEGER False None,
        col ''event_type'' (VARCHAR 50) False None,
        col ''task_id'' INTEGER True None,
        col ''payload'' JSON_TYPE False None,
        col ''status'' (VARCHAR 20) False None,
        col ''attempts'' INTEGER False None,
        col ''next_retry_at'' TIMESTAMPTZ False None,
        col ''last_error'' (VARCHAR 1000) True None,
        col ''created_at'' TIMESTAMPTZ False (Some NOW),
        col ''updated_at'' TIMESTAMPTZ False (Some NOW)]
       [''id''] [references None ''subscription_id'' ''webhook_subscriptions'' ''CASCADE''],
     CreateIndex ''webhook_deliveries'' \<lparr>ix_name = ''ix_webhook_deliveries_subscription_id'', ix_columns = [''subscription_id''], ix_unique = False\<rparr>,
     CreateIndex ''webhook_deliveries'' \<lparr>ix_name = ''ix_webhook_deliveries_status'', ix_columns = [''status''], ix_unique = False\<rparr>,
     CreateIndex ''webhook_deliveries'' \<lparr>ix_name = ''ix_webhook_deliveries_next_retry_at'', ix_columns = [''next_retry_at''], ix_unique = False\<rparr>,
     CreateTable ''audit_logs''
       [col ''id'' INTEGER False None,
        col ''actor_id'' INTEGER True None,
        col ''actor_username'' (VARCHAR 100) True None,
        col ''action'' (VARCHAR 100) False None,
        col ''resource_type'' (VARCHAR 50) False None,
        col ''resource_id'' (VARCHAR 100) True None,
        col ''details'' JSON_TYPE True None,
        col ''ip_address'' (VARCHAR 64) True None,
        col ''created_at'' TIMESTAMPTZ False (Some NOW)]
       [''id''] [],
     CreateIndex ''audit_logs'' \<lparr>ix_name = ''ix_audit_logs_actor_id'', ix_columns = [''actor_id''], ix_unique = False\<rparr>,
     CreateIndex ''audit_logs'' \<lparr>ix_name = ''ix_audit_logs_created_at'', ix_columns = [''created_at''], ix_unique = False\<rparr>]"

definition v15_features_downgrade :: "operation list" where
  "v15_features_downgrade =
    [DropIndex ''ix_audit_logs_created_at'' ''audit_logs'',
     DropIndex ''ix_audit_logs_actor_id'' ''audit_logs'',
     DropTable ''audit_logs'',
     DropIndex ''ix_webhook_deliveries_next_retry_at'' ''webhook_deliveries'',
     DropIndex ''ix_webhook_deliveries_status'' ''webhook_deliveries'',
     DropIndex ''ix_webhook_deliveries_subscription_id'' ''webhook_deliveries'',
     DropTable ''webhook_deliveries'',
     DropTable ''webhook_subscriptions'',
     DropIndex ''ix_api_tokens_token_hash'' ''api_tokens'',
     DropIndex ''ix_api_tokens_user_id'' ''api_tokens'',
     DropTable ''api_tokens'',
     DropIndex ''ix_task_dependencies_child'' ''task_dependencies'',
     DropTable ''task_dependencies'',
     DropIndex ''ix_tasks_created_at'' ''tasks'',
     DropIndex ''ix_tasks_batch_id'' ''tasks'',
     DropConstraint ''fk_tasks_batch_id_task_batches'' ''tasks'',
     DropColumn ''tasks'' ''batch_id'',
     DropTable ''task_batches'']"

definition initial_revision :: revision where
  "initial_revision =
     \<lparr>rv_id = ''0001_initial'', rv_down = None, rv_upgrade = initial_upgrade, rv_downgrade = initial_downgrade\<rparr>"

definition workers_revision :: revision where
  "workers_revision =
     \<lparr>rv_id = ''0002_workers'', rv_down = Some ''0001_initial'', rv_upgrade = workers_upgrade, rv_downgrade = workers_downgrade\<rparr>"

definition tasks_lease_revision :: revision where
  "tasks_lease_revision =
     \<lparr>rv_id = ''0003_tasks_lease'', rv_down = Some ''0002_workers'', rv_upgrade = tasks_lease_upgrade, rv_downgrade = tasks_lease_downgrade\<rparr>"

definition users_revision :: revision where
  "users_revision =
     \<lparr>rv_id = ''0004_users'', rv_down = Some ''0003_tasks_lease'', rv_upgrade = users_upgrade, rv_downgrade = users_downgrade\<rparr>"

definition refresh_tokens_revision :: revision where
  "refresh_tokens_revision =
     \<lparr>rv_id = ''0005_refresh_tokens'', rv_down = Some ''0004_users'', rv_upgrade = refresh_tokens_upgrade, rv_downgrade = refresh_tokens_downgrade\<rparr>"

definition dlq_retry_revision :: revision where
  "dlq_retry_revision =
     \<lparr>rv_id = ''0006_dlq_retry'', rv_down = Some ''0005_refresh_tokens'', rv_upgrade = dlq_retry_upgrade, rv_downgrade = dlq_retry_downgrade\<rparr>"

definition v15_features_revision :: revision where
  "v15_features_revision =
     \<lparr>rv_id = ''0007_v15_features'', rv_down = Some ''0006_dlq_retry'', rv_upgrade = v15_features_upgrade, rv_downgrade = v15_features_downgrade\<rparr>"

text \<open>The revisions in the order of their \<open>down_revision\<close> links.\<close>

definition revisions :: "revision list" where
  "revisions =
    [initial_revision, workers_revision, tasks_lease_revision, users_revision,
     refresh_tokens_revision, dlq_retry_revision, v15_features_revision]"

section \<open>The declared tables\<close>

text \<open>A column declared with \<open>index=True\<close> has an index \<open>ix_<table>_<column>\<close>, unique when the column is.
  Defaults that Python fills in are not in the schema.\<close>

definition Task_table :: "string \<times> table" where
  "Task_table = (''tasks'',
    \<lparr>tb_columns =
       [col ''id'' INTEGER False None,
        col ''task_type'' (VARCHAR 100) False None,
        col ''payload'' JSON_TYPE False None,
        col ''status'' (VARCHAR 20) False None,
        col ''priority'' (VARCHAR 20) False None,
        col ''max_attempts'' INTEGER False None,
        col ''attempts'' INTEGER False None,
        col ''idempotency_key'' (VARCHAR 255) True None,
        col ''scheduled_at'' TIMESTAMPTZ True None,
        col ''started_at'' TIMESTAMPTZ True None,
        col ''finished_at'' TIMESTAMPTZ True None,
        col ''lease_owner'' (VARCHAR 100) True None,
        col ''lease_expires_at'' TIMESTAMPTZ True None,
        col ''result'' JSON_TYPE True None,
        col ''last_error'' (VARCHAR 2000) True None,
        col ''created_by'' INTEGER True None,
        col ''batch_id'' INTEGER True None,
        col ''dlq_requeue_count'' INTEGER False None,
        col ''dlq_retry_at'' TIMESTAMPTZ True None,
        col ''created_at'' TIMESTAMPTZ False (Some NOW),
        col ''updated_at'' TIMESTAMPTZ False (Some NOW)],
     tb_key = [''id''],
     tb_references = [references None ''batch_id'' ''task_batches'' ''SET NULL''],
     tb_indexes = [\<lparr>ix_name = ''ix_tasks_task_type'', ix_columns = [''task_type''], ix_unique = False\<rparr>,
        \<lparr>ix_name = ''ix_tasks_status'', ix_columns = [''status''], ix_unique = False\<rparr>,
        \<lparr>ix_name = ''ix_tasks_idempotency_key'', ix_columns = [''idempotency_key''], ix_unique = True\<rparr>,
        \<lparr>ix_name = ''ix_tasks_lease_expires_at'', ix_columns = [''lease_expires_at''], ix_unique = False\<rparr>,
        \<lparr>ix_name = ''ix_tasks_batch_id'', ix_columns = [''batch_id''], ix_unique = False\<rparr>]\<rparr>)"

definition TaskAttempt_table :: "string \<times> table" where
  "TaskAttempt_table = (''task_attempts'',
    \<lparr>tb_columns =
       [col ''id'' INTEGER False None,
        col ''task_id'' INTEGER False None,
        col ''attempt_number'' INTEGER False None,
        col ''worker_id'' (VARCHAR 100) True None,
        col ''status'' (VARCHAR 20) False None,
        col ''error_message'' (VARCHAR 2000) True None,
        col ''result'' JSON_TYPE True None,
        col ''started_at'' TIMESTAMPTZ True None,
        col ''finished_at'' TIMESTAMPTZ True None,
        col ''created_at'' TIMESTAMPTZ False (Some NOW),
        col ''updated_at'' TIMESTAMPTZ False (Some NOW)],
     tb_key = [''id''],
     tb_references = [references None ''task_id'' ''tasks'' ''CASCADE''],
     tb_indexes = [\<lparr>ix_name = ''ix_task_attempts_task_id'', ix_columns = [''task_id''], ix_unique = False\<rparr>]\<rparr>)"

definition TaskEvent_table :: "string \<times> table" where
  "TaskEvent_table = (''task_events'',
    \<lparr>tb_columns =
       [col ''id'' INTEGER False None,
        col ''task_id'' INTEGER False None,
        col ''event_type'' (VARCHAR 50) False None,
        col ''old_status'' (VARCHAR 20) True None,
        col ''new_status'' (VARCHAR 20) False None,
        col ''metadata'' JSON_TYPE True None,
        col ''created_at'' TIMESTAMPTZ False (Some NOW)],
     tb_key = [''id''],
     tb_references = [references None ''task_id'' ''tasks'' ''CASCADE''],
     tb_indexes = [\<lparr>ix_name = ''ix_task_events_task_id'', ix_columns = [''task_id''], ix_unique = False\<rparr>]\<rparr>)"

definition OutboxEvent_table :: "string \<times> table" where
  "OutboxEvent_table = (''outbox_events'',
    \<lparr>tb_columns =
       [col ''id'' INTEGER False None,
        col ''routing_key'' (VARCHAR 100) False None,
        col ''payload'' JSON_TYPE False None,
        col ''status'' (VARCHAR 20) False None,
        col ''attempts'' INTEGER False None,
        col ''processed_at'' TIMESTAMPTZ True None,
        col ''last_error'' (VARCHAR 1000) True None,
        col ''created_at'' TIMESTAMPTZ False (Some NOW),
        col ''updated_at'' TIMESTAMPTZ False (Some NOW)],
     tb_key = [''id''],
     tb_references = [],
     tb_indexes = [\<lparr>ix_name = ''ix_outbox_events_status'', ix_columns = [''status''], ix_unique = False\<rparr>]\<rparr>)"

definition TaskDependency_table :: "string \<times> table" where
  "TaskDependency_table = (''task_dependencies'',
    \<lparr>tb_columns =
       [col ''parent_task_id'' INTEGER False None,
        col ''child_task_id'' INTEGER False None],
     tb_key = [''parent_task_id'', ''child_task_id''],
     tb_references = [references None ''parent_task_id'' ''tasks'' ''CASCADE'', references None ''child_task_id'' ''tasks'' ''CASCADE''],
     tb_indexes = [\<lparr>ix_name = ''ix_task_dependencies_child'', ix_columns = [''child_task_id''], ix_unique = False\<rparr>]\<rparr>)"

definition TaskBatch_table :: "string \<times> table" where
  "TaskBatch_table = (''task_batches'',
    \<lparr>tb_columns =
       [col ''id'' INTEGER False None,
        col ''name'' (VARCHAR 255) False None,
        col ''created_by'' INTEGER True None,
        col ''created_at'' TIMESTAMPTZ False (Some NOW),
        col ''updated_at'' TIMESTAMPTZ False (Some NOW)],
     tb_key = [''id''],
     tb_references = [],
     tb_indexes = []\<rparr>)"

definition WebhookSubscription_table :: "string \<times> table" where
  "WebhookSubscription_table = (''webhook_subscriptions'',
    \<lparr>tb_columns =
       [col ''id'' INTEGER False None,
        col ''name'' (VARCHAR 255) False None,
        col ''url'' (VARCHAR 2048) False None,
        col ''secret'' (VARCHAR 512) True None,
        col ''events'' JSON_TYPE False None,
        col ''is_active'' BOOLEAN False None,
        col ''created_at'' TIMESTAMPTZ False (Some NOW),
        col ''updated_at'' TIMESTAMPTZ False (Some NOW)],
     tb_key = [''id''],
     tb_references = [],
     tb_indexes = []\<rparr>)"

definition WebhookDelivery_table :: "string \<times> table" where
  "WebhookDelivery_table = (''webhook_deliveries'',
    \<lparr>tb_columns =
       [col ''id'' INTEGER False None,
        col ''subscription_id'' INTEGER False None,
        col ''event_type'' (VARCHAR 50) False None,
        col ''task_id'' INTEGER True None,
        col ''payload'' JSON_TYPE False None,
        col ''status'' (VARCHAR 20) False None,
        col ''attempts'' INTEGER False None,
        col ''next_retry_at'' TIMESTAMPTZ False None,
        col ''last_error'' (VARCHAR 1000) True None,
        col ''created_at'' TIMESTAMPTZ False (Some NOW),
        col ''updated_at'' TIMESTAMPTZ False (Some NOW)],
     tb_key = [''id''],
     tb_references = [references None ''subscription_id'' ''webhook_subscriptions'' ''CASCADE''],
     tb_indexes = [\<lparr>ix_name = ''ix_webhook_deliveries_subscription_id'', ix_columns = [''subscription_id''], ix_unique = False\<rparr>,
        \<lparr>ix_name = ''ix_webhook_deliveries_status'', ix_columns = [''status''], ix_unique = False\<rparr>,
        \<lparr>ix_name = ''ix_webhook_deliveries_next_retry_at'', ix_columns = [''next_retry_at''], ix_unique = False\<rparr>]\<rparr>)"

definition User_table :: "string \<times> table" where
  "User_table = (''users'',
    \<lparr>tb_columns =
       [col ''id'' INTEGER False None,
        col ''username'' (VARCHAR 100) False None,
        col ''password_hash'' (VARCHAR 255) False None,
        col ''role'' (VARCHAR 20) False None,
        col ''is_active'' BOOLEAN False None,
        col ''last_login_at'' TIMESTAMPTZ True None,
        col ''created_at'' TIMESTAMPTZ False (Some NOW),
        col ''updated_at'' TIMESTAMPTZ False (Some NOW)],
     tb_key = [''id''],
     tb_references = [],
     tb_indexes = [\<lparr>ix_name = ''ix_users_username'', ix_columns = [''username''], ix_unique = True\<rparr>,
        \<lparr>ix_name = ''ix_users_role'', ix_columns = [''role''], ix_unique = False\<rparr>]\<rparr>)"

definition RefreshToken_table :: "string \<times> table" where
  "RefreshToken_table = (''refresh_tokens'',
    \<lparr>tb_columns =
       [col ''id'' INTEGER False None,
        col ''user_id'' INTEGER False None,
        col ''jti'' (VARCHAR 64) False None,
        col ''expires_at'' TIMESTAMPTZ False None,
        col ''revoked_at'' TIMESTAMPTZ True None,
        col ''created_at'' TIMESTAMPTZ False (Some NOW),
        col ''updated_at'' TIMESTAMPTZ False (Some NOW)],
     tb_key = [''id''],
     tb_references = [references None ''user_id'' ''users'' ''CASCADE''],
     tb_indexes = [\<lparr>ix_name = ''ix_refresh_tokens_user_id'', ix_columns = [''user_id''], ix_unique = False\<rparr>,
        \<lparr>ix_name = ''ix_refresh_tokens_jti'', ix_columns = [''jti''], ix_unique = True\<rparr>]\<rparr>)"

definition ApiToken_table :: "string \<times> table" where
  "ApiToken_table = (''api_tokens'',
    \<lparr>tb_columns =
       [col ''id'' INTEGER False None,
        col ''name'' (VARCHAR 100) False None,
        col ''user_id'' INTEGER False None,
        col ''token_hash'' (VARCHAR 64) False None,
        col ''last_used_at'' TIMESTAMPTZ True None,
        col ''expires_at'' TIMESTAMPTZ True None,
        col ''revoked_at'' TIMESTAMPTZ True None,
        col ''is_active'' BOOLEAN False None,
        col ''created_at'' TIMESTAMPTZ False (Some NOW),
        col ''updated_at'' TIMESTAMPTZ False (Some NOW)],
     tb_key = [''id''],
     tb_references = [references None ''user_id'' ''users'' ''CASCADE''],
     tb_indexes = [\<lparr>ix_name = ''ix_api_tokens_user_id'', ix_columns = [''user_id''], ix_unique = False\<rparr>,
        \<lparr>ix_name = ''ix_api_tokens_token_hash'', ix_columns = [''token_hash''], ix_unique = True\<rparr>]\<rparr>)"

definition AuditLog_table :: "string \<times> table" where
  "AuditLog_table = (''audit_logs'',
    \<lparr>tb_columns =
       [col ''id'' INTEGER False None,
        col ''actor_id'' INTEGER True None,
        col ''actor_username'' (VARCHAR 100) True None,
        col ''action'' (VARCHAR 100) False None,
        col ''resource_type'' (VARCHAR 50) False None,
        col ''resource_id'' (VARCHAR 100) True None,
        col ''details'' JSON_TYPE True None,
        col ''ip_address'' (VARCHAR 64) True None,
        col ''created_at'' TIMESTAMPTZ False (Some NOW)],
     tb_key = [''id''],
     tb_references = [],
     tb_indexes = [\<lparr>ix_name = ''ix_audit_logs_actor_id'', ix_columns = [''actor_id''], ix_unique = False\<rparr>,
        \<lparr>ix_name = ''ix_audit_logs_created_at'', ix_columns = [''created_at''], ix_unique = False\<rparr>]\<rparr>)"

definition Worker_table :: "string \<times> table" where
  "Worker_table = (''workers'',
    \<lparr>tb_columns =
       [col ''id'' INTEGER False None,
        col ''worker_id'' (VARCHAR 100) False None,
        col ''hostname'' (VARCHAR 255) False None,
        col ''pid'' INTEGER False None,
        col ''status'' (VARCHAR 20) False None,
        col ''started_at'' TIMESTAMPTZ False None,
        col ''last_heartbeat_at'' TIMESTAMPTZ False None,
        col ''completed_tasks'' INTEGER False None,
        col ''failed_tasks'' INTEGER False None,
        col ''created_at'' TIMESTAMPTZ False (Some NOW),
        col ''updated_at'' TIMESTAMPTZ False (Some NOW)],
     tb_key = [''id''],
     tb_references = [],
     tb_indexes = [\<lparr>ix_name = ''ix_workers_worker_id'', ix_columns = [''worker_id''], ix_unique = True\<rparr>,
        \<lparr>ix_name = ''ix_workers_status'', ix_columns = [''status''], ix_unique = False\<rparr>]\<rparr>)"

definition models :: schema where
  "models =
    [Task_table,
     TaskAttempt_table,
     TaskEvent_table,
     OutboxEvent_table,
     TaskDependency_table,
     TaskBatch_table,
     WebhookSubscription_table,
     WebhookDelivery_table,
     User_table,
     RefreshToken_table,
     ApiToken_table,
     AuditLog_table,
     Worker_table]"

section \<open>Undoing an operation\<close>

definition schema_ok :: "schema \<Rightarrow> bool" where
  "schema_ok s \<longleftrightarrow>
     distinct (map fst s) \<and> distinct (index_names s) \<and> list_all (\<lambda>(_, t). table_ok s t) s"

fun undo :: "operation \<Rightarrow> operation option" where
  "undo (CreateTable n _ _ _) = Some (DropTable n)"
| "undo (AddColumn n cl) = Some (DropColumn n (cl_name cl))"
| "undo (CreateForeignKey n fk) = map_option (\<lambda>name. DropConstraint name n) (fk_name fk)"
| "undo (CreateIndex n ix) = Some (DropIndex (ix_name ix) n)"
| "undo _ = None"

lemma map_of_change_table:
  "map_of (change_table n f s) m = (if m = n then map_option f (map_of s m) else map_of s m)"
  by (induction s) (auto simp: change_table_def)

lemma names_change_table [simp]: "map fst (change_table n f s) = map fst s"
  by (auto simp: change_table_def)

lemma change_table_inverse:
  assumes "distinct (map fst s)" "map_of s n = Some t" "f (g t) = t"
  shows "change_table n f (change_table n g s) = s"
proof -
  have "t' = t" if "(n, t') \<in> set s" for t'
    using assms(1,2) that by (metis map_of_is_SomeI option.inject)
  then show ?thesis using assms(3) by (auto simp: change_table_def intro!: map_idI)
qed

lemma schema_ok_member: "schema_ok s \<Longrightarrow> (m, t) \<in> set s \<Longrightarrow> table_ok s t"
  by (auto simp: schema_ok_def list_all_iff)

lemma table_ok_mono:
  "table_ok s t \<Longrightarrow> (\<And>fk. reference_ok s fk \<Longrightarrow> reference_ok s' fk) \<Longrightarrow> table_ok s' t"
  unfolding table_ok_def by (fastforce simp: list_all_iff)

lemma schema_ok_lookup:
  assumes "schema_ok s" "map_of s n = Some t"
  shows "table_ok s t"
  using assms schema_ok_member map_of_SomeD by fast

lemma index_names_iff:
  "i \<in> set (index_names s) \<longleftrightarrow> (\<exists>n t. (n, t) \<in> set s \<and> i \<in> ix_name ` set (tb_indexes t))"
  by (fastforce simp: index_names_def)

lemma reference_ok_append:
  "reference_ok s fk \<Longrightarrow> reference_ok (s @ s') fk"
  by (auto simp: reference_ok_def map_add_def split: option.splits)

lemma reference_ok_change:
  assumes "reference_ok s fk" "\<And>t. tb_key (f t) = tb_key t"
  shows "reference_ok (change_table n f s) fk"
  using assms by (auto simp: reference_ok_def map_of_change_table split: option.splits)

lemma undo_create_table:
  assumes "schema_ok s" "apply_op (CreateTable n cs key fks) s = Some s'"
  shows "apply_op (DropTable n) s' = Some s" "schema_ok s'"
proof -
  let ?t = "new_table cs key fks"
  have s': "s' = s @ [(n, ?t)]" and new: "n \<notin> set (map fst s)" and t: "table_ok s' ?t"
    using assms(2) by (auto simp: Let_def split: if_splits)
  have "fk_table fk \<noteq> n" if "(m, u) \<in> set s" "fk \<in> set (tb_references u)" for m u fk
  proof -
    have "reference_ok s fk" using assms(1) that by (auto simp: schema_ok_def table_ok_def list_all_iff)
    then show ?thesis using new by (auto simp: reference_ok_def map_of_eq_None_iff split: option.splits dest!: map_of_SomeD intro: rev_image_eqI)
  qed
  then have "\<not> referred_by n s'" by (auto simp: s' referred_by_def list_ex_iff)
  moreover have "filter (\<lambda>(m, _). m \<noteq> n) s = s" using new by (intro filter_True) (auto simp: rev_image_eqI)
  ultimately show "apply_op (DropTable n) s' = Some s" by (simp add: s')
  have "table_ok s' u" if "(m, u) \<in> set s" for m u
    using table_ok_mono [OF schema_ok_member [OF assms(1) that]] reference_ok_append by (auto simp: s')
  then show "schema_ok s'"
    using assms(1) new t by (auto simp: schema_ok_def s' list_all_iff index_names_def new_table_def)
qed

lemma schema_ok_change:
  assumes "schema_ok s" "map_of s n = Some t" "tb_key (f t) = tb_key t" "table_ok (change_table n f s) (f t)"
    and "distinct (index_names (change_table n f s))"
  shows "schema_ok (change_table n f s)"
proof -
  have unique: "t' = t" if "(n, t') \<in> set s" for t'
    using assms(1,2) that by (metis schema_ok_def map_of_is_SomeI option.inject)
  have refs: "reference_ok (change_table n f s) fk" if "reference_ok s fk" for fk
    using that assms(2,3) by (auto simp: reference_ok_def map_of_change_table split: option.splits)
  have "table_ok (change_table n f s) u" if "(m, u) \<in> set s" "m \<noteq> n" for m u
    using table_ok_mono [OF schema_ok_member [OF assms(1) that(1)]] refs by blast
  moreover have "table_ok (change_table n f s) (f u)" if "(n, u) \<in> set s" for u
    using unique [OF that] assms(4) by simp
  ultimately have "table_ok (change_table n f s) u" if "(m, u) \<in> set (change_table n f s)" for m u
    using that unfolding change_table_def [of n f s] by (auto split: if_splits)
  then show ?thesis
    using assms(1,5) by (auto simp: schema_ok_def list_all_iff)
qed

lemma index_names_change:
  assumes "\<And>t. map ix_name (tb_indexes (f t)) = map ix_name (tb_indexes t)"
  shows "index_names (change_table n f s) = index_names s"
  unfolding index_names_def change_table_def using assms by (induction s) auto

lemma without_column_fresh:
  assumes "table_ok s t" "cl_name cl \<notin> set (column_names t)"
  shows "without_column (cl_name cl) (t\<lparr>tb_columns := tb_columns t @ [cl]\<rparr>) = t"
proof -
  have "cl_name x \<noteq> cl_name cl" if "x \<in> set (tb_columns t)" for x using assms(2) that by (auto simp: rev_image_eqI)
  moreover have "cl_name cl \<notin> set (fk_columns fk)" if "fk \<in> set (tb_references t)" for fk
    using assms that by (auto simp: table_ok_def list_all_iff simp del: set_map)
  moreover have "cl_name cl \<notin> set (ix_columns ix)" if "ix \<in> set (tb_indexes t)" for ix
    using assms that by (auto simp: table_ok_def list_all_iff simp del: set_map)
  moreover have "cl_name cl \<notin> set (tb_key t)" using assms by (auto simp: table_ok_def simp del: set_map)
  ultimately show ?thesis by (simp add: without_column_def filter_True)
qed

lemma undo_add_column:
  assumes "schema_ok s" "apply_op (AddColumn n cl) s = Some s'"
  shows "apply_op (DropColumn n (cl_name cl)) s' = Some s" "schema_ok s'"
proof -
  let ?f = "\<lambda>t. t\<lparr>tb_columns := tb_columns t @ [cl]\<rparr>"
  obtain t where t: "map_of s n = Some t" "cl_name cl \<notin> set (column_names t)" and s': "s' = change_table n ?f s"
    using assms(2) by (auto split: option.splits if_splits)
  note ok = schema_ok_lookup [OF assms(1) t(1)]
  have "cl_name cl \<notin> set (fk_targets fk)" if "(m, u) \<in> set s" "fk \<in> set (tb_references u)" "fk_table fk = n" for m u fk
  proof -
    have "reference_ok s fk" using schema_ok_member [OF assms(1) that(1)] that(2) by (auto simp: table_ok_def list_all_iff)
    then show ?thesis using that(3) t ok by (auto simp: reference_ok_def table_ok_def)
  qed
  then have "\<not> column_referred n (cl_name cl) s'"
    by (auto simp: s' column_referred_def list_ex_iff change_table_def split: if_splits)
  moreover have "change_table n (without_column (cl_name cl)) s' = s"
    unfolding s' using assms(1) by (intro change_table_inverse [OF _ t(1)] without_column_fresh [OF ok t(2)]) (simp add: schema_ok_def)
  ultimately show "apply_op (DropColumn n (cl_name cl)) s' = Some s"
    using t(1) by (simp add: s' map_of_change_table)
  have "table_ok (change_table n ?f s) (?f t)"
    using table_ok_mono [OF ok, of "change_table n ?f s"] reference_ok_change [where f = ?f] t(2)
    by (auto simp: table_ok_def list_all_iff)
  moreover have "distinct (index_names (change_table n ?f s))"
    using assms(1) by (subst index_names_change) (auto simp: schema_ok_def)
  ultimately show "schema_ok s'"
    unfolding s' by (intro schema_ok_change [OF assms(1) t(1)]) auto
qed

lemma undo_create_foreign_key:
  assumes "schema_ok s" "apply_op (CreateForeignKey n fk) s = Some s'" "fk_name fk = Some name"
  shows "apply_op (DropConstraint name n) s' = Some s" "schema_ok s'"
proof -
  let ?f = "\<lambda>t. t\<lparr>tb_references := tb_references t @ [fk]\<rparr>"
  obtain t where t: "map_of s n = Some t" "fk_name fk \<notin> set (map fk_name (tb_references t))"
      "set (fk_columns fk) \<subseteq> set (column_names t)" "reference_ok s fk" and s': "s' = change_table n ?f s"
    using assms(2) by (auto split: option.splits if_splits)
  have "filter (\<lambda>fk. fk_name fk \<noteq> Some name) (tb_references t) = tb_references t"
    using t(2) assms(3) by (intro filter_True) force
  then have "change_table n (\<lambda>t. t\<lparr>tb_references := filter (\<lambda>fk. fk_name fk \<noteq> Some name) (tb_references t)\<rparr>) s' = s"
    unfolding s' using assms(1,3) by (intro change_table_inverse [OF _ t(1)]) (auto simp: schema_ok_def)
  then show "apply_op (DropConstraint name n) s' = Some s"
    using t(1) assms(3) by (auto simp: s' map_of_change_table)
  have "table_ok (change_table n ?f s) (?f t)"
    using table_ok_mono [OF schema_ok_lookup [OF assms(1) t(1)], of "change_table n ?f s"]
      reference_ok_change [where f = ?f] t(3,4)
    by (auto simp: table_ok_def list_all_iff)
  moreover have "distinct (index_names (change_table n ?f s))"
    using assms(1) by (subst index_names_change) (auto simp: schema_ok_def)
  ultimately show "schema_ok s'"
    unfolding s' by (intro schema_ok_change [OF assms(1) t(1)]) auto
qed

lemma index_names_Cons: "index_names ((m, t) # s) = map ix_name (tb_indexes t) @ index_names s"
  by (simp add: index_names_def)

lemma change_table_Cons:
  "change_table n f ((m, t) # s) = (if m = n then (m, f t) else (m, t)) # change_table n f s"
  by (simp add: change_table_def)

lemma change_table_absent: "n \<notin> set (map fst s) \<Longrightarrow> change_table n f s = s"
  unfolding change_table_def by (intro map_idI) (auto simp: rev_image_eqI)

lemma distinct_insert_append:
  assumes "distinct X" "set X \<subseteq> insert i (set Y)" "distinct (L @ Y)" "i \<notin> set (L @ Y)"
  shows "distinct (L @ X) \<and> set (L @ X) \<subseteq> insert i (set (L @ Y))"
  using assms by auto

lemma index_names_add:
  assumes "distinct (index_names s)" "ix_name ix \<notin> set (index_names s)" "distinct (map fst s)"
  shows "distinct (index_names (change_table n (\<lambda>t. t\<lparr>tb_indexes := tb_indexes t @ [ix]\<rparr>) s)) \<and>
    set (index_names (change_table n (\<lambda>t. t\<lparr>tb_indexes := tb_indexes t @ [ix]\<rparr>) s)) \<subseteq>
      insert (ix_name ix) (set (index_names s))"
  using assms
proof (induction s)
  case (Cons e s)
  obtain m t where e: "e = (m, t)" by (cases e)
  show ?case
  proof (cases "m = n")
    case True
    then show ?thesis
      using Cons.prems change_table_absent [of n s] by (auto simp: e index_names_Cons change_table_Cons)
  next
    case False
    then show ?thesis
      using distinct_insert_append [of "index_names (change_table n (\<lambda>t. t\<lparr>tb_indexes := tb_indexes t @ [ix]\<rparr>) s)"
          "ix_name ix" "index_names s" "map ix_name (tb_indexes t)"] Cons.IH Cons.prems
      by (simp add: e index_names_Cons change_table_Cons)
  qed
qed (simp add: index_names_def change_table_def)

lemma undo_create_index:
  assumes "schema_ok s" "apply_op (CreateIndex n ix) s = Some s'"
  shows "apply_op (DropIndex (ix_name ix) n) s' = Some s" "schema_ok s'"
proof -
  let ?f = "\<lambda>t. t\<lparr>tb_indexes := tb_indexes t @ [ix]\<rparr>"
  obtain t where t: "map_of s n = Some t" "ix_name ix \<notin> set (index_names s)"
      "set (ix_columns ix) \<subseteq> set (column_names t)" and s': "s' = change_table n ?f s"
    using assms(2) by (auto split: option.splits if_splits)
  have "ix_name ix \<notin> ix_name ` set (tb_indexes t)"
    using t(2) map_of_SomeD [OF t(1)] unfolding index_names_iff by blast
  then have "filter (\<lambda>i. ix_name i \<noteq> ix_name ix) (tb_indexes t) = tb_indexes t"
    by (intro filter_True) (auto simp: rev_image_eqI)
  then have "change_table n (\<lambda>t. t\<lparr>tb_indexes := filter (\<lambda>i. ix_name i \<noteq> ix_name ix) (tb_indexes t)\<rparr>) s' = s"
    unfolding s' using assms(1) by (intro change_table_inverse [OF _ t(1)]) (auto simp: schema_ok_def)
  then show "apply_op (DropIndex (ix_name ix) n) s' = Some s"
    using t(1) by (auto simp: s' map_of_change_table)
  have "table_ok (change_table n ?f s) (?f t)"
    using table_ok_mono [OF schema_ok_lookup [OF assms(1) t(1)], of "change_table n ?f s"]
      reference_ok_change [where f = ?f] t(3)
    by (auto simp: table_ok_def list_all_iff)
  moreover have "distinct (index_names (change_table n ?f s))"
    using assms(1) t(2) index_names_add by (auto simp: schema_ok_def)
  ultimately show "schema_ok s'"
    unfolding s' by (intro schema_ok_change [OF assms(1) t(1)]) auto
qed

lemma undo_op:
  assumes "schema_ok s" "apply_op op s = Some s'" "undo op = Some d"
  shows "apply_op d s' = Some s \<and> schema_ok s'"
proof (cases op)
  case (CreateTable n cs key fks)
  then show ?thesis using assms undo_create_table [OF assms(1)] by (auto simp del: apply_op.simps)
next
  case (AddColumn n cl)
  then show ?thesis using assms undo_add_column [OF assms(1)] by (auto simp del: apply_op.simps)
next
  case (CreateForeignKey n fk)
  then show ?thesis using assms undo_create_foreign_key [OF assms(1)] by (auto simp del: apply_op.simps)
next
  case (CreateIndex n ix)
  then show ?thesis using assms undo_create_index [OF assms(1)] by (auto simp del: apply_op.simps)
qed (use assms(3) in auto)

section \<open>Undoing a revision\<close>

lemma run_ops_append:
  "run_ops (os @ os') s = (case run_ops os s of None \<Rightarrow> None | Some s' \<Rightarrow> run_ops os' s')"
  by (induction os arbitrary: s) (auto split: option.splits)

lemma undo_ops:
  assumes "schema_ok s" "run_ops os s = Some s'" "map undo os = map Some ds"
  shows "run_ops (rev ds) s' = Some s \<and> schema_ok s'"
  using assms
proof (induction os arbitrary: s ds)
  case (Cons o1 os)
  obtain s1 where s1: "apply_op o1 s = Some s1" "run_ops os s1 = Some s'"
    using Cons.prems(2) by (auto split: option.splits)
  obtain d ds' where d: "ds = d # ds'" "undo o1 = Some d" "map undo os = map Some ds'"
    using Cons.prems(3) by (cases ds) auto
  have "apply_op d s1 = Some s" "schema_ok s1" using undo_op [OF Cons.prems(1) s1(1) d(2)] by auto
  then show ?case using Cons.IH [OF _ s1(2) d(3)] d(1) by (simp add: run_ops_append)
qed simp

lemmas revision_defs =
  initial_revision_def workers_revision_def tasks_lease_revision_def users_revision_def
  refresh_tokens_revision_def dlq_retry_revision_def v15_features_revision_def
  initial_upgrade_def initial_downgrade_def workers_upgrade_def workers_downgrade_def
  tasks_lease_upgrade_def tasks_lease_downgrade_def users_upgrade_def users_downgrade_def
  refresh_tokens_upgrade_def refresh_tokens_downgrade_def dlq_retry_upgrade_def dlq_retry_downgrade_def
  v15_features_upgrade_def v15_features_downgrade_def

lemma downgrade_undoes:
  "r \<in> set revisions \<Longrightarrow> map undo (rv_upgrade r) = map Some (rev (rv_downgrade r))"
  by (auto simp: revisions_def revision_defs references_def col_def)

lemma revision_reversible:
  assumes "r \<in> set revisions" "schema_ok s" "run_ops (rv_upgrade r) s = Some s'"
  shows "schema_ok s' \<and> run_ops (rv_downgrade r) s' = Some s"
  using undo_ops [OF assms(2,3) downgrade_undoes [OF assms(1)]] by simp

lemma schema_ok_empty: "schema_ok []"
  by (simp add: schema_ok_def index_names_def)

lemma revisions_reversible:
  assumes "schema_ok s" "set rs \<subseteq> set revisions" "run_ops (concat (map rv_upgrade rs)) s = Some s'"
  shows "schema_ok s' \<and> run_ops (concat (map rv_downgrade (rev rs))) s' = Some s"
  using assms
proof (induction rs arbitrary: s)
  case (Cons r rs)
  obtain s1 where s1: "run_ops (rv_upgrade r) s = Some s1" "run_ops (concat (map rv_upgrade rs)) s1 = Some s'"
    using Cons.prems(3) by (auto simp: run_ops_append split: option.splits)
  have r: "r \<in> set revisions" "set rs \<subseteq> set revisions" using Cons.prems(2) by auto
  note undone = revision_reversible [OF r(1) Cons.prems(1) s1(1)]
  from Cons.IH [OF _ r(2) s1(2)] undone show ?case by (simp add: run_ops_append)
qed simp

section \<open>Comparing schemas\<close>

datatype difference =
  MissingTable string
| ExtraTable string
| ColumnsDiffer string
| KeyDiffers string
| ReferencesDiffer string
| MissingIndex string index
| ExtraIndex string index

definition declares :: "column \<Rightarrow> column \<Rightarrow> bool" where
  \<comment> \<open>the column \<open>c\<close> is as \<open>d\<close> is declared; a default the declaration does not mention is not compared\<close>
  "declares d c \<longleftrightarrow>
     cl_name c = cl_name d \<and> cl_type c = cl_type d \<and> cl_nullable c = cl_nullable d \<and>
     (cl_default d = None \<or> cl_default c = cl_default d)"

definition same_columns :: "table \<Rightarrow> table \<Rightarrow> bool" where
  "same_columns d t \<longleftrightarrow>
     length (tb_columns d) = length (tb_columns t) \<and>
     list_all (\<lambda>c. list_ex (\<lambda>c'. declares c c') (tb_columns t)) (tb_columns d)"

definition same_references :: "table \<Rightarrow> table \<Rightarrow> bool" where
  \<comment> \<open>constraint names are the database's own where the declaration gives none\<close>
  "same_references d t \<longleftrightarrow>
     set (map (\<lambda>fk. fk\<lparr>fk_name := None\<rparr>) (tb_references d)) = set (map (\<lambda>fk. fk\<lparr>fk_name := None\<rparr>) (tb_references t))"

definition table_differences :: "string \<Rightarrow> table \<Rightarrow> table \<Rightarrow> difference list" where
  "table_differences n d t =
     (if same_columns d t then [] else [ColumnsDiffer n]) @
     (if tb_key d = tb_key t then [] else [KeyDiffers n]) @
     (if same_references d t then [] else [ReferencesDiffer n]) @
     map (MissingIndex n) (filter (\<lambda>i. i \<notin> set (tb_indexes t)) (tb_indexes d)) @
     map (ExtraIndex n) (filter (\<lambda>i. i \<notin> set (tb_indexes d)) (tb_indexes t))"

definition differences :: "schema \<Rightarrow> schema \<Rightarrow> difference list" where
  "differences declared s =
     map ExtraTable (filter (\<lambda>n. n \<notin> set (map fst declared)) (map fst s)) @
     concat (map (\<lambda>(n, d). case map_of s n of
         None \<Rightarrow> [MissingTable n]
       | Some t \<Rightarrow> table_differences n d t) declared)"

text \<open>An upgrade that keeps the rows of the tables that exist already: nothing is dropped, what is
  added to such a table may be empty or has a default, and no constraint is put on old values.\<close>

fun keeps_rows :: "string list \<Rightarrow> (string \<times> string) list \<Rightarrow> operation list \<Rightarrow> bool" where
  "keeps_rows new added [] = True"
| "keeps_rows new added (CreateTable n cs key fks # os) = keeps_rows (n # new) added os"
| "keeps_rows new added (AddColumn n cl # os) =
     ((n \<in> set new \<or> cl_nullable cl \<or> cl_default cl \<noteq> None) \<and> keeps_rows new ((n, cl_name cl) # added) os)"
| "keeps_rows new added (CreateForeignKey n fk # os) =
     ((n \<in> set new \<or> set (map (Pair n) (fk_columns fk)) \<subseteq> set added) \<and> keeps_rows new added os)"
| "keeps_rows new added (CreateIndex n ix # os) = ((n \<in> set new \<or> \<not> ix_unique ix) \<and> keeps_rows new added os)"
| "keeps_rows new added (_ # os) = False"

fun linked :: "string option \<Rightarrow> revision list \<Rightarrow> bool" where
  "linked prev [] = True"
| "linked prev (r # rs) = (rv_down r = prev \<and> linked (Some (rv_id r)) rs)"

lemma upgrade_differences:
  "map_option (differences models) (run_ops (concat (map rv_upgrade revisions)) []) =
     Some [ExtraIndex ''tasks'' \<lparr>ix_name = ''ix_tasks_created_at'', ix_columns = [''created_at''], ix_unique = False\<rparr>,
       MissingIndex ''users'' \<lparr>ix_name = ''ix_users_role'', ix_columns = [''role''], ix_unique = False\<rparr>]"
  by code_simp

lemma revisions_linked: "linked None revisions"
  by (simp add: revisions_def revision_defs)

lemma revisions_keep_rows: "list_all (\<lambda>r. keeps_rows [] [] (rv_upgrade r)) revisions"
  by (simp add: revisions_def revision_defs references_def col_def)

section \<open>Properties\<close>

text \<open>C39: the migrations can be taken back: on any well-formed schema on which a sequence of
  revisions can be applied, their downgrades in reverse order give back exactly that schema.\<close>

theorem migrations_reversible:
  assumes "schema_ok s" "set rs \<subseteq> set revisions" "run_ops (concat (map rv_upgrade rs)) s = Some s'"
  shows "schema_ok s' \<and> run_ops (concat (map rv_downgrade (rev rs))) s' = Some s"
  by (rule revisions_reversible [OF assms])

theorem migrations_reversible_witness:
  "\<exists>s'. run_ops (concat (map rv_upgrade revisions)) [] = Some s' \<and>
    run_ops (concat (map rv_downgrade (rev revisions))) s' = Some []"
proof -
  obtain s' where "run_ops (concat (map rv_upgrade revisions)) [] = Some s'" using upgrade_differences by auto
  then show ?thesis using migrations_reversible [OF schema_ok_empty subset_refl] by blast
qed

end
