(* ===== verification/Migration_Env.thy ===== *)
theory Migration_Env
  imports Migrations Deployment
begin

text \<open>
  The environment of the migrations (\<open>src/backend/alembic/env.py\<close>): the URL of the database goes through
  the configuration of Alembic, and the migrations run in one transaction over a connection of
  their own, or are written out as a script. What Alembic and SQLAlchemy are asked to do is a list of
  calls. The options of the configuration and the migrations that are due are parameters.
\<close>

section \<open>The configuration\<close>





section \<open>The calls\<close>










section \<open>What the environment does\<close>






section \<open>Properties\<close>





end
