(* ===== verification/Runs.thy ===== *)
theory Runs
  imports Api Processes
begin

text \<open>
  The processes of the platform together: what a client, a worker, the coordinator, the relay, the
  dispatcher and the passing of time do, as one list of activities that share the database, and the
  proof that the transition system of \<open>System\<close> has a run for every such list. So what holds in every
  reachable state holds whatever the entry points of the program are asked to do.
\<close>

section \<open>Activities\<close>

text \<open>
  What the processes use that is not in the repository: the matching of \<open>ILIKE\<close>, the HTTP client of
  the webhooks, PyJWT and bcrypt, and \<open>str\<close>, \<open>repr\<close> and \<open>int\<close> of Python; also the handlers that are
  registered.
\<close>

record environment =
  like_matches :: "string \<Rightarrow> string \<Rightarrow> bool"
  http_client :: sender
  auth_library :: auth_api
  python_builtins :: python
  int_builtin :: "string \<Rightarrow> int option"
  registered_handlers :: handlers

text \<open>
  A message is handled in two transactions, and everything else may happen between them: the list
  that comes with it.
\<close>

datatype activity =
    Start string \<comment> \<open>of the API process, with the salt of the first administrator's password\<close>
  | Authenticated "string option" request
  | Register bool string string string host
  | Login rat rat string string string string host failures
  | Refresh bool string string string
  | Logout bool string
  | Relay bool "outbox_event \<Rightarrow> string option" bool
  | Dispatch bool
  | Coordinate
  | Heartbeat bool string string int
  | Retain bool
  | Renew int string
  | Handle string "json option" "activity list"
  | Time time "nat \<Rightarrow> time"

definition relay_once :: "bool \<Rightarrow> (outbox_event \<Rightarrow> string option) \<Rightarrow> bool \<Rightarrow> db \<Rightarrow> db" where
  "relay_once online err commits s =
     snd (outbox_relay_turn \<lparr>before_turn = id, broker_online = online, publish_error = err, commit_succeeds = commits\<rparr> s)"

primrec perform :: "environment \<Rightarrow> settings \<Rightarrow> activity \<Rightarrow> db \<Rightarrow> db" where
  "perform env cfg (Start salt) = bootstrap_admin cfg (auth_library env) salt"
| "perform env cfg (Authenticated credentials req) =
     (\<lambda>s. snd (serve (like_matches env) (http_client env) cfg (auth_library env) credentials req s))"
| "perform env cfg (Register allowed salt username password ip) =
     (\<lambda>s. snd (register_route (auth_library env) allowed salt username password ip s))"
| "perform env cfg (Login now1 now2 jti1 jti2 username password ip fs) =
     (\<lambda>s. snd (snd (login_route cfg (auth_library env) now1 now2 jti1 jti2 username password ip fs s)))"
| "perform env cfg (Refresh allowed jti1 jti2 token) =
     (\<lambda>s. snd (refresh_route cfg (auth_library env) allowed jti1 jti2 token s))"
| "perform env cfg (Logout allowed token) = (\<lambda>s. snd (logout_route (auth_library env) allowed token s))"
| "perform env cfg (Relay online err commits) = relay_once online err commits"
| "perform env cfg (Dispatch up) = (\<lambda>s. snd (webhook_dispatcher_turn up cfg (http_client env) s))"
| "perform env cfg Coordinate = (\<lambda>s. snd (coordinator_tick cfg s))"
| "perform env cfg (Heartbeat up wid hostname pid) = (\<lambda>s. snd (run_heartbeat_turn up False False wid hostname pid s))"
| "perform env cfg (Retain up) = (\<lambda>s. snd (run_retention_turn up cfg s))"
| "perform env cfg (Renew tid wid) = (\<lambda>s. snd (renew_lease tid wid (task_lease_seconds cfg) s))"
| "perform env cfg (Handle wid body meanwhile) =
     (\<lambda>s. snd (handle_message (python_builtins env) (int_builtin env) (registered_handlers env)
        (fold id (map (perform env cfg) meanwhile)) cfg wid body s))"
| "perform env cfg (Time t c) = (\<lambda>s. s\<lparr>db_now := t, clock := c\<rparr>)"

definition perform_all :: "environment \<Rightarrow> settings \<Rightarrow> activity list \<Rightarrow> db \<Rightarrow> db" where
  "perform_all env cfg acts = fold (perform env cfg) acts"

text \<open>The request validation of the schemas that the account operations rely on.\<close>

primrec validated :: "activity \<Rightarrow> bool" where
  "validated (Start salt) = True"
| "validated (Authenticated credentials req) =
     (case req of SetRole ip uid role \<Rightarrow> valid_role_change role | _ \<Rightarrow> True)"
| "validated (Register allowed salt username password ip) = valid_register username password"
| "validated (Login now1 now2 jti1 jti2 username password ip fs) = True"
| "validated (Refresh allowed jti1 jti2 token) = True"
| "validated (Logout allowed token) = True"
| "validated (Relay online err commits) = True"
| "validated (Dispatch up) = True"
| "validated Coordinate = True"
| "validated (Heartbeat up wid hostname pid) = True"
| "validated (Retain up) = True"
| "validated (Renew tid wid) = True"
| "validated (Handle wid body meanwhile) = list_all id (map validated meanwhile)"
| "validated (Time t c) = True"

section \<open>Runs of the transition system\<close>

definition runs :: "settings \<Rightarrow> db \<Rightarrow> db \<Rightarrow> bool" where
  \<comment> \<open>steps from one database to the other that leave the executions in flight as they were\<close>
  "runs cfg s s' \<longleftrightarrow> (\<forall>running. (step cfg)\<^sup>*\<^sup>* (s, running) (s', running))"

lemma runs_refl [simp, intro]: "runs cfg s s"
  by (simp add: runs_def)

lemma runs_trans [trans]: "runs cfg s s1 \<Longrightarrow> runs cfg s1 s2 \<Longrightarrow> runs cfg s s2"
  unfolding runs_def using rtranclp_trans by fast

lemma runs_committed: "committed cfg s s' \<Longrightarrow> runs cfg s s'"
  unfolding runs_def by (auto intro: step.transaction)

lemma runs_fold: "(\<And>f s. f \<in> set fs \<Longrightarrow> runs cfg s (f s)) \<Longrightarrow> runs cfg s (fold id fs s)"
  by (induction fs arbitrary: s) (auto intro: runs_trans)

text \<open>The reading of the clock is a transaction that writes nothing: a logout with an unreadable token.\<close>

lemma runs_tick: "runs cfg s (s\<lparr>ticks := Suc (ticks s)\<rparr>)"
proof -
  have "snd (logout_route (undefined\<lparr>jwt_decode := \<lambda>_ _. None\<rparr>) True [] s) = s\<lparr>ticks := Suc (ticks s)\<rparr>"
    by (simp add: logout_route_def decode_token_def now_utc_def)
  then show ?thesis using runs_committed [OF committed.account [OF auth_committed.logout]] by metis
qed

lemma runs_ticks: "runs cfg s (s\<lparr>ticks := ticks s + n\<rparr>)"
proof (induction n)
  case (Suc n)
  have "runs cfg (s\<lparr>ticks := ticks s + n\<rparr>) (s\<lparr>ticks := ticks s + Suc n\<rparr>)"
    using runs_tick [of cfg "s\<lparr>ticks := ticks s + n\<rparr>"] by simp
  with Suc.IH show ?case by (rule runs_trans)
qed (simp add: runs_refl)

section \<open>The entry points are runs\<close>

lemma get_current_user_runs: "runs cfg s (snd (get_current_user cfg api credentials s))"
proof (cases credentials)
  case (Some token)
  have "runs cfg s (snd (authenticate_api_token api token s))"
    by (rule runs_committed, rule committed.account, rule auth_committed.api_token_used)
  moreover have "runs cfg s (snd (decode_token api token s))"
    using runs_tick by (simp add: decode_token_def now_utc_def)
  ultimately show ?thesis using Some
    by (auto simp: get_current_user_def dest: snd_eqD split: option.split prod.split sum.split)
qed (simp add: get_current_user_def)

lemma serve_runs:
  assumes "\<And>ip uid role. req = SetRole ip uid role \<Longrightarrow> valid_role_change role"
  shows "runs cfg s (snd (serve ilike send cfg api credentials req s))"
proof -
  obtain who s1 where who: "get_current_user cfg api credentials s = (who, s1)" by force
  have 1: "runs cfg s s1" using get_current_user_runs [of cfg s api credentials] who by simp
  moreover have "runs cfg s1 (snd (route ilike send cfg api u req s1))" for u
    using route_committed [where req = req and ilike = ilike and send = send and cfg = cfg and api = api and u = u and s = s1]
      assms runs_committed by fastforce
  ultimately show ?thesis using who runs_trans by (auto simp: serve_def split: response.split)
qed

lemma fold_publish_touches:
  "\<exists>ob k. snd (fold (publish_one send) evs (sent, s)) = s\<lparr>outbox := ob, ticks := ticks s + k\<rparr>"
proof (induction evs arbitrary: sent s)
  case Nil
  show ?case by (rule exI [of _ "outbox s"], rule exI [of _ 0]) simp
next
  case (Cons oe evs)
  obtain sent1 s1 where one: "publish_one send oe (sent, s) = (sent1, s1)" by force
  have "s1 = s\<lparr>outbox := outbox s1, ticks := ticks s + (if send oe = None then 1 else 0)\<rparr>"
    using one by (cases "send oe") (auto simp: publish_one_def now_utc_def)
  then obtain ob k where s1: "s1 = s\<lparr>outbox := ob, ticks := ticks s + k\<rparr>" by blast
  obtain ob' k' where "snd (fold (publish_one send) evs (sent1, s1)) = s1\<lparr>outbox := ob', ticks := ticks s1 + k'\<rparr>"
    using Cons.IH by blast
  then show ?case using one s1 by (auto intro!: exI [of _ ob'] exI [of _ "k + k'"])
qed

lemma relay_runs: "runs cfg s (relay_once online err commits s)"
proof (cases "publish_pending_events online err 200 s")
  case (Some r)
  obtain n sent s' where r: "r = (n, sent, s')" by (cases r)
  then have pub: "publish_pending_events online err 200 s = Some (n, sent, s')" using Some by simp
  then have "\<exists>ob k. s' = s\<lparr>outbox := ob, ticks := ticks s + k\<rparr>"
    using fold_publish_touches [of err "pending_events 200 s" "[]" s]
    by (auto simp: publish_pending_events_def Let_def split: if_splits dest: snd_eqD intro: exI [of _ 0] exI [of _ "outbox s"])
  then obtain k where "rollback_to s s' = s\<lparr>ticks := ticks s + k\<rparr>" by (auto simp: rollback_to_def)
  then have "runs cfg s (rollback_to s s')" using runs_ticks by simp
  moreover have "runs cfg s s'" by (rule runs_committed [OF committed.relay [OF pub]])
  ultimately show ?thesis using pub by (simp add: relay_once_def outbox_relay_turn_def)
qed (simp add: relay_once_def outbox_relay_turn_def)

lemma run_passes_runs:
  assumes "\<And>pass s. pass \<in> set passes \<Longrightarrow> committed cfg s (commit s (pass s))"
  shows "runs cfg s (snd (run_passes passes s))"
  using assms
proof (induction passes arbitrary: s)
  case (Cons pass passes)
  have 1: "runs cfg s (commit s (pass s))" by (rule runs_committed) (simp add: Cons.prems)
  show ?case
  proof (cases "pass s")
    case (Ok n s1)
    have "runs cfg s1 (snd (run_passes passes s1))" by (rule Cons.IH) (simp add: Cons.prems)
    then show ?thesis using 1 Ok runs_trans by (auto simp: case_prod_beta)
  next
    case (Raise e s1)
    then show ?thesis using 1 by simp
  qed
qed simp

lemma coordinator_runs: "runs cfg s (snd (coordinator_tick cfg s))"
  unfolding coordinator_tick_def
  by (rule run_passes_runs)
    (auto intro: committed.requeue_due committed.recover committed.orphans committed.requeue_dlq)

text \<open>
  The handling of a message: the claim puts an execution in flight, the other activities find it
  there, and the finish takes it out again.
\<close>

lemma handle_message_runs:
  assumes "\<And>s. runs cfg s (others s)"
  shows "runs cfg s (snd (handle_message py parse_int handlers others cfg wid body s))"
proof -
  have "runs cfg s (snd (handle_message py parse_int handlers others cfg wid body s))"
    if b: "decode_payload body = Some b" and tid: "message_task_id parse_int b = Some tid" for b tid
  proof (cases "\<exists>obj aid s1. claim cfg wid tid s = Ok (Claimed obj aid) s1")
    case False
    then have "runs cfg s (rollback_to s (final_state (claim cfg wid tid s)))"
      unfolding runs_def by (auto intro!: r_into_rtranclp step.not_claimed [OF refl])
    then show ?thesis
      using b tid False by (auto simp: handle_message_def split: outcome.split claim_result.split)
  next
    case True
    then obtain obj aid s1 where claimed: "claim cfg wid tid s = Ok (Claimed obj aid) s1" by blast
    let ?r = "dispatch py handlers cfg (t_task_type obj) (t_payload obj)" and ?s = "others s1"
    have "(step cfg)\<^sup>*\<^sup>* (s, running) (commit ?s (finish cfg obj aid ?r ?s), running)" for running
    proof -
      have "step cfg (s, running) (s1, (obj, aid) # running)" by (rule step.claimed [OF claimed])
      moreover have "(step cfg)\<^sup>*\<^sup>* (s1, (obj, aid) # running) (?s, (obj, aid) # running)"
        using assms by (simp add: runs_def)
      moreover have "step cfg (?s, (obj, aid) # running)
          (commit ?s (finish cfg obj aid ?r ?s), remove1 (obj, aid) ((obj, aid) # running))"
        by (rule step.finished) simp
      ultimately show ?thesis by simp
    qed
    moreover have "snd (handle_message py parse_int handlers others cfg wid body s) = commit ?s (finish cfg obj aid ?r ?s)"
      using b tid claimed by (simp add: handle_message_def Let_def split: outcome.split)
    ultimately show ?thesis by (simp add: runs_def)
  qed
  then show ?thesis
    by (cases "decode_payload body"; cases "Option.bind (decode_payload body) (message_task_id parse_int)")
      (auto simp: handle_message_def split: option.split)
qed

lemma perform_runs: "validated a \<Longrightarrow> runs cfg s (perform env cfg a s)"
proof (induction a arbitrary: s)
  case (Authenticated credentials req)
  then show ?case by (simp, intro serve_runs) simp
next
  case (Handle wid body meanwhile)
  have "runs cfg s (fold id (map (perform env cfg) meanwhile) s)" for s
  proof (rule runs_fold)
    fix f s assume "f \<in> set (map (perform env cfg) meanwhile)"
    then show "runs cfg s (f s)" using Handle by (auto simp: list_all_iff)
  qed
  then show ?case by (simp add: handle_message_runs)
next
  case (Heartbeat up wid hostname pid)
  have "snd (run_heartbeat_turn up False False wid hostname pid s) = (if up then snd (heartbeat_tick wid hostname pid s) else s)"
    by (simp add: run_heartbeat_turn_def case_prod_beta)
  then show ?case using runs_committed [OF committed.heartbeat] by simp
next
  case (Dispatch up)
  show ?case using runs_committed [OF committed.dispatch] by (simp add: webhook_dispatcher_turn_def)
next
  case (Retain up)
  show ?case using runs_committed [OF committed.purge] by (simp add: run_retention_turn_def)
next
  case (Time t c)
  show ?case using runs_committed [OF committed.time_passes] by simp
qed (simp_all add: relay_runs coordinator_runs runs_committed [OF committed.renew]
    runs_committed [OF committed.account [OF auth_committed.bootstrap]] runs_committed [OF committed.account [OF auth_committed.register]]
    runs_committed [OF committed.account [OF auth_committed.login]] runs_committed [OF committed.account [OF auth_committed.refresh]]
    runs_committed [OF committed.account [OF auth_committed.logout]])

lemma perform_all_runs:
  "\<forall>a\<in>set acts. validated a \<Longrightarrow> runs cfg s (perform_all env cfg acts s)"
  unfolding perform_all_def
proof (induction acts arbitrary: s)
  case (Cons a acts)
  have "runs cfg s (perform env cfg a s)" by (rule perform_runs) (simp add: Cons.prems)
  also have "runs cfg (perform env cfg a s) (fold (perform env cfg) acts (perform env cfg a s))"
    using Cons by simp
  finally show ?case by simp
qed simp

lemma steps_reachable: "(step cfg)\<^sup>*\<^sup>* p p' \<Longrightarrow> reachable cfg p \<Longrightarrow> reachable cfg p'"
  by (induction rule: rtranclp_induct) (auto intro: reachable.further)

lemma runs_reachable: "reachable cfg (s, running) \<Longrightarrow> runs cfg s s' \<Longrightarrow> reachable cfg (s', running)"
  unfolding runs_def using steps_reachable by blast

end
