(* ===== verification/Routing.thy ===== *)
theory Routing
  imports Api
begin

text \<open>
  The table of routes: the routers of \<open>app/api/routes\<close> with their prefixes and dependencies, as
  \<open>app/api/router.py\<close> and \<open>app/main.py\<close> put them together, in the order of registration. The
  search of the framework is a parameter. A router and an inclusion put their prefix before the
  templates, and the dependencies of a router come before those of its routes. The routes of the
  framework's own documentation pages are not in the table.
\<close>

section \<open>Routes\<close>

datatype verb = GET | POST | PATCH | DELETE | WEBSOCKET

datatype segment = Lit string | Param string

type_synonym template = "segment list"

datatype guard = Public | AnyUser | Needs "string list"

record endpoint =
  r_verb :: verb
  r_template :: template
  r_handler :: string
  r_guard :: guard

definition endpoint :: "verb \<Rightarrow> template \<Rightarrow> string \<Rightarrow> guard \<Rightarrow> endpoint" where
  "endpoint v t h g = \<lparr>r_verb = v, r_template = t, r_handler = h, r_guard = g\<rparr>"

text \<open>A route has the dependencies of its router besides its own; a role includes being a user.\<close>

fun both_guards :: "guard \<Rightarrow> guard \<Rightarrow> guard" where
  "both_guards Public g = g"
| "both_guards g Public = g"
| "both_guards AnyUser g = g"
| "both_guards g AnyUser = g"
| "both_guards (Needs a) (Needs b) = Needs (filter (\<lambda>r. r \<in> set b) a)"

definition router :: "template \<Rightarrow> guard \<Rightarrow> endpoint list \<Rightarrow> endpoint list" where
  "router base deps es =
     map (\<lambda>e. e\<lparr>r_template := base @ r_template e, r_guard := both_guards deps (r_guard e)\<rparr>) es"

definition include_router :: "string list \<Rightarrow> endpoint list \<Rightarrow> endpoint list" where
  "include_router base es = map (\<lambda>e. e\<lparr>r_template := map Lit base @ r_template e\<rparr>) es"

section \<open>The routers\<close>

definition auth_router :: "endpoint list" where
  "auth_router = router [Lit ''auth''] Public
     [endpoint POST [Lit ''register''] ''register'' Public,
      endpoint POST [Lit ''login''] ''login'' Public,
      endpoint POST [Lit ''refresh''] ''refresh'' Public,
      endpoint POST [Lit ''logout''] ''logout'' Public,
      endpoint GET [Lit ''me''] ''me'' AnyUser,
      endpoint POST [Lit ''change-password''] ''change_password'' AnyUser,
      endpoint POST [Lit ''users'', Param ''user_id'', Lit ''active''] ''set_active'' (Needs ADMIN),
      endpoint POST [Lit ''users'', Param ''user_id'', Lit ''role''] ''set_role'' (Needs ADMIN),
      endpoint POST [Lit ''tokens''] ''create_api_token'' AnyUser,
      endpoint GET [Lit ''tokens''] ''list_api_tokens'' AnyUser,
      endpoint DELETE [Lit ''tokens'', Param ''token_id''] ''revoke_api_token'' AnyUser]"

definition health_router :: "endpoint list" where
  "health_router = router [] Public [endpoint GET [Lit ''health''] ''health'' Public]"

definition metrics_router :: "endpoint list" where
  "metrics_router = router [] Public [endpoint GET [Lit ''metrics''] ''metrics_endpoint'' Public]"

definition tasks_router :: "endpoint list" where
  "tasks_router = router [Lit ''tasks''] AnyUser
     [endpoint POST [] ''create_task'' (Needs OPERATOR),
      endpoint GET [] ''list_tasks'' Public,
      endpoint POST [Lit ''bulk''] ''bulk_create_tasks'' (Needs OPERATOR),
      endpoint POST [Lit ''bulk'', Lit ''retry''] ''bulk_retry_tasks'' (Needs OPERATOR),
      endpoint POST [Lit ''bulk'', Lit ''cancel''] ''bulk_cancel_tasks'' (Needs OPERATOR),
      endpoint GET [Param ''task_id''] ''get_task'' Public,
      endpoint POST [Param ''task_id'', Lit ''retry''] ''retry_task'' (Needs OPERATOR),
      endpoint POST [Param ''task_id'', Lit ''cancel''] ''cancel_task'' (Needs OPERATOR),
      endpoint GET [Param ''task_id'', Lit ''events''] ''task_events'' Public]"

definition batches_router :: "endpoint list" where
  "batches_router = router [Lit ''batches''] AnyUser
     [endpoint POST [] ''create_batch'' (Needs OPERATOR),
      endpoint GET [] ''list_batches'' Public,
      endpoint GET [Param ''batch_id''] ''get_batch'' Public,
      endpoint POST [Param ''batch_id'', Lit ''cancel''] ''cancel_batch'' (Needs OPERATOR)]"

definition webhooks_router :: "endpoint list" where
  "webhooks_router = router [Lit ''webhooks''] AnyUser
     [endpoint POST [] ''create_webhook'' (Needs ADMIN),
      endpoint GET [] ''list_webhooks'' (Needs ADMIN),
      endpoint PATCH [Param ''webhook_id''] ''update_webhook'' (Needs ADMIN),
      endpoint DELETE [Param ''webhook_id''] ''delete_webhook'' (Needs ADMIN),
      endpoint POST [Param ''webhook_id'', Lit ''test''] ''test_webhook'' (Needs ADMIN),
      endpoint GET [Lit ''deliveries''] ''list_deliveries'' (Needs ADMIN)]"

definition workers_router :: "endpoint list" where
  "workers_router = router [Lit ''workers''] AnyUser [endpoint GET [] ''list_workers'' Public]"

definition stats_router :: "endpoint list" where
  "stats_router = router [Lit ''stats''] AnyUser [endpoint GET [] ''get_stats'' Public]"

definition audit_router :: "endpoint list" where
  "audit_router = router [Lit ''audit''] (Needs ADMIN) [endpoint GET [] ''list_audit'' Public]"

definition ws_router :: "endpoint list" where
  \<comment> \<open>the stream authenticates itself, by the token of its query\<close>
  "ws_router = router [Lit ''ws''] Public [endpoint WEBSOCKET [Lit ''events''] ''ws_events'' Public]"

definition api_router :: "string list \<Rightarrow> endpoint list" where
  "api_router api_v1_prefix =
     concat (map (include_router api_v1_prefix)
       [auth_router, health_router, tasks_router, batches_router, webhooks_router, workers_router, stats_router,
        audit_router, ws_router])"

definition app_routes :: "string list \<Rightarrow> endpoint list" where
  "app_routes api_v1_prefix =
     [endpoint GET [] ''dashboard'' Public] @ health_router @ metrics_router @ api_router api_v1_prefix"

section \<open>Finding the route\<close>

text \<open>
  What the framework documents: a literal segment matches itself, a parameter any one segment that is
  not empty, and of the routes that match method and path the first in the order of registration
  is taken. What it does with a path that no route matches is left open.
\<close>

fun segment_matches :: "segment \<Rightarrow> string \<Rightarrow> bool" where
  "segment_matches (Lit w) x \<longleftrightarrow> w = x"
| "segment_matches (Param p) x \<longleftrightarrow> x \<noteq> []"

definition takes_request :: "verb \<Rightarrow> string list \<Rightarrow> endpoint \<Rightarrow> bool" where
  "takes_request v path e \<longleftrightarrow> r_verb e = v \<and> list_all2 segment_matches (r_template e) path"

type_synonym framework = "endpoint list \<Rightarrow> verb \<Rightarrow> string list \<Rightarrow> endpoint option"

definition routing_documented :: "framework \<Rightarrow> bool" where
  "routing_documented find_route \<longleftrightarrow>
     (\<forall>es v path e. List.find (takes_request v path) es = Some e \<longrightarrow> find_route es v path = Some e)"

section \<open>Where a request is sent\<close>

fun target :: "request \<Rightarrow> verb \<times> string list" where
  "target (CreateTask _ _ _) = (POST, [''tasks''])"
| "target (BulkCreate _ _ _) = (POST, [''tasks'', ''bulk''])"
| "target (BulkRetry _ _) = (POST, [''tasks'', ''bulk'', ''retry''])"
| "target (BulkCancel _ _) = (POST, [''tasks'', ''bulk'', ''cancel''])"
| "target (RetryTask _ tid) = (POST, [''tasks'', show_int tid, ''retry''])"
| "target (CancelTask _ tid) = (POST, [''tasks'', show_int tid, ''cancel''])"
| "target (ListTasks _ _ _) = (GET, [''tasks''])"
| "target (GetTask tid) = (GET, [''tasks'', show_int tid])"
| "target (TaskEvents tid) = (GET, [''tasks'', show_int tid, ''events''])"
| "target (CreateBatch _ _ _) = (POST, [''batches''])"
| "target (CancelBatch _ bid) = (POST, [''batches'', show_int bid, ''cancel''])"
| "target (ListBatches _ _) = (GET, [''batches''])"
| "target (GetBatch bid _ _) = (GET, [''batches'', show_int bid])"
| "target (CreateWebhook _ _ _ _ _) = (POST, [''webhooks''])"
| "target (UpdateWebhook _ wid _) = (PATCH, [''webhooks'', show_int wid])"
| "target (DeleteWebhook _ wid) = (DELETE, [''webhooks'', show_int wid])"
| "target (TestWebhook _ wid) = (POST, [''webhooks'', show_int wid, ''test''])"
| "target ListWebhooks = (GET, [''webhooks''])"
| "target (ListDeliveries _ _ _ _) = (GET, [''webhooks'', ''deliveries''])"
| "target ListWorkers = (GET, [''workers''])"
| "target (GetStats _) = (GET, [''stats''])"
| "target (ListAudit _ _ _) = (GET, [''audit''])"
| "target Me = (GET, [''auth'', ''me''])"
| "target (ChangePassword _ _ _ _) = (POST, [''auth'', ''change-password''])"
| "target (SetRole _ uid _) = (POST, [''auth'', ''users'', show_int uid, ''role''])"
| "target (SetActive _ uid _) = (POST, [''auth'', ''users'', show_int uid, ''active''])"
| "target (CreateApiToken _ _ _) = (POST, [''auth'', ''tokens''])"
| "target ListApiTokens = (GET, [''auth'', ''tokens''])"
| "target (RevokeApiToken _ tid) = (DELETE, [''auth'', ''tokens'', show_int tid])"

fun handler_name :: "request \<Rightarrow> string" where
  "handler_name (CreateTask _ _ _) = ''create_task''"
| "handler_name (BulkCreate _ _ _) = ''bulk_create_tasks''"
| "handler_name (BulkRetry _ _) = ''bulk_retry_tasks''"
| "handler_name (BulkCancel _ _) = ''bulk_cancel_tasks''"
| "handler_name (RetryTask _ _) = ''retry_task''"
| "handler_name (CancelTask _ _) = ''cancel_task''"
| "handler_name (ListTasks _ _ _) = ''list_tasks''"
| "handler_name (GetTask _) = ''get_task''"
| "handler_name (TaskEvents _) = ''task_events''"
| "handler_name (CreateBatch _ _ _) = ''create_batch''"
| "handler_name (CancelBatch _ _) = ''cancel_batch''"
| "handler_name (ListBatches _ _) = ''list_batches''"
| "handler_name (GetBatch _ _ _) = ''get_batch''"
| "handler_name (CreateWebhook _ _ _ _ _) = ''create_webhook''"
| "handler_name (UpdateWebhook _ _ _) = ''update_webhook''"
| "handler_name (DeleteWebhook _ _) = ''delete_webhook''"
| "handler_name (TestWebhook _ _) = ''test_webhook''"
| "handler_name ListWebhooks = ''list_webhooks''"
| "handler_name (ListDeliveries _ _ _ _) = ''list_deliveries''"
| "handler_name ListWorkers = ''list_workers''"
| "handler_name (GetStats _) = ''get_stats''"
| "handler_name (ListAudit _ _ _) = ''list_audit''"
| "handler_name Me = ''me''"
| "handler_name (ChangePassword _ _ _ _) = ''change_password''"
| "handler_name (SetRole _ _ _) = ''set_role''"
| "handler_name (SetActive _ _ _) = ''set_active''"
| "handler_name (CreateApiToken _ _ _) = ''create_api_token''"
| "handler_name ListApiTokens = ''list_api_tokens''"
| "handler_name (RevokeApiToken _ _) = ''revoke_api_token''"

definition guard_of :: "request \<Rightarrow> guard" where
  "guard_of req = (case required_roles req of None \<Rightarrow> AnyUser | Some roles \<Rightarrow> Needs roles)"

section \<open>Every request finds its route\<close>

lemma show_int_no_word [simp]: "show_int n \<noteq> ''bulk''" "''bulk'' \<noteq> show_int n" "show_int n \<noteq> []"
proof -
  have "read_int ''bulk'' = None" "read_int [] = None" by code_simp+
  then show "show_int n \<noteq> ''bulk''" "''bulk'' \<noteq> show_int n" "show_int n \<noteq> []"
    using read_show_int [of n] by (metis option.distinct(1))+
qed

text \<open>Under the prefix a table finds what it finds without it.\<close>

lemma under_prefix:
  "list_all2 segment_matches (map Lit base @ t) (base @ path) = list_all2 segment_matches t path"
  by (induction base) simp_all

lemma find_under_prefix:
  assumes "List.find (takes_request v path) es = Some e"
  shows "List.find (takes_request v (base @ path)) (include_router base es) =
    Some (e\<lparr>r_template := map Lit base @ r_template e\<rparr>)"
  using assms by (induction es) (auto simp: include_router_def takes_request_def under_prefix split: if_splits)

lemma find_append: "List.find P (xs @ ys) = (case List.find P xs of Some x \<Rightarrow> Some x | None \<Rightarrow> List.find P ys)"
  by (induction xs) auto

definition api_table :: "endpoint list" where
  "api_table = auth_router @ health_router @ tasks_router @ batches_router @ webhooks_router @ workers_router @
     stats_router @ audit_router @ ws_router"

lemma api_router_table: "api_router base = include_router base api_table"
  by (simp add: api_router_def api_table_def include_router_def)

lemmas routers = auth_router_def health_router_def tasks_router_def batches_router_def webhooks_router_def
  workers_router_def stats_router_def audit_router_def ws_router_def metrics_router_def router_def endpoint_def

lemma find_in_table:
  "\<exists>e. List.find (takes_request (fst (target req)) (snd (target req))) api_table = Some e \<and>
     r_handler e = handler_name req \<and> r_guard e = guard_of req"
  by (cases req) (simp_all add: takes_request_def api_table_def routers guard_of_def ADMIN_def OPERATOR_def)

text \<open>The routes outside the prefix do not take a request under it.\<close>

lemma find_outside:
  "List.find (takes_request (fst (target req)) (base @ snd (target req)))
     ([endpoint GET [] ''dashboard'' Public] @ health_router @ metrics_router) = None"
  by (cases base; cases req) (simp_all add: takes_request_def routers)

lemma app_routes_split:
  "app_routes base =
     ([endpoint GET [] ''dashboard'' Public] @ health_router @ metrics_router) @ include_router base api_table"
  by (simp add: app_routes_def api_router_table)

lemma request_found:
  assumes "routing_documented find_route"
  shows "\<exists>e. find_route (app_routes base) (fst (target req)) (base @ snd (target req)) = Some e \<and>
    r_handler e = handler_name req \<and> r_guard e = guard_of req"
proof -
  obtain e where e: "List.find (takes_request (fst (target req)) (snd (target req))) api_table = Some e"
    "r_handler e = handler_name req" "r_guard e = guard_of req"
    using find_in_table by blast
  let ?e = "e\<lparr>r_template := map Lit base @ r_template e\<rparr>"
  have "List.find (takes_request (fst (target req)) (base @ snd (target req))) (app_routes base) = Some ?e"
    unfolding app_routes_split
    by (subst find_append) (simp only: find_outside option.case find_under_prefix [OF e(1)])
  then have "find_route (app_routes base) (fst (target req)) (base @ snd (target req)) = Some ?e"
    using assms by (simp add: routing_documented_def)
  then show ?thesis using e by simp
qed

text \<open>What anyone may call.\<close>

definition open_handlers :: "string list" where
  "open_handlers =
     [''dashboard'', ''health'', ''metrics_endpoint'', ''register'', ''login'', ''refresh'', ''logout'', ''ws_events'']"

lemma public_routes:
  "\<forall>e\<in>set (app_routes base). r_guard e = Public \<longrightarrow> r_handler e \<in> set open_handlers"
  by (simp add: app_routes_def api_router_table include_router_def api_table_def routers open_handlers_def
      ADMIN_def OPERATOR_def)

end
