(* ===== verification/Spec2Isabelle.thy ===== *)
theory Spec2Isabelle
  imports Deployment Task_Refinement Task_Properties Worker_Properties Account_Properties Migration_Env Runs Routing
begin

text \<open>
  Verification of the task platform: an API server, workers, and background loops that share
  one SQL database, a RabbitMQ queue and a Redis server. All source names below are under
  \<open>src/backend/app/\<close>.

  \<^bold>\<open>The program.\<close> A request creates a task (\<open>services/tasks.py\<close>), perhaps with parents
  (\<open>services/dependencies.py\<close>) or as one of a batch (\<open>services/batches.py\<close>). A task that is queued
  leaves a row in the outbox, in the same transaction; the relay (\<open>services/outbox.py\<close>) publishes
  the pending rows. A worker (\<open>worker/main.py\<close>) takes a message, claims the task under a lease
  (\<open>worker/services/attempts.py\<close>), executes its handler (\<open>worker/executors/\<close>) while a loop renews the
  lease, and records success or failure, with retries, dead letters, and the cascade to the
  tasks that depend on it. The coordinator (\<open>worker/services/scheduler.py\<close>) queues again what is due,
  stuck or orphaned and purges old rows. Every status change enqueues webhook deliveries
  (\<open>services/webhooks.py\<close>), which a dispatcher sends. The routes (\<open>api/routes/\<close>) wrap the services in a
  transaction and an audit entry (\<open>services/audit.py\<close>), behind authentication (\<open>services/auth.py\<close>,
  \<open>services/api_tokens.py\<close>) and rate limits (\<open>core/rate_limit.py\<close>).

  \<^bold>\<open>State and errors.\<close> \<open>Platform_Data\<close> has the rows of \<open>models/\<close> as records and the enumerations as
  datatypes; \<open>Database\<close> the settings of \<open>core/config.py\<close> that the logic reads and the state \<open>db\<close>, one
  list of rows per table with the sequences that hand out keys. An operation of a session is a
  function to \<open>'a result\<close>: \<open>Ok\<close> a value and the new state, or \<open>Raise\<close> an error with the writes that are
  still pending; a route ends in \<open>rollback_to\<close> for an error, which restores the tables and keeps the
  sequences. A status change works on the object the session holds, which may be older than its
  row: this is what a worker does after the execution of a task.

  \<^bold>\<open>Theories, from the ground up.\<close>
  \<^item> \<open>Prelude\<close>: time, outcomes, keyed tables. \<open>Listing\<close>: pages and their contract, numbers as text.
  \<^item> \<open>Task_Machine\<close>: the transition table and the backoff. \<open>Task_State\<close>: one status change and the
    webhook enqueueing. \<open>Cascade\<close>: the mutual recursion of \<open>set_status\<close>, \<open>_after_status_change\<close> and
    \<open>advance_children\<close>, with the contract \<open>cascade_invariant\<close>. \<open>Cascade_Spec\<close>: what the cascade does,
    as reachability in the dependency graph. \<open>Integrity\<close>: the invariant of tasks, event log,
    attempts and dependencies. \<open>Dependencies\<close>: registration and the cycle walk.
  \<^item> \<open>Tasks\<close>, \<open>Batches\<close>, \<open>Webhooks\<close>, \<open>Audit_Log\<close>, \<open>Registry\<close>, \<open>Attempts\<close>, \<open>Scheduler\<close>, \<open>Outbox_Relay\<close>,
    \<open>Worker_Main\<close>, \<open>Background\<close>: the services and the worker process. \<open>Task_Routes\<close>: their routes.
    \<open>Tasks_Correct\<close>, \<open>Attempts_Correct\<close>, \<open>Finish_Correct\<close>, \<open>Scheduler_Correct\<close>, \<open>Worker_Correct\<close>: what
    each operation does on every branch, and that it keeps the integrity.
  \<^item> \<open>Rate_Limit\<close>: the limiters, with the contract \<open>sliding_window\<close>. \<open>Auth\<close>: users, tokens, roles, their
    routes, and the admission of a WebSocket. \<open>Accounts\<close>: what all account transactions keep, with
    the contract \<open>revocable\<close> of a credential. \<open>Auth_Correct\<close>: what each of them does. \<open>Views\<close>:
    statistics, metrics, lists, event frames, log lines and request validation.
  \<^item> \<open>Messages\<close>: what the operations do to outbox and deliveries, with the contract
    \<open>message_invariant\<close>. \<open>System\<close>: the platform as a transition system, with the contract
    \<open>platform_invariant\<close>. \<open>Credentials\<close>: accounts and revocations in every step of it.
    \<open>Task_Relations\<close>: relations between the states around a transaction, with the contract
    \<open>task_relation\<close>: what holds of the operations on one task holds of their loops and routes.
    \<open>Task_Refinement\<close>: every step takes every task through a run of the abstract task machine.
    \<open>Announcements\<close>: every step that queues a task leaves its message, and a pending message is enough
    for the task to be executed. \<open>Relay_Loop\<close>: the relay over many turns with outages, refusals and
    lost commits.
  \<^item> \<open>Processes\<close>: the worker's consumption of the queue with its reconnections, the turns of the other
    loops, the life of the API process (\<open>main.py\<close>), its middleware and CORS settings, the stream of a
    WebSocket, and the clients opened when they are needed, with the contract \<open>lazy_client\<close>.
    \<open>Schemas\<close>: the answers of the API (\<open>schemas/\<close>) and what they do not show. \<open>Telemetry\<close>: the metrics
    the operations count and the live events they publish after their commit. \<open>Deployment\<close>: all
    settings, the declarations at the broker, the root logger, the options of the database engine.
  \<^item> \<open>Api\<close>: every request that needs a user, the role its route demands, and its handling from the
    credentials to the answer, with what a user without a role can change. \<open>Routing\<close>: the table of
    routes with their guards, and the route each request takes. \<open>Runs\<close>: the entry points of all
    processes as activities on the shared database, each with its run of the transition system.
  \<^item> \<open>Migrations\<close>: the schema operations of \<open>src/backend/alembic/versions\<close>, the tables declared in
    \<open>models/\<close>, and their comparison. \<open>Migration_Env\<close>: \<open>src/backend/alembic/env.py\<close>, which runs them.
  \<^item> \<open>Sample\<close>: a small database for the witnesses. \<open>Task_Properties\<close>, \<open>Worker_Properties\<close>,
    \<open>Account_Properties\<close> and this theory: the properties, each with its witness.

  \<^bold>\<open>Concurrency.\<close> \<open>System.step\<close> takes one transaction at a time, of any client or loop, in any order;
  a worker's claim and its finish are two transactions, and everything may happen between them.
  The invariants hold in every reachable state. Transactions are atomic and serial; \<open>FOR UPDATE
  SKIP LOCKED\<close> has no effect then. Redis and RabbitMQ appear through what they answer.

  \<^bold>\<open>Recursion.\<close> The cascade is defined by recursion on fuel. \<open>set_status\<close> starts it with one more
  than the number of tasks in status \<open>created\<close>: every nested status change takes a task out of that
  status for good, so the fuel is never used up, and the definition satisfies the source's
  equation without it (\<open>set_status_recursion\<close>). All other loops of the source are structural, or
  terminate by a measure (the cycle walk). The endless loops of the processes are modelled by
  their turns.

  \<^bold>\<open>Conventions.\<close> Instants are numbers of microseconds; each \<open>datetime.now\<close> takes the next reading of
  an arbitrary clock, so no two readings are taken to be equal or ordered unless a property says
  so. Floats are rationals. A character stands for a code point; Ukrainian texts are
  transliterated. A query without an order gives the rows in the order of the table. Columns that
  nothing reads are left out, as are log calls within operations; metrics and live events are
  functions of their own beside the operations (\<open>Telemetry\<close>).

  \<^bold>\<open>Parameters.\<close> Code that is not in the repository is an argument: PyJWT, bcrypt, SHA-256 and \<open>int\<close> on
  texts (\<open>auth_api\<close>), the sorted-set commands of Redis (\<open>redis_api\<close>), the HTTP client and HMAC of the
  webhooks, the broker's answers, \<open>ILIKE\<close>, \<open>str\<close> and \<open>repr\<close> of Python. What a property needs of
  them is a named hypothesis (\<open>jwt_documented\<close>, \<open>bcrypt_documented\<close>, \<open>redis_documented\<close>) with an instance
  in \<open>Account_Properties\<close>.

  \<^bold>\<open>Not modelled.\<close> The text of the dashboard page (\<open>main.py\<close>), the SQL that SQLAlchemy makes of the
  queries, the scheduling of the background tasks that publish live events, and the Prometheus
  registry: they are I/O or declarative. How the framework searches its table of routes
  (\<open>routing_documented\<close>) and how Alembic keeps its options (\<open>config_documented\<close>) are parameters. A
  connection to RabbitMQ or Redis appears through what it answers and when it is opened and closed.
  Of a migration the schema is modelled, with the documented effect of each DDL operation. In a list
  of activities (\<open>Runs\<close>) a turn of the coordinator is one piece; between its passes the transition
  system has every other step.
\<close>
section \<open>The platform\<close>

text \<open>C1: in every state the platform reaches by any interleaving of its transactions, claims,
  finishes and lost workers, keys are unique and below their sequences, the dependency graph is
  acyclic, every event log is a walk of the transition table from \<open>created\<close> to its task's status,
  attempts are numbered 1 to the counter, the error texts fit their columns, a task has a lease exactly when it runs and an end
  exactly when its status is terminal; and every execution in flight holds a task object that
  was running.\<close>

theorem reachable_integrity:
  assumes "reachable cfg (s, running)"
  shows "integrity s \<and> (\<forall>(obj, aid)\<in>set running. held obj)"
  using integrity_platform.invariant [OF assms] by simp

theorem reachable_integrity_witness: "integrity sample_start"
  using reachable_integrity [OF sample_start_reachable] by simp

text \<open>C2: the message streams stay sound in every reachable state: outbox and delivery ids are
  unique and below their sequences, an outbox row is pending exactly when it has not been
  processed, no delivery has been attempted more often than the configured maximum, the error texts fit
  their columns, and every message in the outbox carries the routing key the workers' queue is bound to
  and a body from which a worker reads a task id.\<close>

theorem reachable_streams:
  assumes "reachable cfg (s, running)"
  shows "streams_ok cfg s \<and>
    (\<forall>oe\<in>set (outbox s). o_routing_key oe = routing_key_task_created cfg \<and>
       (\<exists>tid. decode_payload (Some (o_payload oe)) = Some (o_payload oe) \<and> message_task_id parse_int (o_payload oe) = Some tid))"
  using streams_platform.invariant [OF assms] usable_platform.invariant [OF assms] decode_message message_task
  unfolding usable_outbox_def usable_message_def fst_conv by blast

theorem reachable_streams_witness:
  "streams_ok default_settings sample_start \<and> o_routing_key (hd (outbox sample_start)) = ''task_created''"
proof -
  obtain oe where oe: "outbox sample_start = [oe]" using sample_start_outbox by auto
  show ?thesis using reachable_streams [OF sample_start_reachable] by (simp add: oe default_settings_def)
qed

text \<open>C3: a committed message is never lost before it is sent: whatever step the platform
  takes from a reachable state, a pending outbox row is still there afterwards with its
  routing key and payload.\<close>

theorem no_message_lost:
  assumes "reachable cfg (s, running)" "step cfg (s, running) (s', running')"
    and "oe \<in> set (outbox s)" "o_status oe = OUTBOX_PENDING"
  shows "\<exists>oe'\<in>set (outbox s'). o_id oe' = o_id oe \<and> o_routing_key oe' = o_routing_key oe \<and> o_payload oe' = o_payload oe"
  using step_never_lost [OF assms(2)] streams_platform.invariant [OF assms(1)] assms(3,4)
  by (auto simp: never_lost_def key_of_def)

theorem no_message_lost_witness:
  "\<exists>oe'\<in>set (outbox (snd (purge_old_data default_settings None sample_start))). o_id oe' = o_id (hd (outbox sample_start))"
proof -
  obtain oe where oe: "outbox sample_start = [oe]" "o_status oe = OUTBOX_PENDING" using sample_start_outbox by auto
  show ?thesis
    using no_message_lost [OF sample_start_reachable step.transaction [OF committed.purge [of _ sample_start None]], of oe] oe
    by auto
qed

text \<open>C4: a task is never queued silently: a step that puts a task into the queue leaves in the
  outbox a pending message for it, which the step itself has written.\<close>

theorem queued_with_message:
  assumes "reachable cfg (s, running)" "step cfg (s, running) (s', running')"
    and "status_of j s' = Some Queued" "status_of j s \<noteq> Some Queued"
  shows "\<exists>oe\<in>set (outbox s'). o_status oe = OUTBOX_PENDING \<and> message_for j oe \<and> o_id oe \<notin> o_id ` set (outbox s)"
  using step_queues [OF assms(2)] integrity_platform.invariant [OF assms(1)] streams_platform.invariant [OF assms(1)] assms(3,4)
  by (auto simp: queues_with_message_def)

theorem queued_with_message_witness:
  "\<exists>oe\<in>set (outbox sample_start). o_status oe = OUTBOX_PENDING \<and> message_for 1 oe"
proof -
  have "step default_settings (empty_db 0 (\<lambda>n. int n), []) (sample_start, [])"
    unfolding sample_start_def by (rule step.transaction, rule committed.create)
  moreover have "status_of 1 sample_start = Some Queued" by code_simp
  moreover have "status_of 1 (empty_db 0 (\<lambda>n. int n)) \<noteq> Some Queued" by code_simp
  ultimately show ?thesis using queued_with_message [OF reachable.start] by blast
qed



text \<open>C6: whatever the entry points of the program are asked to do, in whatever order, starting
  from an empty database - requests of clients with any credentials, logins, turns of the relay, the
  dispatcher, the coordinator, the heartbeat and the retention, messages handled by workers with any
  of these in between - the platform is in a reachable state of the transition system, with nothing
  in flight; so it is sound, and so is what the invariants say of it. The schemas have validated the names and
  passwords of registrations and the roles that are set.\<close>

theorem processes_stay_reachable:
  assumes "\<forall>a\<in>set activities. validated a"
  shows "let s = perform_all env cfg activities (empty_db t c) in
    reachable cfg (s, []) \<and> integrity s \<and> streams_ok cfg s \<and> accounts_ok s"
proof -
  have reached: "reachable cfg (perform_all env cfg activities (empty_db t c), [])"
    by (rule runs_reachable [OF reachable.start perform_all_runs [OF assms]])
  then show ?thesis
    using integrity_platform.invariant [OF reached] streams_platform.invariant [OF reached] accounts_platform.invariant [OF reached]
    by (simp add: Let_def)
qed

definition sample_environment :: environment where
  "sample_environment =
     \<lparr>like_matches = (=), http_client = \<lambda>_ _. (True, Some 200, []), auth_library = sample_api, python_builtins = sample_python,
      int_builtin = read_int, registered_handlers = registry sample_python\<rparr>"

definition sample_activities :: "activity list" where
  "sample_activities =
     [Register True ''salt'' ''alice'' ''password'' None, Time 5 (\<lambda>n. 5), Heartbeat True ''w'' ''host'' 1, Coordinate,
      Handle ''w'' (Some (JObj [(''task_id'', JInt 1)])) [Retain True, Dispatch True]]"

theorem processes_stay_reachable_witness:
  "accounts_ok (perform_all sample_environment default_settings sample_activities (empty_db 0 (\<lambda>n. 0))) \<and>
    map u_username (users (perform_all sample_environment default_settings sample_activities (empty_db 0 (\<lambda>n. 0)))) = [''alice'']"
proof
  have "\<forall>a\<in>set sample_activities. validated a" by (simp add: sample_activities_def valid_register_def)
  from processes_stay_reachable [OF this]
  show "accounts_ok (perform_all sample_environment default_settings sample_activities (empty_db 0 (\<lambda>n. 0)))"
    by (simp add: Let_def)
  show "map u_username (users (perform_all sample_environment default_settings sample_activities (empty_db 0 (\<lambda>n. 0)))) = [''alice'']"
    by code_simp
qed

section \<open>The routes\<close>



section \<open>The task state machine\<close>

text \<open>C7: the status change satisfies the recursive equation of the source, whatever the
  dependency graph is: the fuel of its definition is never exhausted, so the mutual recursion
  of \<open>set_status\<close>, \<open>_after_status_change\<close> and \<open>advance_children\<close> terminates.\<close>

theorem set_status_recursion:
  "set_status cfg obj new ev m s = set_status_body cfg (set_status cfg) obj new ev m s"
  by (rule set_status_unfold)

text \<open>C8: a status change raises exactly when its own transition is not in the table, with
  that transition in the error: no failure inside the cascade over the dependent tasks escapes.\<close>

theorem set_status_errors:
  assumes "integrity s"
  shows "raised (set_status cfg obj new ev m s) =
    (if t_status obj = new \<or> can_transition (t_status obj) new then None
     else Some (InvalidTransitionError (t_status obj) new (t_id obj)))"
  by (rule set_status_raises [OF assms])

theorem set_status_errors_witness:
  "raised (set_status default_settings (sample_task 7 Success 1) Queued ''task.queued'' None sample_db) =
    Some (InvalidTransitionError Success Queued 7)"
  using set_status_errors [OF sample_integrity, of default_settings "sample_task 7 Success 1" Queued "''task.queued''" None]
  by (simp add: sample_task_def can_transition_def)

text \<open>C9: a task that ends without success cancels exactly the tasks below it in the dependency
  graph that are reached through blocked tasks; no other task changes its status, and nothing is
  published.\<close>

theorem cancelling_cascade:
  assumes "can_transition (t_status obj) new" "new \<in> set TERMINAL" "new \<noteq> Success"
  shows "\<exists>obj' s'. set_status cfg obj new ev m s = Ok obj' s' \<and> outbox s' = outbox s \<and>
    (\<forall>j. status_of j s' =
      (if j = t_id obj then map_option (\<lambda>_. new) (status_of (t_id obj) s)
       else if blocked_below s (t_id obj) j then Some Cancelled else status_of j s))"
  by (rule set_status_cancels [OF assms, of cfg ev m s]) (auto simp: cancel_spec_def)

theorem cancelling_cascade_witness:
  "\<exists>obj' s'. set_status default_settings (sample_task 1 Running 1) Failed ''task.failed'' None sample_db = Ok obj' s' \<and>
    status_of 3 s' = Some Cancelled"
proof -
  have "blocked_below sample_db 1 2"
    by (rule blocked_below.child) (simp_all add: children_of_def status_of_def get_task_row_def find_row_def sample_defs)
  then have "blocked_below sample_db 1 3"
    by (rule blocked_below.further) (simp_all add: children_of_def status_of_def get_task_row_def find_row_def sample_defs)
  moreover have "t_id (sample_task 1 Running 1) = 1" "t_status (sample_task 1 Running 1) = Running"
    by (simp_all add: sample_task_def)
  ultimately show ?thesis
    using cancelling_cascade [of "sample_task 1 Running 1" Failed default_settings "''task.failed''" None sample_db]
    by (auto simp: can_transition_def)
qed

text \<open>C10: a running attempt that succeeds ends its task in success with the result, queues
  exactly the blocked children that wait for nothing else, and publishes one message for each of
  them, in order, and nothing more.\<close>

theorem success_unblocks:
  assumes "integrity s" "held obj" "still_running obj s" "aid \<in> a_id ` set (attempts s)"
  shows "\<exists>obj' s'. record_success cfg obj aid r s = Ok obj' s' \<and>
    (\<forall>j. status_of j s' =
      (if j = t_id obj then Some Success
       else if unblocked_by s (t_id obj) j then Some Queued else status_of j s)) \<and>
    map_option t_result (get_task_row (t_id obj) s') = Some (Some r) \<and>
    publishes cfg s s' (map (\<lambda>c. task_message (the (get_task_row c s)))
      (filter (unblocked_by s (t_id obj)) (children_of (t_id obj) s)))"
  by (rule record_success_effect [OF assms, of cfg r]) blast

lemma sample_running: "held (sample_task 1 Running 1)" "still_running (sample_task 1 Running 1) sample_db"
  "1 \<in> a_id ` set (attempts sample_db)" "t_id (sample_task 1 Running 1) = 1"
  by (simp_all add: held_def still_running_def get_task_row_def find_row_def sample_defs)

theorem success_unblocks_witness:
  "\<exists>obj' s'. record_success default_settings (sample_task 1 Running 1) 1 JNull sample_db = Ok obj' s' \<and>
    status_of 2 s' = Some Queued \<and> status_of 3 s' = Some Created"
proof -
  have "unblocked_by sample_db 1 2" "\<not> unblocked_by sample_db 1 3" "status_of 3 sample_db = Some Created"
    by (simp_all add: unblocked_by_def children_of_def parents_of_def status_of_def get_task_row_def find_row_def sample_defs)
  then show ?thesis
    using success_unblocks [OF sample_integrity sample_running(1-3), of default_settings JNull] sample_running(4)
    by auto
qed

text \<open>C11: a failed attempt of a running task schedules a retry at the backoff after the failure
  while attempts are left, makes a dead letter of the task (with the time of its next cycle while
  cycles are left) when none is, and fails the task for good when the error is not retryable; the
  blocked tasks below are cancelled exactly when no retry follows, and nothing is published.\<close>

theorem failure_outcome:
  assumes "integrity s" "held obj" "still_running obj s" "aid \<in> a_id ` set (attempts s)"
  shows "\<exists>obj' s' t. record_failure cfg obj aid e retryable s = Ok obj' s' \<and>
    get_task_row (t_id obj) s' = Some t \<and> failed_row cfg obj e retryable s t \<and> outbox s' = outbox s \<and>
    (\<forall>j. j \<noteq> t_id obj \<longrightarrow> status_of j s' =
      (if failure_status obj retryable \<noteq> RetryScheduled \<and> blocked_below s (t_id obj) j
       then Some Cancelled else status_of j s))"
  by (rule record_failure_effect [OF assms, of cfg e retryable]) blast

theorem failure_outcome_witness:
  "\<exists>obj' s' t. record_failure default_settings (sample_task 1 Running 1) 1 ''boom'' True sample_db = Ok obj' s' \<and>
    get_task_row 1 s' = Some t \<and> t_status t = RetryScheduled \<and> status_of 2 s' = Some Created"
proof -
  have st: "failure_status (sample_task 1 Running 1) True = RetryScheduled" "status_of 2 sample_db = Some Created"
    by (simp_all add: failure_status_def status_of_def get_task_row_def find_row_def sample_defs)
  obtain obj' s' t where r: "record_failure default_settings (sample_task 1 Running 1) 1 ''boom'' True sample_db = Ok obj' s'"
    "get_task_row 1 s' = Some t" "failed_row default_settings (sample_task 1 Running 1) ''boom'' True sample_db t"
    "\<forall>j. j \<noteq> 1 \<longrightarrow> status_of j s' = (if failure_status (sample_task 1 Running 1) True \<noteq> RetryScheduled \<and>
       blocked_below sample_db 1 j then Some Cancelled else status_of j sample_db)"
    using failure_outcome [OF sample_integrity sample_running(1-3), of default_settings "''boom''" True] sample_running(4)
    by auto
  then have "t_status t = RetryScheduled" "status_of 2 s' = Some Created" using st by (simp_all add: failed_row_def)
  with r show ?thesis by blast
qed

end
